(* ===== verification/Ads_Prelude.thy ===== *)
theory Ads_Prelude
  imports Main "HOL-Library.Word" "HOL-Library.Monad_Syntax"
begin

text \<open>
  Shared vocabulary of the development: the machine integers of the C++ code, byte buffers with
  the copies \<open>memcpy\<close> makes between them and integers (little endian, as on the only platform the
  build supports), the ordered association lists that stand for \<open>std::map\<close>, and the generic
  lemmas on them.  A copy that would leave its buffer has no defined result in C++; here it is
  \<open>None\<close>.
\<close>

unbundle bit_operations_syntax

section \<open>Machine integers\<close>

type_synonym u8 = "8 word"
type_synonym u16 = "16 word"
type_synonym u32 = "32 word"
type_synonym u64 = "64 word"

text \<open>An \<open>int64_t\<close> is a 64 bit word that is compared and divided through \<^const>\<open>sint\<close>.\<close>

type_synonym i64 = "64 word"
type_synonym bytes = "u8 list"

named_theorems buf_simps \<open>reads from and writes to byte buffers\<close>
named_theorems amap_simps \<open>ordered association lists\<close>

text \<open>C++ integer division truncates towards zero.\<close>

definition tdiv :: "int \<Rightarrow> int \<Rightarrow> int" where
  "tdiv a b = (if a < 0 then - ((- a) div b) else a div b)"

definition sdiv64 :: "i64 \<Rightarrow> int \<Rightarrow> i64" where
  "sdiv64 a b = word_of_int (tdiv (sint a) b)"

definition sle64 :: "i64 \<Rightarrow> i64 \<Rightarrow> bool" where
  "sle64 a b \<longleftrightarrow> sint a \<le> sint b"

definition slt64 :: "i64 \<Rightarrow> i64 \<Rightarrow> bool" where
  "slt64 a b \<longleftrightarrow> sint a < sint b"

lemma sint_of_int_small:
  "- (2 ^ 63) \<le> k \<Longrightarrow> k < 2 ^ 63 \<Longrightarrow> sint (word_of_int k :: i64) = k"
  by (simp add: signed_of_int signed_take_bit_int_eq_self)

lemma sint_i64_range: "- (2 ^ 63) \<le> sint (w :: i64) \<and> sint w < 2 ^ 63"
  using sint_ge [of w] sint_lt [of w] by simp

lemma tdiv_bound: "0 < b \<Longrightarrow> \<bar>tdiv a b\<bar> \<le> \<bar>a\<bar>"
proof -
  assume b: "0 < b"
  have "0 \<le> k \<Longrightarrow> 0 \<le> k div b \<and> k div b \<le> k" for k
    using b div_int_pos_iff [of k b] zdiv_mono2 [of k 1 b] by simp
  from this [of a] this [of "- a"] show ?thesis by (auto simp: tdiv_def)
qed

section \<open>Byte buffers\<close>

fun le_nat :: "bytes \<Rightarrow> nat" where
  "le_nat [] = 0"
| "le_nat (b # bs) = unat b + 256 * le_nat bs"

fun nat_le :: "nat \<Rightarrow> nat \<Rightarrow> bytes" where
  "nat_le 0 k = []"
| "nat_le (Suc n) k = of_nat (k mod 256) # nat_le n (k div 256)"

definition le_bytes :: "nat \<Rightarrow> 'a::len word \<Rightarrow> bytes" where
  "le_bytes n w = nat_le n (unat w)"

definition le_word :: "bytes \<Rightarrow> 'a::len word" where
  "le_word bs = of_nat (le_nat bs)"

lemma length_nat_le [simp]: "length (nat_le n k) = n"
  by (induction n arbitrary: k) auto

lemma length_le_bytes [simp]: "length (le_bytes n w) = n"
  by (simp add: le_bytes_def)

lemma unat_of_nat_u8 [simp]: "unat (of_nat (k mod 256) :: u8) = k mod 256"
  by (simp add: unat_of_nat)

lemma le_nat_nat_le: "le_nat (nat_le n k) = k mod 256 ^ n"
proof (induction n arbitrary: k)
  case (Suc n)
  have "k mod 256 ^ Suc n = 256 * (k div 256 mod 256 ^ n) + k mod 256"
    by (simp add: mod_mult2_eq)
  with Suc show ?case by simp
qed simp

lemma le_nat_bound: "le_nat bs < 256 ^ length bs"
proof (induction bs)
  case (Cons b bs)
  have "unat b < 256" using unsigned_less [of b] by simp
  with Cons have "unat b + 256 * le_nat bs < 256 * Suc (le_nat bs)" by simp
  also have "\<dots> \<le> 256 * 256 ^ length bs" using Cons by (intro mult_le_mono) auto
  finally show ?case by simp
qed simp

lemma nat_le_le_nat: "nat_le (length bs) (le_nat bs) = bs"
proof (induction bs)
  case (Cons b bs)
  have b: "unat b < 256" using unsigned_less [of b] by simp
  then have "(unat b + 256 * le_nat bs) mod 256 = unat b" by simp
  moreover have "(unat b + 256 * le_nat bs) div 256 = le_nat bs" using b by simp
  ultimately show ?case using Cons by simp
qed simp

lemma pow256: "(256::nat) ^ n = 2 ^ (8 * n)"
  by (simp add: power_mult)

text \<open>For evaluation the bytes are taken from integers.\<close>

fun le_int :: "bytes \<Rightarrow> int" where
  "le_int [] = 0"
| "le_int (b # bs) = uint b + 256 * le_int bs"

fun int_le :: "nat \<Rightarrow> int \<Rightarrow> bytes" where
  "int_le 0 k = []"
| "int_le (Suc n) k = word_of_int k # int_le n (k div 256)"

lemma le_word_code [code]: "le_word bs = word_of_int (le_int bs)"
proof -
  have "int (le_nat bs) = le_int bs" by (induction bs) simp_all
  then show ?thesis by (metis le_word_def of_int_of_nat_eq)
qed

lemma le_bytes_code [code]: "le_bytes n w = int_le n (uint w)"
proof -
  have "nat_le n k = int_le n (int k)" for k
  proof (induction n arbitrary: k)
    case (Suc n)
    have "(of_nat (k mod 256) :: u8) = of_nat k" by (rule word_unat_eq_iff [THEN iffD2]) (simp add: unat_of_nat take_bit_eq_mod)
    then show ?case using Suc by (simp add: zdiv_int)
  qed simp
  then show ?thesis by (simp add: le_bytes_def)
qed

text \<open>An integer copied to a buffer and back is unchanged when the buffer is wide enough.\<close>

lemma le_word_le_bytes:
  assumes "LENGTH('a) \<le> 8 * n"
  shows "le_word (le_bytes n (w :: 'a::len word)) = w"
proof -
  have "unat w < 2 ^ LENGTH('a)" by (rule unsigned_less)
  also have "\<dots> \<le> (2::nat) ^ (8 * n)" using assms by (simp add: power_increasing)
  finally have "unat w mod 256 ^ n = unat w" by (simp add: pow256)
  then show ?thesis by (simp add: le_word_def le_bytes_def le_nat_nat_le)
qed

lemma le_bytes_le_word:
  assumes "8 * length bs \<le> LENGTH('a)"
  shows "le_bytes (length bs) (le_word bs :: 'a::len word) = bs"
proof -
  have "le_nat bs < 2 ^ (8 * length bs)" using le_nat_bound [of bs] by (simp add: pow256)
  also have "\<dots> \<le> (2::nat) ^ LENGTH('a)" using assms by (simp add: power_increasing)
  finally have "unat (of_nat (le_nat bs) :: 'a word) = le_nat bs"
    by (simp add: unat_of_nat take_bit_nat_eq_self)
  then show ?thesis by (simp add: le_bytes_def le_word_def nat_le_le_nat)
qed

lemma le_word_roundtrips [simp]:
  "le_word (le_bytes 1 (a :: u8)) = a"
  "le_word (le_bytes 2 (b :: u16)) = b"
  "le_word (le_bytes 4 (c :: u32)) = c"
  "le_word (le_bytes 8 (d :: u64)) = d"
  by (simp_all add: le_word_le_bytes)

lemma le_nat_append: "le_nat (a @ b) = le_nat a + 256 ^ length a * le_nat b"
  by (induction a) (auto simp: algebra_simps)

lemma le_nat_zeros [simp]: "le_nat (replicate n 0) = 0"
  by (induction n) auto

lemma nat_le_zero: "nat_le n 0 = replicate n 0"
  by (induction n) auto

lemma le_bytes_zero [simp]: "le_bytes n 0 = replicate n 0"
  by (simp add: le_bytes_def nat_le_zero)

lemma le_word_low:
  "le_word (le_bytes n (x :: i64) @ replicate k 0) = take_bit (8 * n) x"
proof -
  have "le_word (le_bytes n x @ replicate k 0) = (of_nat (unat x mod 2 ^ (8 * n)) :: i64)"
    by (simp add: le_word_def le_nat_append le_bytes_def le_nat_nat_le pow256)
  also have "\<dots> = take_bit (8 * n) x"
    by (simp flip: take_bit_eq_mod add: of_nat_take_bit)
  finally show ?thesis .
qed

text \<open>\<open>rd off n buf\<close> is the \<open>n\<close> bytes \<open>memcpy\<close> takes from \<open>buf + off\<close>.\<close>

definition rd :: "nat \<Rightarrow> nat \<Rightarrow> bytes \<Rightarrow> bytes option" where
  "rd off n buf = (if off + n \<le> length buf then Some (take n (drop off buf)) else None)"

definition rdw :: "nat \<Rightarrow> nat \<Rightarrow> bytes \<Rightarrow> 'a::len word option" where
  "rdw off n buf = map_option le_word (rd off n buf)"

definition wr :: "nat \<Rightarrow> bytes \<Rightarrow> bytes \<Rightarrow> bytes option" where
  "wr off bs buf =
     (if off + length bs \<le> length buf
      then Some (take off buf @ bs @ drop (off + length bs) buf) else None)"

fun wrs :: "(nat \<times> bytes) list \<Rightarrow> bytes \<Rightarrow> bytes option" where
  "wrs [] buf = Some buf"
| "wrs ((off, bs) # ws) buf = Option.bind (wr off bs buf) (wrs ws)"

lemma wr_length: "wr off bs buf = Some buf' \<Longrightarrow> length buf' = length buf"
  by (auto simp: wr_def split: if_splits)

lemma wrs_length: "wrs ws buf = Some buf' \<Longrightarrow> length buf' = length buf"
  by (induction ws arbitrary: buf) (auto split: bind_splits dest: wr_length)

lemma wrs_Some_iff:
  "(\<exists>buf'. wrs ws buf = Some buf') \<longleftrightarrow> (\<forall>(off, bs) \<in> set ws. off + length bs \<le> length buf)"
proof (induction ws arbitrary: buf)
  case (Cons w ws)
  obtain off bs where w: "w = (off, bs)" by force
  show ?case
  proof (cases "off + length bs \<le> length buf")
    case True
    then obtain b1 where b1: "wr off bs buf = Some b1" by (simp add: wr_def)
    then have "length b1 = length buf" by (rule wr_length)
    with Cons [of b1] b1 True show ?thesis by (simp add: w)
  next
    case False
    then show ?thesis by (simp add: w wr_def)
  qed
qed simp

lemma rd_wr_same: "wr off bs buf = Some buf' \<Longrightarrow> rd off (length bs) buf' = Some bs"
  by (auto simp: wr_def rd_def split: if_splits)

lemma rd_wr_other:
  assumes "wr off bs buf = Some buf'" and "o' + n \<le> off \<or> off + length bs \<le> o'"
  shows "rd o' n buf' = rd o' n buf"
proof -
  have len: "off + length bs \<le> length buf" and b: "buf' = take off buf @ bs @ drop (off + length bs) buf"
    using assms(1) by (auto simp: wr_def split: if_splits)
  have "take n (drop o' buf') = take n (drop o' buf)" if "o' + n \<le> length buf"
    using assms(2)
  proof
    assume "o' + n \<le> off"
    then have "take n (drop o' (take off buf)) = take n (drop o' buf)" and "o' + n \<le> length (take off buf)"
      using len by (simp_all add: drop_take)
    then show ?thesis by (simp add: b)
  next
    assume "off + length bs \<le> o'"
    then show ?thesis using len by (simp add: b drop_drop add.commute)
  qed
  then show ?thesis using len by (auto simp: rd_def b)
qed

text \<open>Two write positions do not touch each other.\<close>

definition apart :: "nat \<times> bytes \<Rightarrow> nat \<times> bytes \<Rightarrow> bool" where
  "apart v w \<longleftrightarrow> fst v + length (snd v) \<le> fst w \<or> fst w + length (snd w) \<le> fst v"

lemma rd_wrs_other:
  assumes "wrs ws buf = Some buf'" and "\<forall>w \<in> set ws. apart (off, bs) w" and "n = length bs"
  shows "rd off n buf' = rd off n buf"
  using assms
proof (induction ws arbitrary: buf)
  case (Cons w ws)
  obtain o1 b1 where w: "w = (o1, b1)" by force
  with Cons.prems(1) obtain bm where bm: "wr o1 b1 buf = Some bm" and rest: "wrs ws bm = Some buf'"
    by (auto split: bind_splits)
  have "rd off n buf' = rd off n bm" using Cons.IH [OF rest] Cons.prems by simp
  also have "\<dots> = rd off n buf"
    using Cons.prems by (intro rd_wr_other [OF bm]) (auto simp: apart_def w)
  finally show ?case .
qed simp

text \<open>
  A message that is filled by a sequence of copies at pairwise apart positions holds each copied
  field where it was put.
\<close>

lemma rd_wrs:
  assumes "wrs ws buf = Some buf'" and "ws = ws1 @ (off, bs) # ws2"
    and "\<forall>w \<in> set ws2. apart (off, bs) w" and "n = length bs"
  shows "rd off n buf' = Some bs"
  using assms
proof (induction ws1 arbitrary: ws buf)
  case Nil
  then obtain bm where bm: "wr off bs buf = Some bm" and rest: "wrs ws2 bm = Some buf'"
    by (auto split: bind_splits)
  show ?case using rd_wrs_other [OF rest Nil.prems(3) Nil.prems(4)] rd_wr_same [OF bm] Nil.prems(4) by simp
next
  case (Cons w ws1)
  then show ?case by (cases w) (auto split: bind_splits)
qed

text \<open>
  The usual case: the copies go from the start of the buffer to its end.  All fields of the filled
  buffer follow at once.
\<close>

definition ascending :: "(nat \<times> bytes) list \<Rightarrow> bool" where
  "ascending ws \<longleftrightarrow> sorted_wrt (\<lambda>v w. fst v + length (snd v) \<le> fst w) ws"

lemma wrs_fields:
  assumes "wrs ws buf = Some buf'" and "ascending ws"
  shows "\<forall>w \<in> set ws. rd (fst w) (length (snd w)) buf' = Some (snd w)"
proof
  fix w assume "w \<in> set ws"
  then obtain ws1 ws2 where ws: "ws = ws1 @ w # ws2" by (auto simp: in_set_conv_decomp)
  obtain off bs where w: "w = (off, bs)" by force
  have "\<forall>v \<in> set ws2. apart (off, bs) v"
    using assms(2) by (auto simp: ascending_def ws sorted_wrt_append apart_def w)
  with assms(1) ws w show "rd (fst w) (length (snd w)) buf' = Some (snd w)"
    by (auto intro: rd_wrs)
qed

lemma rd_length: "rd off n buf = Some bs \<Longrightarrow> length bs = n"
  by (auto simp: rd_def split: if_splits)

lemma le_word_single [simp]: "le_word [b] = (b :: u8)"
  by (simp add: le_word_def)

section \<open>Ordered maps\<close>

text \<open>
  A \<open>std::map\<close> is an association list with strictly increasing keys: iteration visits the keys in
  that order.  \<open>m_upd\<close> is \<open>m[k] = v\<close>, \<open>m_add\<close> the frequent \<open>m[k] += v\<close> (where a missing entry
  starts from zero), \<open>m_ins\<close> the \<open>insert\<close> that keeps an existing entry.
\<close>

type_synonym ('k, 'v) amap = "('k \<times> 'v) list"

definition keys_ok :: "('k::linorder, 'v) amap \<Rightarrow> bool" where
  "keys_ok m \<longleftrightarrow> sorted_wrt (<) (map fst m)"

fun m_upd :: "'k::linorder \<Rightarrow> 'v \<Rightarrow> ('k, 'v) amap \<Rightarrow> ('k, 'v) amap" where
  "m_upd k v [] = [(k, v)]"
| "m_upd k v ((k', v') # m) =
     (if k = k' then (k, v) # m
      else if k < k' then (k, v) # (k', v') # m
      else (k', v') # m_upd k v m)"

definition m_get :: "('k, 'v) amap \<Rightarrow> 'k \<Rightarrow> 'v option" where
  "m_get m k = map_of m k"

definition m_at :: "'v \<Rightarrow> ('k, 'v) amap \<Rightarrow> 'k \<Rightarrow> 'v" where
  "m_at d m k = (case map_of m k of None \<Rightarrow> d | Some v \<Rightarrow> v)"

definition m_add :: "'k::linorder \<Rightarrow> 'v::{plus,zero} \<Rightarrow> ('k, 'v) amap \<Rightarrow> ('k, 'v) amap" where
  "m_add k v m = m_upd k (m_at 0 m k + v) m"

definition m_del :: "'k \<Rightarrow> ('k, 'v) amap \<Rightarrow> ('k, 'v) amap" where
  "m_del k m = filter (\<lambda>(k', _). k' \<noteq> k) m"

definition m_ins :: "'k::linorder \<Rightarrow> 'v \<Rightarrow> ('k, 'v) amap \<Rightarrow> ('k, 'v) amap" where
  "m_ins k v m = (case map_of m k of None \<Rightarrow> m_upd k v m | Some _ \<Rightarrow> m)"

definition m_inserts :: "('k::linorder, 'v) amap \<Rightarrow> ('k, 'v) amap \<Rightarrow> ('k, 'v) amap" where
  "m_inserts new m = fold (\<lambda>(k, v) m. m_ins k v m) new m"

lemma keys_ok_Nil [simp]: "keys_ok []"
  by (simp add: keys_ok_def)

lemma keys_ok_Cons: "keys_ok ((k, v) # m) \<longleftrightarrow> (\<forall>k' \<in> fst ` set m. k < k') \<and> keys_ok m"
  by (auto simp: keys_ok_def)

lemma keys_ok_distinct: "keys_ok m \<Longrightarrow> distinct (map fst m)"
  by (simp add: keys_ok_def strict_sorted_iff)

lemma m_upd_last: "\<forall>x \<in> fst ` set xs. x < k \<Longrightarrow> m_upd k v xs = xs @ [(k, v)]"
  by (induction xs) auto

lemma m_upd_twice: "m_upd k v (m_upd k w m) = m_upd k v m"
  by (induction m) auto

lemma set_m_upd: "fst ` set (m_upd k v m) = insert k (fst ` set m)"
proof (induction m)
  case (Cons a m)
  then show ?case by (cases a) (simp add: insert_commute)
qed simp

lemma keys_ok_m_upd: "keys_ok m \<Longrightarrow> keys_ok (m_upd k v m)"
proof (induction m)
  case (Cons a m)
  obtain k' v' where a: "a = (k', v')" by force
  show ?case
  proof (cases "k = k' \<or> k < k'")
    case True
    with Cons a show ?thesis by (auto simp: keys_ok_Cons)
  next
    case False
    then have "k' < k" by auto
    with False Cons a show ?thesis by (auto simp: keys_ok_Cons set_m_upd image_iff)
  qed
qed (simp add: keys_ok_def)

lemma map_of_m_upd: "map_of (m_upd k v m) = (map_of m)(k \<mapsto> v)"
proof (induction m)
  case (Cons a m)
  then show ?case by (cases a) (auto simp: fun_eq_iff)
qed auto

lemma map_of_m_upd_eq: "map_of (m_upd k v m) j = (if j = k then Some v else map_of m j)"
  by (simp add: map_of_m_upd)

lemma m_at_m_upd [amap_simps]: "m_at d (m_upd k v m) j = (if j = k then v else m_at d m j)"
  by (simp add: m_at_def map_of_m_upd)

lemma keys_ok_m_add: "keys_ok m \<Longrightarrow> keys_ok (m_add k v m)"
  by (simp add: m_add_def keys_ok_m_upd)

lemma m_at_m_add [amap_simps]:
  "m_at 0 (m_add k (v :: 'v::monoid_add) m) j = (if j = k then m_at 0 m k + v else m_at 0 m j)"
  by (simp add: m_add_def m_at_m_upd)

lemma keys_ok_m_ins: "keys_ok m \<Longrightarrow> keys_ok (m_ins k v m)"
  by (simp add: m_ins_def keys_ok_m_upd split: option.split)

lemma keys_ok_m_inserts: "keys_ok m \<Longrightarrow> keys_ok (m_inserts new m)"
  unfolding m_inserts_def
  by (induction new arbitrary: m) (auto simp: keys_ok_m_ins)

lemma set_m_upd_subset: "set (m_upd k v m) \<subseteq> insert (k, v) (set m)"
  by (induction m) (auto split: if_splits)

lemma length_m_upd: "keys_ok m \<Longrightarrow> map_of m k = None \<Longrightarrow> length (m_upd k v m) = Suc (length m)"
  by (induction m) (auto simp: keys_ok_def split: if_splits)

lemma sum_list_m_upd:
  fixes v :: "'a::comm_monoid_add"
  shows "keys_ok m \<Longrightarrow> map_of m k = None \<Longrightarrow> sum_list (map snd (m_upd k v m)) = sum_list (map snd m) + v"
  by (induction m) (auto simp: keys_ok_def add_ac split: if_splits)

lemma keys_ok_m_del: "keys_ok m \<Longrightarrow> keys_ok (m_del k m)"
  by (simp add: keys_ok_def m_del_def sorted_wrt_map sorted_wrt_filter)

text \<open>The sum of a map's values changes by what an update changes at its key.\<close>

definition m_sum :: "('v \<Rightarrow> 'a::ab_group_add) \<Rightarrow> ('k, 'v) amap \<Rightarrow> 'a" where
  "m_sum f m = sum_list (map (\<lambda>(k, v). f v) m)"

lemma m_sum_m_upd:
  "keys_ok m \<Longrightarrow> m_sum f (m_upd k v m) =
     m_sum f m + f v - (case map_of m k of None \<Rightarrow> 0 | Some w \<Rightarrow> f w)"
proof (induction m)
  case (Cons a m)
  obtain k' v' where a: "a = (k', v')" by force
  have none: "k < k' \<Longrightarrow> map_of m k = None"
    using Cons.prems a by (auto simp: keys_ok_Cons map_of_eq_None_iff)
  show ?case
    using Cons none by (auto simp: a m_sum_def keys_ok_Cons)
qed (simp add: m_sum_def)

lemma m_sum_m_add:
  "keys_ok m \<Longrightarrow> m_sum id (m_add k (v :: 'v::ab_group_add) m) = m_sum id m + v"
  by (simp add: m_add_def m_sum_m_upd m_at_def split: option.split)

section \<open>Loops over a state\<close>

text \<open>
  A \<open>for\<close> loop whose body can end the process.  The locale is the usual argument about such a loop:
  a body that is defined on the valid items of a good state, keeps the state good and only moves
  it up in an order that preserves the validity of items, makes the whole loop defined.
\<close>

fun ofold :: "('a \<Rightarrow> 's \<Rightarrow> 's option) \<Rightarrow> 'a list \<Rightarrow> 's \<Rightarrow> 's option" where
  "ofold f [] s = Some s"
| "ofold f (x # xs) s = Option.bind (f x s) (ofold f xs)"

locale safe_loop =
  fixes body :: "'a \<Rightarrow> 's \<Rightarrow> 's option" and good :: "'s \<Rightarrow> bool" and item :: "'a \<Rightarrow> 's \<Rightarrow> bool"
    and le :: "'s \<Rightarrow> 's \<Rightarrow> bool"
  assumes runs: "good s \<Longrightarrow> item x s \<Longrightarrow> \<exists>s'. body x s = Some s' \<and> good s' \<and> le s s'"
    and stays: "le s s' \<Longrightarrow> item y s \<Longrightarrow> item y s'"
    and refl: "le s s"
    and trans: "le s t \<Longrightarrow> le t u \<Longrightarrow> le s u"
begin

lemma loop_runs:
  "good s \<Longrightarrow> \<forall>x \<in> set xs. item x s \<Longrightarrow> \<exists>s'. ofold body xs s = Some s' \<and> good s' \<and> le s s'"
proof (induction xs arbitrary: s)
  case (Cons x xs)
  then obtain s1 where s1: "body x s = Some s1" "good s1" "le s s1" using runs by (meson list.set_intros(1))
  then have "\<forall>y \<in> set xs. item y s1" using Cons.prems stays by (meson list.set_intros(2))
  with Cons.IH s1(2) obtain s2 where "ofold body xs s1 = Some s2" "good s2" "le s1 s2" by blast
  with s1 trans show ?case by auto
qed (simp add: refl)

end

text \<open>A loop in which each turn raises a measure by at most one.\<close>

locale counted_loop = safe_loop +
  fixes m :: "'b \<Rightarrow> nat"
  assumes step_count: "good s \<Longrightarrow> item x s \<Longrightarrow> body x s = Some s' \<Longrightarrow> m s' \<le> Suc (m s)"
begin

lemma loop_count:
  "good s \<Longrightarrow> \<forall>x \<in> set xs. item x s \<Longrightarrow> ofold body xs s = Some s' \<Longrightarrow> m s' \<le> m s + length xs"
proof (induction xs arbitrary: s)
  case (Cons x xs)
  then obtain s1 where s1: "body x s = Some s1" "good s1" "le s s1" using runs by (meson list.set_intros(1))
  then have "\<forall>y \<in> set xs. item y s1" using Cons.prems stays by (meson list.set_intros(2))
  then have "m s' \<le> m s1 + length xs" using Cons.IH s1 Cons.prems(3) by simp
  moreover have "m s1 \<le> Suc (m s)" using step_count [OF Cons.prems(1) _ s1(1)] Cons.prems(2) by simp
  ultimately show ?case by simp
qed simp

end

lemma ofold_append: "ofold f (xs @ ys) s = Option.bind (ofold f xs s) (ofold f ys)"
proof (induction xs arbitrary: s)
  case (Cons x xs)
  then show ?case by (cases "f x s") auto
qed simp

text \<open>What every step of a loop relates, the loop relates.\<close>

lemma ofold_rel:
  assumes "ofold f xs s = Some s'" and "\<And>x s s'. f x s = Some s' \<Longrightarrow> R s s'"
    and "\<And>s. R s s" and "\<And>a b c. R a b \<Longrightarrow> R b c \<Longrightarrow> R a c"
  shows "R s s'"
  using assms(1)
proof (induction xs arbitrary: s)
  case Nil
  then show ?case using assms(3) by simp
next
  case (Cons x xs)
  then obtain s1 where "f x s = Some s1" "ofold f xs s1 = Some s'" by (auto simp: bind_eq_Some_conv)
  with Cons.IH assms(2,4) show ?case by blast
qed

end
