(* ===== verification/Ads_Types.thy ===== *)
theory Ads_Types
  imports Ads_Prelude
begin

text \<open>
  The data types and constants of the node: the transaction codes of \<open>helper/txsname.h\<close>, the
  packed structures of \<open>common/default.hpp\<close> and the parameters of a release build
  (\<open>default_ads.h.in\<close> with \<open>DEBUG\<close> unset), from which the build generates \<open>default.h\<close>.
\<close>

section \<open>Transaction codes\<close>

abbreviation (input) TXSTYPE_NON :: u8 where "TXSTYPE_NON \<equiv> 0"
abbreviation (input) TXSTYPE_CON :: u8 where "TXSTYPE_CON \<equiv> 1"
abbreviation (input) TXSTYPE_UOK :: u8 where "TXSTYPE_UOK \<equiv> 2"
abbreviation (input) TXSTYPE_BRO :: u8 where "TXSTYPE_BRO \<equiv> 3"
abbreviation (input) TXSTYPE_PUT :: u8 where "TXSTYPE_PUT \<equiv> 4"
abbreviation (input) TXSTYPE_MPT :: u8 where "TXSTYPE_MPT \<equiv> 5"
abbreviation (input) TXSTYPE_USR :: u8 where "TXSTYPE_USR \<equiv> 6"
abbreviation (input) TXSTYPE_BNK :: u8 where "TXSTYPE_BNK \<equiv> 7"
abbreviation (input) TXSTYPE_GET :: u8 where "TXSTYPE_GET \<equiv> 8"
abbreviation (input) TXSTYPE_KEY :: u8 where "TXSTYPE_KEY \<equiv> 9"
abbreviation (input) TXSTYPE_BKY :: u8 where "TXSTYPE_BKY \<equiv> 10"
abbreviation (input) TXSTYPE_SUS :: u8 where "TXSTYPE_SUS \<equiv> 11"
abbreviation (input) TXSTYPE_SBS :: u8 where "TXSTYPE_SBS \<equiv> 12"
abbreviation (input) TXSTYPE_UUS :: u8 where "TXSTYPE_UUS \<equiv> 13"
abbreviation (input) TXSTYPE_UBS :: u8 where "TXSTYPE_UBS \<equiv> 14"
abbreviation (input) TXSTYPE_SAV :: u8 where "TXSTYPE_SAV \<equiv> 15"
abbreviation (input) TXSTYPE_INF :: u8 where "TXSTYPE_INF \<equiv> 16"
abbreviation (input) TXSTYPE_LOG :: u8 where "TXSTYPE_LOG \<equiv> 17"
abbreviation (input) TXSTYPE_BLG :: u8 where "TXSTYPE_BLG \<equiv> 18"
abbreviation (input) TXSTYPE_BLK :: u8 where "TXSTYPE_BLK \<equiv> 19"
abbreviation (input) TXSTYPE_TXS :: u8 where "TXSTYPE_TXS \<equiv> 20"
abbreviation (input) TXSTYPE_VIP :: u8 where "TXSTYPE_VIP \<equiv> 21"
abbreviation (input) TXSTYPE_SIG :: u8 where "TXSTYPE_SIG \<equiv> 22"
abbreviation (input) TXSTYPE_NDS :: u8 where "TXSTYPE_NDS \<equiv> 23"
abbreviation (input) TXSTYPE_NOD :: u8 where "TXSTYPE_NOD \<equiv> 24"
abbreviation (input) TXSTYPE_MGS :: u8 where "TXSTYPE_MGS \<equiv> 25"
abbreviation (input) TXSTYPE_MSG :: u8 where "TXSTYPE_MSG \<equiv> 26"
abbreviation (input) TXSTYPE_GFI :: u8 where "TXSTYPE_GFI \<equiv> 27"
abbreviation (input) TXSTYPE_MAX :: u8 where "TXSTYPE_MAX \<equiv> 28"

section \<open>Accounts\<close>

text \<open>\<open>user_t\<close>; \<open>csum\<close> is four 64 bit words, combined by \<open>xor4\<close>.\<close>

type_synonym csum4 = "u64 \<times> u64 \<times> u64 \<times> u64"

record user_t =
  u_msid :: u32
  u_time :: u32
  u_pkey :: bytes
  u_hash :: bytes
  u_lpath :: u32
  u_user :: u32
  u_node :: u16
  u_stat :: u16
  u_rpath :: u32
  u_weight :: i64
  u_csum :: csum4

definition zero_user :: user_t where
  "zero_user = \<lparr>u_msid = 0, u_time = 0, u_pkey = replicate 32 0, u_hash = replicate 32 0,
     u_lpath = 0, u_user = 0, u_node = 0, u_stat = 0, u_rpath = 0, u_weight = 0,
     u_csum = (0, 0, 0, 0)\<rparr>"

text \<open>The bytes of \<open>user_t\<close> before \<open>csum\<close>: \<open>sizeof(user_t) - 4 * sizeof(uint64_t)\<close> of them.\<close>

definition user_bytes :: "user_t \<Rightarrow> bytes" where
  "user_bytes u = le_bytes 4 (u_msid u) @ le_bytes 4 (u_time u) @ u_pkey u @ u_hash u @
     le_bytes 4 (u_lpath u) @ le_bytes 4 (u_user u) @ le_bytes 2 (u_node u) @
     le_bytes 2 (u_stat u) @ le_bytes 4 (u_rpath u) @ le_bytes 8 (u_weight u)"

definition csum_bytes :: "csum4 \<Rightarrow> bytes" where
  "csum_bytes c = (case c of (c0, c1, c2, c3) \<Rightarrow>
     le_bytes 8 c0 @ le_bytes 8 c1 @ le_bytes 8 c2 @ le_bytes 8 c3)"

definition csum_of :: "bytes \<Rightarrow> csum4" where
  "csum_of d = (le_word (take 8 d), le_word (take 8 (drop 8 d)),
     le_word (take 8 (drop 16 d)), le_word (take 8 (drop 24 d)))"

definition SIZEOF_USER :: nat where
  "SIZEOF_USER = 4 + 4 + 32 + 32 + 4 + 4 + 2 + 2 + 4 + 8 + 32"

text \<open>A \<open>user_t\<close> as it lies in a file or in a transaction.\<close>

definition user_data :: "user_t \<Rightarrow> bytes" where
  "user_data u = user_bytes u @ csum_bytes (u_csum u)"

definition user_of :: "bytes \<Rightarrow> user_t" where
  "user_of d = \<lparr>u_msid = le_word (take 4 d), u_time = le_word (take 4 (drop 4 d)),
     u_pkey = take 32 (drop 8 d), u_hash = take 32 (drop 40 d), u_lpath = le_word (take 4 (drop 72 d)),
     u_user = le_word (take 4 (drop 76 d)), u_node = le_word (take 2 (drop 80 d)),
     u_stat = le_word (take 2 (drop 82 d)), u_rpath = le_word (take 4 (drop 84 d)),
     u_weight = le_word (take 8 (drop 88 d)), u_csum = csum_of (take 32 (drop 96 d))\<rparr>"

definition user_wf :: "user_t \<Rightarrow> bool" where
  "user_wf u \<longleftrightarrow> length (u_pkey u) = 32 \<and> length (u_hash u) = 32"

lemma csum_of_csum_bytes [simp]: "csum_of (csum_bytes c) = c"
  by (cases c) (simp add: csum_of_def csum_bytes_def)

lemma length_user_bytes:
  "length (u_pkey u) = 32 \<Longrightarrow> length (u_hash u) = 32 \<Longrightarrow>
   length (user_bytes u @ csum_bytes (u_csum u)) = SIZEOF_USER"
  by (cases "u_csum u") (simp add: user_bytes_def csum_bytes_def SIZEOF_USER_def)

lemma length_csum_bytes [simp]: "length (csum_bytes c) = 32"
  by (cases c) (simp add: csum_bytes_def)

lemma length_user_data: "user_wf u \<Longrightarrow> length (user_data u) = SIZEOF_USER"
  by (simp add: user_wf_def user_data_def user_bytes_def SIZEOF_USER_def)

lemma user_of_data: "user_wf u \<Longrightarrow> user_of (user_data u) = u"
  by (simp add: user_of_def user_data_def user_bytes_def user_wf_def)

section \<open>Log entries and queued transactions\<close>

record log_t =
  lg_time :: u32
  lg_type :: u16
  lg_node :: u16
  lg_nmid :: u32
  lg_mpos :: u32
  lg_user :: u32
  lg_umid :: u32
  lg_weight :: i64
  lg_info :: bytes

record get_t =
  g_auser :: u32
  g_buser :: u32
  g_pkey :: bytes

record gup_t =
  gu_auser :: u32
  gu_node :: u16
  gu_user :: u32
  gu_time :: u32
  gu_delta :: i64

text \<open>\<open>sus\<close> is an \<open>int16_t\<close> and \<open>uus\<close> a \<open>uint16_t\<close>; both are only combined bitwise.\<close>

record dsu_t =
  ds_deposit :: u64
  ds_sus :: u16
  ds_uus :: u16

record usr_t =
  us_auser :: u32
  us_bbank :: u16
  us_pkey :: bytes

record uok_t =
  uo_auser :: u32
  uo_bbank :: u16
  uo_buser :: u32
  uo_pkey :: bytes

section \<open>Build parameters\<close>

abbreviation (input) BLOCKSEC :: "'a::numeral" where "BLOCKSEC \<equiv> 512"
abbreviation (input) BLOCKDIV :: "'a::numeral" where "BLOCKDIV \<equiv> 2048"

definition TOTALMASS :: int where "TOTALMASS = 3875820600000000000"
definition VIP_MAX :: nat where "VIP_MAX = 31"
definition LOCK_TIME :: u32 where "LOCK_TIME = BLOCKDIV * BLOCKSEC"
definition USER_MIN_AGE :: int where "USER_MIN_AGE = BLOCKSEC * 10000"
definition BANK_MIN_MTIME :: int where "BANK_MIN_MTIME = BLOCKSEC * 1000"
definition ACCOUNT_INACTIVE_AGE :: u32 where "ACCOUNT_INACTIVE_AGE = 365 * 24 * 3600"
definition ACCOUNT_DORMANT_AGE :: u32 where "ACCOUNT_DORMANT_AGE = 2 * 365 * 24 * 3600"
definition SHARED_PROFIT_NODES :: nat where "SHARED_PROFIT_NODES = 100"
definition BANK_MAX :: nat where "BANK_MAX = 65535"
definition MAX_BROADCAST_LENGTH :: u16 where "MAX_BROADCAST_LENGTH = 32000"

definition TXS_MIN_FEE :: i64 where "TXS_MIN_FEE = 10000"
definition TXS_DIV_FEE :: i64 where "TXS_DIV_FEE = 20000000"
definition TXS_KEY_FEE :: i64 where "TXS_KEY_FEE = 10000000"
definition TXS_GET_FEE :: i64 where "TXS_GET_FEE = 1000000"
definition TXS_USR_FEE :: i64 where "TXS_USR_FEE = 100000000"
definition TXS_RUS_FEE :: i64 where "TXS_RUS_FEE = 100000000"
definition TXS_SUS_FEE :: i64 where "TXS_SUS_FEE = 10000000"
definition TXS_SBS_FEE :: i64 where "TXS_SBS_FEE = 10000000"
definition TXS_UUS_FEE :: i64 where "TXS_UUS_FEE = 10000000"
definition TXS_UBS_FEE :: i64 where "TXS_UBS_FEE = 10000000"
definition TXS_SAV_FEE :: i64 where "TXS_SAV_FEE = 10000000"
definition TXS_BNK_FEE :: i64 where "TXS_BNK_FEE = 100000000000000"
definition TXS_BKY_FEE :: i64 where "TXS_BKY_FEE = 10000000000"
definition USER_MIN_MASS :: i64 where "USER_MIN_MASS = 20000000"
definition BANK_MIN_UMASS :: i64 where "BANK_MIN_UMASS = 100000000000"
definition BANK_MIN_TMASS :: i64 where "BANK_MIN_TMASS = 0"

definition TXS_BRO_FEE :: "u16 \<Rightarrow> i64" where
  "TXS_BRO_FEE x = (if x < 32 then TXS_MIN_FEE else TXS_MIN_FEE + 1000 * (ucast x - 32))"
definition TXS_PUT_FEE :: "i64 \<Rightarrow> i64" where "TXS_PUT_FEE x = sdiv64 x 2000"
definition TXS_LNG_FEE :: "i64 \<Rightarrow> i64" where "TXS_LNG_FEE x = sdiv64 x 2000"
definition TXS_MPT_FEE :: "i64 \<Rightarrow> i64" where "TXS_MPT_FEE x = sdiv64 x 2000"
definition TXS_MINMPT_FEE :: "u16 \<Rightarrow> i64" where
  "TXS_MINMPT_FEE n = (if n < 10 then 10000 else 1000 * ucast n)"
definition TXS_GOK_FEE :: "i64 \<Rightarrow> i64" where "TXS_GOK_FEE x = sdiv64 x 1000"
definition BANK_PROFIT :: "i64 \<Rightarrow> i64" where "BANK_PROFIT x = sdiv64 x 5"
definition BANK_USER_FEE :: "u32 \<Rightarrow> i64" where "BANK_USER_FEE x = 1000 * ucast x"
definition MESSAGE_FEE :: "u32 \<Rightarrow> i64" where "MESSAGE_FEE x = 4096 + ucast x"
definition SHARED_PROFIT :: "i64 \<Rightarrow> i64" where "SHARED_PROFIT x = sdiv64 x 5 * 2"

text \<open>\<open>SERVER_*\<close> bits of a node status and the \<open>USER_STAT_DELETED\<close> bit of an account status.\<close>

abbreviation (input) SERVER_DBL :: u32 where "SERVER_DBL \<equiv> 1"
abbreviation (input) SERVER_VIP :: u32 where "SERVER_VIP \<equiv> 2"
abbreviation (input) SERVER_UNO :: u32 where "SERVER_UNO \<equiv> 4"
abbreviation (input) SERVER_FST :: u32 where "SERVER_FST \<equiv> 0x80000000"
abbreviation (input) TXSTYPE_FEE :: u16 where "TXSTYPE_FEE \<equiv> 17"
abbreviation (input) USER_STAT_DELETED :: u16 where "USER_STAT_DELETED \<equiv> 1"

end
