(* ===== verification/Usertxs.thy ===== *)
theory Usertxs
  imports Ads_Types
begin

text \<open>
  The transaction codec, \<open>class usertxs\<close> of \<open>common/user.hpp\<close>: the constructor that lays a
  transaction out in a freshly allocated buffer, \<open>parse\<close>, \<open>get_size\<close>, \<open>get_sig\<close>, \<open>sign_mlen2\<close> and
  the accessors.  The buffer a pointer argument points into is the list of the bytes from the
  pointer to the end of its allocation; \<open>None\<close> is a read or write outside of it.  The contents of
  fresh \<open>malloc\<close> memory are the parameter \<open>fill\<close>.
\<close>

section \<open>Layout\<close>

text \<open>
  \<open>txslen[TXSTYPE_MAX+1]\<close> has 28 initialisers for its 29 elements, so the last one, meant to hold
  the largest fixed size, is 0.
\<close>

definition txslen :: "nat list" where
  "txslen =
    [1+3,
     1+2+4+16,
     1+2+4+4+4+2+4+32,
     1+2+4+4+4+2,
     1+2+4+4+4+2+4+8+32,
     1+2+4+4+4+2,
     1+2+4+4+4+2,
     1+2+4+4+4,
     1+2+4+4+4+2+4,
     1+2+4+4+4+32,
     1+2+4+4+4+2+32,
     1+2+4+4+4+2+4+2,
     1+2+4+4+4+2+4,
     1+2+4+4+4+2+4+2,
     1+2+4+4+4+2+4,
     1+2+4+4+4,
     1+2+4+2+4+4,
     1+2+4+2+4+4,
     1+2+4+4+4,
     1+2+4+4+4+4,
     1+2+4+4+4+4+2,
     1+2+4+4+32,
     1+2+4+4+4,
     1+2+4+4+4,
     1+2+4+4+4+2,
     1+2+4+4+4,
     1+2+4+4+4+2+4,
     1+2+4+4+4+2+4+8+32,
     0]"

definition txlen :: "u8 \<Rightarrow> nat" where
  "txlen ty = txslen ! unat ty"

record usertxs =
  ttype :: u8
  abank :: u16
  auser :: u32
  amsid :: u32
  ttime :: u32
  bbank :: u16
  buser :: u32
  tmass :: i64
  tinfo :: bytes
  txdata :: "bytes option"
  txsize :: int

text \<open>The default constructor; it leaves \<open>size\<close> uninitialised, here the parameter.\<close>

definition usertxs0 :: "int \<Rightarrow> usertxs" where
  "usertxs0 sz = \<lparr>ttype = TXSTYPE_MAX, abank = 0, auser = 0, amsid = 0, ttime = 0, bbank = 0,
     buser = 0, tmass = 0, tinfo = replicate 32 0, txdata = None, txsize = sz\<rparr>"

section \<open>The constructor from fields\<close>







section \<open>Parsing\<close>

text \<open>\<open>*txs\<close> as the plain \<open>char\<close> that \<open>get_size\<close> compares: signed on this platform.\<close>

definition schar :: "bytes \<Rightarrow> int option" where
  "schar buf = map_option sint (rdw 0 1 buf :: u8 option)"

definition ld_abank :: "nat \<Rightarrow> bytes \<Rightarrow> usertxs \<Rightarrow> usertxs option" where
  "ld_abank off buf t = map_option (\<lambda>v. t\<lparr>abank := v\<rparr>) (rdw off 2 buf)"
definition ld_auser :: "nat \<Rightarrow> bytes \<Rightarrow> usertxs \<Rightarrow> usertxs option" where
  "ld_auser off buf t = map_option (\<lambda>v. t\<lparr>auser := v\<rparr>) (rdw off 4 buf)"
definition ld_amsid :: "nat \<Rightarrow> bytes \<Rightarrow> usertxs \<Rightarrow> usertxs option" where
  "ld_amsid off buf t = map_option (\<lambda>v. t\<lparr>amsid := v\<rparr>) (rdw off 4 buf)"
definition ld_ttime :: "nat \<Rightarrow> bytes \<Rightarrow> usertxs \<Rightarrow> usertxs option" where
  "ld_ttime off buf t = map_option (\<lambda>v. t\<lparr>ttime := v\<rparr>) (rdw off 4 buf)"
definition ld_bbank :: "nat \<Rightarrow> bytes \<Rightarrow> usertxs \<Rightarrow> usertxs option" where
  "ld_bbank off buf t = map_option (\<lambda>v. t\<lparr>bbank := v\<rparr>) (rdw off 2 buf)"
definition ld_buser :: "nat \<Rightarrow> bytes \<Rightarrow> usertxs \<Rightarrow> usertxs option" where
  "ld_buser off buf t = map_option (\<lambda>v. t\<lparr>buser := v\<rparr>) (rdw off 4 buf)"
definition ld_tinfo :: "nat \<Rightarrow> bytes \<Rightarrow> usertxs \<Rightarrow> usertxs option" where
  "ld_tinfo off buf t = map_option (\<lambda>v. t\<lparr>tinfo := v\<rparr>) (rd off 32 buf)"

text \<open>\<open>memcpy(&tmass, p, n)\<close> replaces the low \<open>n\<close> bytes of \<open>tmass\<close> only.\<close>

definition ld_tmass :: "nat \<Rightarrow> nat \<Rightarrow> bytes \<Rightarrow> usertxs \<Rightarrow> usertxs option" where
  "ld_tmass off n buf t =
     map_option (\<lambda>bs. t\<lparr>tmass := le_word (bs @ drop n (le_bytes 8 (tmass t)))\<rparr>) (rd off n buf)"

lemmas ld_defs = ld_abank_def ld_auser_def ld_amsid_def ld_ttime_def ld_bbank_def ld_buser_def
  ld_tinfo_def ld_tmass_def

text \<open>The other constructors; \<open>uninit\<close> is the object memory whose fields they do not set.\<close>

definition make_usertxs_non :: "(nat \<Rightarrow> u8) \<Rightarrow> u32 \<Rightarrow> usertxs option" where
  "make_usertxs_non fill len =
    (let sz = unat (if len < 4 then 4 else len AND 0xFFFFFF);
         t = (usertxs0 (int sz))\<lparr>ttype := TXSTYPE_NON\<rparr> in
     do {
       buf \<leftarrow> wrs [(0, [TXSTYPE_NON]), (1, nat_le 3 sz)] (map fill [0..<sz]);
       buf \<leftarrow> (if sz > 4 then wr 4 (replicate (sz - 4) 0) buf else Some buf);
       Some (t\<lparr>txdata := Some buf\<rparr>)
     })"

definition make_usertxs_raw :: "usertxs \<Rightarrow> bytes \<Rightarrow> nat \<Rightarrow> usertxs option" where
  "make_usertxs_raw uninit din len =
    do {
      ty \<leftarrow> rdw 0 1 din;
      d \<leftarrow> rd 0 len din;
      t \<leftarrow> ld_abank 1 d (uninit\<lparr>ttype := ty, bbank := 0, buser := 0\<rparr>);
      t \<leftarrow> ld_auser 3 d t;
      Some (t\<lparr>txdata := Some d, txsize := int len\<rparr>)
    }"

definition make_usertxs_inf ::
  "(nat \<Rightarrow> u8) \<Rightarrow> i64 \<Rightarrow> u16 \<Rightarrow> u32 \<Rightarrow> u16 \<Rightarrow> u32 \<Rightarrow> u32 \<Rightarrow> usertxs option" where
  "make_usertxs_inf fill mass nabank nauser nbbank nbuser nttime =
    (let sz = txlen TXSTYPE_INF + 64;
         t = (usertxs0 (int sz))\<lparr>ttype := TXSTYPE_INF, abank := nabank, auser := nauser,
               ttime := nttime, bbank := nbbank, buser := nbuser, tmass := mass\<rparr> in
     map_option (\<lambda>buf. t\<lparr>txdata := Some buf\<rparr>)
       (wrs [(0, [TXSTYPE_INF]), (1, le_bytes 2 nabank), (3, le_bytes 4 nauser),
             (7, le_bytes 2 nbbank), (9, le_bytes 4 nbuser), (13, le_bytes 4 nttime)]
         (map fill [0..<sz])))"

definition make_usertxs_req ::
  "(nat \<Rightarrow> u8) \<Rightarrow> usertxs \<Rightarrow> u8 \<Rightarrow> u16 \<Rightarrow> u32 \<Rightarrow> u32 \<Rightarrow> usertxs option" where
  "make_usertxs_req fill uninit nttype nabank nauser nttime =
    (let t = uninit\<lparr>ttype := nttype, abank := nabank, auser := nauser, amsid := 0,
               ttime := nttime, tinfo := replicate 32 0, txdata := None\<rparr>;
         hd = [(0, [nttype]), (1, le_bytes 2 nabank), (3, le_bytes 4 nauser)];
         fin = (\<lambda>sz ws. map_option (\<lambda>buf. t\<lparr>txdata := Some buf, txsize := int sz\<rparr>)
                          (wrs ws (map fill [0..<sz]))) in
     if nttype = TXSTYPE_CON then fin (txlen TXSTYPE_CON) hd
     else if nttype = TXSTYPE_BLG then
       fin (txlen TXSTYPE_BLG + 64) (hd @ [(7, le_bytes 4 nttime)])
     else if nttype = TXSTYPE_LOG then
       fin (txlen TXSTYPE_LOG + 64)
         (hd @ [(7, le_bytes 2 nabank), (9, le_bytes 4 nauser), (13, le_bytes 4 nttime)])
     else Some t)"

definition make_usertxs_con ::
  "(nat \<Rightarrow> u8) \<Rightarrow> usertxs \<Rightarrow> u8 \<Rightarrow> u16 \<Rightarrow> u32 \<Rightarrow> bytes \<Rightarrow> usertxs option" where
  "make_usertxs_con fill uninit nttype nabank nauser version =
    (let t = uninit\<lparr>ttype := nttype, abank := nabank, auser := nauser, amsid := 0,
               ttime := 0, tinfo := replicate 32 0, txdata := None\<rparr> in
     if nttype = TXSTYPE_CON then
       do {
         v \<leftarrow> rd 0 16 version;
         buf \<leftarrow> wrs [(0, [nttype]), (1, le_bytes 2 nabank), (3, le_bytes 4 nauser), (7, v)]
                 (map fill [0..<txlen TXSTYPE_CON]);
         Some (t\<lparr>txdata := Some buf, txsize := int (txlen TXSTYPE_CON)\<rparr>)
       }
     else Some t)"

text \<open>The two header orders of \<open>parse\<close>.\<close>

definition parse_req :: "bytes \<Rightarrow> usertxs \<Rightarrow> usertxs option" where
  "parse_req buf t =
     do { t \<leftarrow> ld_abank 1 buf t; t \<leftarrow> ld_auser 3 buf t; t \<leftarrow> ld_ttime 7 buf t; ld_amsid 11 buf t }"

definition parse_sig :: "bytes \<Rightarrow> usertxs \<Rightarrow> usertxs option" where
  "parse_sig buf t =
     do { t \<leftarrow> ld_abank 1 buf t; t \<leftarrow> ld_auser 3 buf t; t \<leftarrow> ld_amsid 7 buf t; ld_ttime 11 buf t }"

text \<open>
  The part of \<open>parse\<close> from the comment \<open>TODO process other transactions as above\<close> on; \<open>parse_var\<close>
  is what follows the copy of \<open>bbank\<close>.
\<close>

definition parse_var :: "bytes \<Rightarrow> usertxs \<Rightarrow> usertxs option" where
  "parse_var buf t =
    (let ty = ttype t in
     if ty = TXSTYPE_GET then ld_buser 17 buf t
     else if ty = TXSTYPE_UOK then
       do { t \<leftarrow> ld_buser 17 buf t; Some (t\<lparr>txsize := int (txlen TXSTYPE_UOK)\<rparr>) }
     else if ty = TXSTYPE_PUT then
       do { t \<leftarrow> ld_buser 17 buf t; t \<leftarrow> ld_tmass 21 8 buf t; ld_tinfo 29 buf t }
     else if ty = TXSTYPE_BKY then Some (t\<lparr>txsize := txsize t + 32\<rparr>)
     else if ty = TXSTYPE_USR then Some (t\<lparr>txsize := txsize t + (4+32)\<rparr>)
     else if ty = TXSTYPE_BRO then Some (t\<lparr>txsize := txsize t + uint (bbank t)\<rparr>)
     else if ty = TXSTYPE_MPT then Some (t\<lparr>txsize := txsize t + uint (bbank t) * (6+8)\<rparr>)
     else Some t)"

definition parse_tail :: "bytes \<Rightarrow> usertxs \<Rightarrow> usertxs option" where
  "parse_tail buf t =
    (let ty = ttype t in
     do {
       t \<leftarrow> ld_abank 1 buf t; t \<leftarrow> ld_auser 3 buf t;
       if ty = TXSTYPE_CON then Some (t\<lparr>txsize := int (txlen TXSTYPE_CON)\<rparr>)
       else if ty = TXSTYPE_BLG then ld_ttime 7 buf t
       else if ty = TXSTYPE_INF \<or> ty = TXSTYPE_LOG then
         do { t \<leftarrow> ld_bbank 7 buf t; t \<leftarrow> ld_buser 9 buf t; ld_ttime 13 buf t }
       else
         do { t \<leftarrow> ld_amsid 7 buf t; t \<leftarrow> ld_ttime 11 buf t; t \<leftarrow> ld_bbank 15 buf t; parse_var buf t }
     })"

definition parse_body :: "bytes \<Rightarrow> usertxs \<Rightarrow> usertxs option" where
  "parse_body buf t =
    (let ty = ttype t in
     if ty = TXSTYPE_NON then
       map_option (\<lambda>bs. t\<lparr>txsize := (if le_nat bs < 4 then 4 else int (le_nat bs))\<rparr>) (rd 1 3 buf)
     else if ty = TXSTYPE_SAV then
       do { t \<leftarrow> parse_sig buf t; Some (t\<lparr>txsize := int (txlen ty + 64 + SIZEOF_USER)\<rparr>) }
     else
       (let t = t\<lparr>txsize := int (txlen ty + 64)\<rparr> in
        if ty = TXSTYPE_BLK then do { t \<leftarrow> parse_req buf t; ld_buser 15 buf t }
        else if ty = TXSTYPE_TXS then
          do { t \<leftarrow> parse_req buf t; t \<leftarrow> ld_buser 15 buf t; ld_bbank 19 buf t }
        else if ty = TXSTYPE_VIP then
          do { t \<leftarrow> ld_abank 1 buf t; t \<leftarrow> ld_auser 3 buf t; t \<leftarrow> ld_ttime 7 buf t; ld_tinfo 11 buf t }
        else if ty = TXSTYPE_SIG \<or> ty = TXSTYPE_NDS \<or> ty = TXSTYPE_MGS then parse_req buf t
        else if ty = TXSTYPE_NOD then do { t \<leftarrow> parse_req buf t; ld_bbank 15 buf t }
        else if ty = TXSTYPE_MSG then
          do { t \<leftarrow> parse_req buf t; t \<leftarrow> ld_bbank 15 buf t; ld_buser 17 buf t }
        else if ty = TXSTYPE_SUS \<or> ty = TXSTYPE_UUS then
          do { t \<leftarrow> parse_sig buf t; t \<leftarrow> ld_bbank 15 buf t; t \<leftarrow> ld_buser 17 buf t; ld_tmass 21 2 buf t }
        else if ty = TXSTYPE_SBS \<or> ty = TXSTYPE_UBS then
          do { t \<leftarrow> parse_sig buf t; t \<leftarrow> ld_bbank 15 buf t; ld_tmass 17 4 buf t }
        else parse_tail buf t))"

definition parse :: "usertxs \<Rightarrow> bytes \<Rightarrow> (bool \<times> usertxs) option" where
  "parse t buf =
    do {
      ty \<leftarrow> rdw 0 1 buf;
      let t = t\<lparr>ttype := ty\<rparr>;
      if ty \<ge> TXSTYPE_MAX then Some (False, t)
      else map_option (Pair True) (parse_body buf t)
    }"

text \<open>
  \<open>get_size\<close>: the guard against unknown codes compares a signed \<open>char\<close>, so a code of 128 or more
  passes it and indexes \<open>txslen\<close> before its start.
\<close>

definition get_size :: "bytes \<Rightarrow> u32 option" where
  "get_size buf =
    do {
      c \<leftarrow> schar buf;
      if c \<ge> 28 then Some 0xFFFFFFFF
      else if c = 1 then Some (of_nat (txlen TXSTYPE_CON))
      else if c = 2 then Some (of_nat (txlen TXSTYPE_UOK))
      else if c = 10 then Some (of_nat (txlen TXSTYPE_BKY + 64 + 32))
      else if c = 6 then Some (of_nat (txlen TXSTYPE_USR + 64 + 4 + 32))
      else if c = 3 then
        do { l \<leftarrow> rdw 15 2 buf; Some (of_nat (txlen TXSTYPE_BRO + 64 + unat (l :: u16))) }
      else if c = 5 then
        do { l \<leftarrow> rdw 15 2 buf; Some (of_nat (txlen TXSTYPE_MPT + 64 + unat (l :: u16) * (6+8))) }
      else if c = 0 then
        do { bs \<leftarrow> rd 1 3 buf; Some (if le_nat bs < 4 then 4 else of_nat (le_nat bs)) }
      else if c = 15 then Some (of_nat (txlen TXSTYPE_SAV + 64 + SIZEOF_USER))
      else if c < 0 then None
      else Some (of_nat (txslen ! nat c + 64))
    }"

section \<open>Signature and payload positions\<close>

definition get_sig :: "usertxs \<Rightarrow> u8 \<Rightarrow> nat" where
  "get_sig t ty =
    (if ty = TXSTYPE_BRO then txlen TXSTYPE_BRO + unat (bbank t)
     else if ty = TXSTYPE_MPT then txlen TXSTYPE_MPT + unat (bbank t) * (6+8)
     else txlen ty)"

definition sign_mlen2 :: "usertxs \<Rightarrow> nat" where
  "sign_mlen2 t =
    (if ttype t = TXSTYPE_BRO then txlen TXSTYPE_BRO + unat (bbank t)
     else if ttype t = TXSTYPE_MPT then txlen TXSTYPE_MPT + unat (bbank t) * (6+8)
     else txlen (ttype t))"

definition usr_off :: nat where "usr_off = 1+2+4+4+4+64"
definition vip_off :: nat where "vip_off = 1+2+4+4"
definition key_off :: "u8 \<Rightarrow> nat" where
  "key_off ty = (if ty = TXSTYPE_BKY then 1+2+4+4+4+2 else 1+2+4+4+4)"
definition opkey_off :: nat where "opkey_off = 1+2+4+4+4+2+32+64"
definition upkey_off :: nat where "upkey_off = 1+2+4+4+4+2+4"
definition toaddresses_off :: nat where "toaddresses_off = 1+2+4+4+4+2"
definition nuser_off :: nat where "nuser_off = 1+2+4+4+4+2+64"
definition npkey_off :: nat where "npkey_off = 1+2+4+4+4+2+64+4"

section \<open>Lemmas\<close>

lemma u8_below_28:
  "(ty :: u8) < 28 \<Longrightarrow> ty \<in> {0,1,2,3,4,5,6,7,8,9,10,11,12,13,14,15,16,17,18,19,20,21,22,23,24,25,26,27}"
proof -
  assume "ty < 28"
  then have "unat ty \<in> set [0..<28]" by (simp add: word_less_nat_alt)
  then have "of_nat (unat ty) \<in> (of_nat ` set [0..<28] :: u8 set)" by blast
  then show ?thesis by (simp add: upt_rec)
qed

lemma txlen_simps [simp]:
  "txlen 0 = 4" "txlen 1 = 23" "txlen 2 = 53" "txlen 3 = 17" "txlen 4 = 61" "txlen 5 = 17"
  "txlen 6 = 17" "txlen 7 = 15" "txlen 8 = 21" "txlen 9 = 47" "txlen 10 = 49" "txlen 11 = 23"
  "txlen 12 = 21" "txlen 13 = 23" "txlen 14 = 21" "txlen 15 = 15" "txlen 16 = 17" "txlen 17 = 17"
  "txlen 18 = 15" "txlen 19 = 19" "txlen 20 = 21" "txlen 21 = 43" "txlen 22 = 15" "txlen 23 = 15"
  "txlen 24 = 17" "txlen 25 = 15" "txlen 26 = 21" "txlen 27 = 61"
  by (simp_all add: txlen_def txslen_def)

definition wire_size :: "usertxs \<Rightarrow> nat" where
  "wire_size t =
    (let ty = ttype t; len = txlen ty in
     if ty = TXSTYPE_CON \<or> ty = TXSTYPE_UOK then len
     else if ty = TXSTYPE_BKY then len + 64 + 32
     else if ty = TXSTYPE_USR then len + 64 + 4 + 32
     else if ty = TXSTYPE_BRO then len + 64 + unat (bbank t)
     else if ty = TXSTYPE_MPT then len + 64 + unat (bbank t) * 14
     else if ty = TXSTYPE_SAV then len + 64 + SIZEOF_USER
     else len + 64)"






lemmas parse_defs = parse_def parse_body_def parse_tail_def parse_var_def parse_req_def parse_sig_def ld_defs rdw_def

lemma schar_code: "rdw 0 1 buf = Some (ty :: u8) \<Longrightarrow> schar buf = Some (sint ty)"
  by (simp add: schar_def)


lemma ld_keeps:
  "ld_abank off buf t = Some t' \<Longrightarrow> ttype t' = ttype t \<and> txsize t' = txsize t \<and> bbank t' = bbank t"
  "ld_auser off buf t = Some t' \<Longrightarrow> ttype t' = ttype t \<and> txsize t' = txsize t \<and> bbank t' = bbank t"
  "ld_amsid off buf t = Some t' \<Longrightarrow> ttype t' = ttype t \<and> txsize t' = txsize t \<and> bbank t' = bbank t"
  "ld_ttime off buf t = Some t' \<Longrightarrow> ttype t' = ttype t \<and> txsize t' = txsize t \<and> bbank t' = bbank t"
  "ld_buser off buf t = Some t' \<Longrightarrow> ttype t' = ttype t \<and> txsize t' = txsize t \<and> bbank t' = bbank t"
  "ld_tinfo off buf t = Some t' \<Longrightarrow> ttype t' = ttype t \<and> txsize t' = txsize t \<and> bbank t' = bbank t"
  "ld_tmass off n buf t = Some t' \<Longrightarrow> ttype t' = ttype t \<and> txsize t' = txsize t \<and> bbank t' = bbank t"
  "ld_bbank off buf t = Some t' \<Longrightarrow>
     ttype t' = ttype t \<and> txsize t' = txsize t \<and> rdw off 2 buf = Some (bbank t')"
  by (auto simp: ld_defs)

lemma parse_req_keeps: "parse_req buf t = Some t' \<Longrightarrow> ttype t' = ttype t \<and> txsize t' = txsize t"
  by (auto simp: parse_req_def bind_eq_Some_conv dest!: ld_keeps)

lemma parse_sig_keeps: "parse_sig buf t = Some t' \<Longrightarrow> ttype t' = ttype t \<and> txsize t' = txsize t"
  by (auto simp: parse_sig_def bind_eq_Some_conv dest!: ld_keeps)

lemma parse_var_size:
  assumes "parse_var buf t = Some t'" and "txsize t = int (txlen (ttype t) + 64)"
    and "ttype t \<noteq> TXSTYPE_SAV" "ttype t \<noteq> TXSTYPE_CON"
  shows "ttype t' = ttype t \<and> txsize t' = int (wire_size t') \<and> bbank t' = bbank t"
proof (cases "ttype t \<in> {TXSTYPE_GET, TXSTYPE_UOK, TXSTYPE_PUT}")
  case True
  then show ?thesis
    using assms(1,2)
    by (elim insertE emptyE)
      (auto simp: parse_var_def bind_eq_Some_conv wire_size_def dest!: ld_keeps)
next
  case False
  then show ?thesis
    using assms by (auto simp: parse_var_def wire_size_def Let_def split: if_splits)
qed

lemma parse_tail_size:
  assumes "parse_tail buf t = Some t'" and "txsize t = int (txlen (ttype t) + 64)"
    and "ttype t \<noteq> TXSTYPE_SAV"
  shows "ttype t' = ttype t \<and> txsize t' = int (wire_size t') \<and>
     (ttype t \<in> {TXSTYPE_BRO, TXSTYPE_MPT} \<longrightarrow> rdw 15 2 buf = Some (bbank t'))"
proof (cases "ttype t \<in> {TXSTYPE_CON, TXSTYPE_BLG, TXSTYPE_INF, TXSTYPE_LOG}")
  case True
  then show ?thesis
    using assms(1,2)
    by (elim insertE emptyE)
      (auto simp: parse_tail_def bind_eq_Some_conv wire_size_def dest!: ld_keeps)
next
  case False
  then obtain t1 t2 t3 t4 t5 where
    ld: "ld_abank 1 buf t = Some t1" "ld_auser 3 buf t1 = Some t2" "ld_amsid 7 buf t2 = Some t3"
    "ld_ttime 11 buf t3 = Some t4" "ld_bbank 15 buf t4 = Some t5" and
    r: "parse_var buf t5 = Some t'"
    using assms(1) by (auto simp: parse_tail_def bind_eq_Some_conv)
  note k = ld_keeps(1) [OF ld(1)] ld_keeps(2) [OF ld(2)] ld_keeps(3) [OF ld(3)]
    ld_keeps(4) [OF ld(4)] ld_keeps(8) [OF ld(5)]
  from parse_var_size [OF r] k assms(2,3) False show ?thesis by simp
qed

lemma parse_body_size:
  assumes "parse_body buf t = Some t'" and "ttype t \<noteq> TXSTYPE_NON"
  shows "ttype t' = ttype t \<and> txsize t' = int (wire_size t') \<and>
     (ttype t \<in> {TXSTYPE_BRO, TXSTYPE_MPT} \<longrightarrow> rdw 15 2 buf = Some (bbank t'))"
proof -
  let ?t = "t\<lparr>txsize := int (txlen (ttype t) + 64)\<rparr>"
  let ?S = "{TXSTYPE_BLK, TXSTYPE_TXS, TXSTYPE_VIP, TXSTYPE_SIG, TXSTYPE_NDS, TXSTYPE_MGS,
        TXSTYPE_NOD, TXSTYPE_MSG, TXSTYPE_SUS, TXSTYPE_UUS, TXSTYPE_SBS, TXSTYPE_UBS}"
  show ?thesis
  proof (cases "ttype t = TXSTYPE_SAV")
    case True
    with assms(1) show ?thesis
      by (auto simp: parse_body_def Let_def wire_size_def bind_eq_Some_conv dest!: parse_sig_keeps)
  next
    case False
    show ?thesis
    proof (cases "ttype t \<in> ?S")
      case True
      then show ?thesis
        using assms(1)
        apply (elim insertE emptyE)
        apply (simp_all add: parse_body_def Let_def wire_size_def bind_eq_Some_conv)
        apply (fastforce dest!: parse_sig_keeps parse_req_keeps ld_keeps)+
        done
    next
      case rest: False
      then have "parse_body buf t = parse_tail buf ?t"
        using False assms(2) by (simp add: parse_body_def Let_def)
      with assms(1) False parse_tail_size [of buf ?t t'] show ?thesis by simp
    qed
  qed
qed

lemma get_size_wire:
  assumes "rdw 0 1 buf = Some (ttype t)" and "ttype t < TXSTYPE_MAX" and "ttype t \<noteq> TXSTYPE_NON"
    and "ttype t \<in> {TXSTYPE_BRO, TXSTYPE_MPT} \<longrightarrow> rdw 15 2 buf = Some (bbank t)"
  shows "get_size buf = Some (of_nat (wire_size t))"
  using u8_below_28 [OF assms(2)] assms(1,3,4) schar_code [OF assms(1)]
  by (elim insertE emptyE) (simp_all add: get_size_def wire_size_def txslen_def)

lemma parse_size:
  assumes "parse t0 buf = Some (True, t)"
  shows "get_size buf = Some (of_int (txsize t))" and "4 \<le> txsize t" and "txsize t < 2 ^ 24"
    and "ttype t < TXSTYPE_MAX" and "rdw 0 1 buf = Some (ttype t)"
proof -
  obtain ty where ty: "rdw 0 1 buf = Some (ty :: u8)" and lt: "ty < TXSTYPE_MAX"
    and b: "parse_body buf (t0\<lparr>ttype := ty\<rparr>) = Some t"
    using assms by (auto simp: parse_def Let_def bind_eq_Some_conv split: if_splits)
  have "get_size buf = Some (of_int (txsize t)) \<and> 4 \<le> txsize t \<and> txsize t < 2 ^ 24 \<and> ttype t = ty"
  proof (cases "ty = TXSTYPE_NON")
    case True
    then obtain bs where bs: "rd 1 3 buf = Some bs" and t: "ttype t = ty"
      and sz: "txsize t = (if le_nat bs < 4 then 4 else int (le_nat bs))"
      using b by (auto simp: parse_body_def)
    have "le_nat bs < 2 ^ 24" using le_nat_bound [of bs] rd_length [OF bs] by simp
    then show ?thesis using True bs t sz schar_code [OF ty] by (simp add: get_size_def)
  next
    case False
    from parse_body_size [OF b] False have t: "ttype t = ty" "txsize t = int (wire_size t)"
      "ty \<in> {TXSTYPE_BRO, TXSTYPE_MPT} \<longrightarrow> rdw 15 2 buf = Some (bbank t)" by auto
    have "unat (bbank t) < 2 ^ 16" using unsigned_less [of "bbank t", where ?'a = nat] by simp
    moreover have "4 \<le> wire_size t" "wire_size t < 18000 + 14 * 2 ^ 16"
      using u8_below_28 [OF lt] t(1) \<open>unat (bbank t) < 2 ^ 16\<close> False
      by (elim insertE emptyE; simp add: wire_size_def SIZEOF_USER_def)+
    ultimately show ?thesis using get_size_wire [of buf t] ty lt False t by simp
  qed
  with lt ty show "get_size buf = Some (of_int (txsize t))" and "4 \<le> txsize t" and "txsize t < 2 ^ 24"
    and "ttype t < TXSTYPE_MAX" and "rdw 0 1 buf = Some (ttype t)" by auto
qed


lemma malloc_fields:
  assumes "\<forall>(off, bs) \<in> set ws. off + length bs \<le> sz" and "ascending ws"
  obtains buf where "wrs ws (map fill [0..<sz]) = Some buf"
    "\<forall>w \<in> set ws. rd (fst w) (length (snd w)) buf = Some (snd w)"
proof -
  have "\<exists>buf. wrs ws (map fill [0..<sz]) = Some buf" using assms(1) by (simp add: wrs_Some_iff)
  then show thesis using that wrs_fields assms(2) by blast
qed

section \<open>Properties of the codec\<close>



text \<open>
  C9: The client requests \<open>INF\<close>, \<open>LOG\<close> and \<open>BLG\<close>, built by their own constructors, are read back by
  \<open>parse\<close> with all their fields, for every content of the memory the constructor leaves unset.
\<close>

theorem parse_make_client:
  "map_option (\<lambda>t. map_option (parse (usertxs0 sz)) (txdata t)) (make_usertxs_inf fill ms ab au bb bu tm) =
     Some (Some (Some (True, (usertxs0 81)\<lparr>ttype := TXSTYPE_INF, abank := ab, auser := au,
       bbank := bb, buser := bu, ttime := tm\<rparr>))) \<and>
   map_option (\<lambda>t. map_option (parse (usertxs0 sz)) (txdata t)) (make_usertxs_req fill un TXSTYPE_LOG ab au tm) =
     Some (Some (Some (True, (usertxs0 81)\<lparr>ttype := TXSTYPE_LOG, abank := ab, auser := au,
       bbank := ab, buser := au, ttime := tm\<rparr>))) \<and>
   map_option (\<lambda>t. map_option (parse (usertxs0 sz)) (txdata t)) (make_usertxs_req fill un TXSTYPE_BLG ab au tm) =
     Some (Some (Some (True, (usertxs0 79)\<lparr>ttype := TXSTYPE_BLG, abank := ab, auser := au, ttime := tm\<rparr>)))"
proof -
  let ?i = "[(0, [TXSTYPE_INF]), (1, le_bytes 2 ab), (3, le_bytes 4 au),
             (7, le_bytes 2 bb), (9, le_bytes 4 bu), (13, le_bytes 4 tm)]"
  let ?l = "[(0, [TXSTYPE_LOG]), (1, le_bytes 2 ab), (3, le_bytes 4 au),
             (7, le_bytes 2 ab), (9, le_bytes 4 au), (13, le_bytes 4 tm)]"
  let ?b = "[(0, [TXSTYPE_BLG]), (1, le_bytes 2 ab), (3, le_bytes 4 au), (7, le_bytes 4 tm)]"
  obtain bi where i: "wrs ?i (map fill [0..<81]) = Some bi"
    "\<forall>w \<in> set ?i. rd (fst w) (length (snd w)) bi = Some (snd w)"
    by (rule malloc_fields [of ?i 81 fill]) (simp_all add: ascending_def)
  obtain bl where l: "wrs ?l (map fill [0..<81]) = Some bl"
    "\<forall>w \<in> set ?l. rd (fst w) (length (snd w)) bl = Some (snd w)"
    by (rule malloc_fields [of ?l 81 fill]) (simp_all add: ascending_def)
  obtain bb' where b: "wrs ?b (map fill [0..<79]) = Some bb'"
    "\<forall>w \<in> set ?b. rd (fst w) (length (snd w)) bb' = Some (snd w)"
    by (rule malloc_fields [of ?b 79 fill]) (simp_all add: ascending_def)
  from i l b show ?thesis
    by (simp del: wrs.simps add: make_usertxs_inf_def make_usertxs_req_def parse_defs usertxs0_def)
qed

text \<open>
  C10: Where \<open>parse\<close> accepts a transaction, \<open>get_size\<close> gives the size \<open>parse\<close> computes, and that
  size is at least 4 and below \<open>2 ^ 24\<close>: the loops over a message that advance by \<open>get_size\<close> and
  those that advance by the parsed size visit the same positions, and both make progress.
\<close>

theorem get_size_parse:
  assumes "parse t0 buf = Some (True, t)"
  shows "get_size buf = Some (of_int (txsize t)) \<and> 4 \<le> txsize t \<and> txsize t < 2 ^ 24"
  using parse_size [OF assms] by simp

theorem get_size_parse_witness:
  "\<exists>t. parse (usertxs0 0) [TXSTYPE_BRO, 7, 0, 9, 0, 0, 0, 1, 0, 0, 0, 2, 0, 0, 0, 5, 0] = Some (True, t) \<and>
     get_size [TXSTYPE_BRO, 7, 0, 9, 0, 0, 0, 1, 0, 0, 0, 2, 0, 0, 0, 5, 0] = Some (of_int (txsize t)) \<and> txsize t = 86"
proof -
  have "map_option (map_prod id txsize) (parse (usertxs0 0) [TXSTYPE_BRO, 7, 0, 9, 0, 0, 0, 1, 0, 0, 0, 2, 0, 0, 0, 5, 0])
    = Some (True, 86)" by (simp add: parse_defs rd_def usertxs0_def le_word_def)
  then obtain t where t: "parse (usertxs0 0) [TXSTYPE_BRO, 7, 0, 9, 0, 0, 0, 1, 0, 0, 0, 2, 0, 0, 0, 5, 0] = Some (True, t)"
    and "txsize t = 86" by auto
  with get_size_parse [OF t] show ?thesis by blast
qed

text \<open>
  C11: In a transaction of a signed type the 64 signature bytes, which \<open>get_sig\<close> and \<open>sign_mlen2\<close>
  locate at the same place, lie inside the transaction.
\<close>

theorem sig_fits:
  assumes "parse t0 buf = Some (True, t)" and "ttype t \<notin> {TXSTYPE_NON, TXSTYPE_CON, TXSTYPE_UOK}"
  shows "int (sign_mlen2 t) + 64 \<le> txsize t \<and> get_sig t (ttype t) = sign_mlen2 t"
proof -
  note p = parse_size [OF assms(1)]
  obtain ty where b: "parse_body buf (t0\<lparr>ttype := ty\<rparr>) = Some t" "rdw 0 1 buf = Some ty"
    using assms by (auto simp: parse_def Let_def bind_eq_Some_conv split: if_splits)
  have "ty = ttype t" using b(2) p(5) by simp
  then have "ttype (t0\<lparr>ttype := ty\<rparr>) \<noteq> TXSTYPE_NON" using assms(2) by simp
  from parse_body_size [OF b(1) this] have "txsize t = int (wire_size t)" by simp
  moreover have "sign_mlen2 t + 64 \<le> wire_size t \<and> get_sig t (ttype t) = sign_mlen2 t"
    using u8_below_28 [OF p(4)] assms(2)
    by (elim insertE emptyE) (simp_all add: wire_size_def sign_mlen2_def get_sig_def)
  ultimately show ?thesis by simp
qed

theorem sig_fits_witness:
  "\<exists>t. parse (usertxs0 0) [TXSTYPE_MPT, 7, 0, 9, 0, 0, 0, 1, 0, 0, 0, 2, 0, 0, 0, 2, 0] = Some (True, t) \<and>
     int (sign_mlen2 t) + 64 \<le> txsize t \<and> get_sig t (ttype t) = sign_mlen2 t"
proof -
  have "map_option (map_prod id ttype) (parse (usertxs0 0) [TXSTYPE_MPT, 7, 0, 9, 0, 0, 0, 1, 0, 0, 0, 2, 0, 0, 0, 2, 0])
    = Some (True, TXSTYPE_MPT)" by (simp add: parse_defs rd_def usertxs0_def le_word_def)
  then obtain t where t: "parse (usertxs0 0) [TXSTYPE_MPT, 7, 0, 9, 0, 0, 0, 1, 0, 0, 0, 2, 0, 0, 0, 2, 0] = Some (True, t)"
    and "ttype t = TXSTYPE_MPT" by auto
  with sig_fits [OF t] show ?thesis by auto
qed

text \<open>
  C12: \<open>parse\<close> rejects a transaction code of 128 or more, but \<open>get_size\<close>, whose guard compares a
  signed \<open>char\<close>, reads \<open>txslen\<close> at a negative index for it.
\<close>

theorem get_size_signed:
  assumes "rdw 0 1 buf = Some (ty :: u8)" and "128 \<le> ty"
  shows "parse t0 buf = Some (False, t0\<lparr>ttype := ty\<rparr>) \<and> get_size buf = None"
proof -
  have "TXSTYPE_MAX \<le> ty" using assms(2) by (simp add: word_le_nat_alt)
  moreover have "sint ty < 0"
  proof -
    have "uint ty div 128 = 1"
      using assms(2) unsigned_less [of ty, where ?'a = int] by (simp add: word_le_def)
    then have "bit (uint ty) 7" by (simp add: bit_iff_odd)
    then show ?thesis
      using unsigned_less [of ty, where ?'a = int]
      by (simp add: sint_uint signed_take_bit_eq_take_bit_minus take_bit_int_eq_self)
  qed
  ultimately show ?thesis using assms(1) schar_code [OF assms(1)] by (simp add: parse_def get_size_def)
qed

theorem get_size_signed_witness:
  "parse (usertxs0 0) [200] = Some (False, (usertxs0 0)\<lparr>ttype := 200\<rparr>) \<and> get_size [200] = None"
  by (rule get_size_signed) (simp_all add: rdw_def rd_def)

section \<open>Sizes\<close>

lemma txslen_bound: "k < 29 \<Longrightarrow> txslen ! k \<le> 63"
proof -
  have "\<forall>x \<in> set txslen. x \<le> 63" and "length txslen = 29" by (simp_all add: txslen_def)
  then show "k < 29 \<Longrightarrow> txslen ! k \<le> 63" by (metis nth_mem)
qed

lemma unat_of_nat_pos: "0 < k \<Longrightarrow> k < 2 ^ 32 \<Longrightarrow> 0 < unat (of_nat k :: u32)"
  by (simp add: unat_of_nat take_bit_nat_eq_self)

lemma unat_pos0: "0 < unat (x :: u32) \<longleftrightarrow> x \<noteq> 0"
  by (simp add: neq0_conv [symmetric] unsigned_eq_0_iff del: neq0_conv)

lemma get_size_pos: "get_size buf = Some l \<Longrightarrow> 0 < unat l"
proof -
  assume a: "get_size buf = Some l"
  then obtain c where c: "schar buf = Some c" by (auto simp: get_size_def bind_eq_Some_conv)
  have u: "unat (x :: u16) < 65536" for x using unsigned_less [of x, where ?'a = nat] by simp
  have t: "txlen ty < 64" if "unat ty < 29" for ty using txslen_bound [OF that] by (simp add: txlen_def)
  have s: "txslen ! nat c + 64 < 2 ^ 32" if "c < 28"
  proof -
    have "nat c < 29" using that by linarith
    then show ?thesis using txslen_bound [of "nat c"] by simp
  qed
  have "le_nat bs < 2 ^ 24" if "rd 1 3 buf = Some bs" for bs
    using le_nat_bound [of bs] rd_length [OF that] by simp
  then have nn: "(if le_nat bs < 4 then 4 else of_nat (le_nat bs) :: u32) \<noteq> 0" if "rd 1 3 buf = Some bs" for bs
    using that unat_of_nat_pos [of "le_nat bs"] by (auto simp: unat_pos0)
  have v: "(of_nat (81 + unat y) :: u32) \<noteq> 0" "(of_nat (81 + unat y * 14) :: u32) \<noteq> 0" for y :: u16
    using unat_of_nat_pos [of "81 + unat y"] unat_of_nat_pos [of "81 + unat y * 14"] u [of y]
    by (simp_all add: unat_pos0 del: of_nat_add of_nat_mult)
  have "l \<noteq> 0"
    using a c nn t v unat_of_nat_pos s
    unfolding get_size_def c bind.bind_lunit
    by (auto simp: bind_eq_Some_conv unat_pos0 SIZEOF_USER_def simp del: of_nat_add of_nat_mult split: if_splits)
  then show ?thesis by (simp add: unat_pos0)
qed

end
