(* ===== verification/Accounts.thy ===== *)
theory Accounts
  imports Ads_Types
begin

text \<open>
  The files of the node, as \<open>common/servers.hpp\<close> and \<open>escd/server.cpp\<close> use them: one account file
  per node (\<open>usr/XXXX.dat\<close>, an array of \<open>user_t\<close>), the undo files with the same layout, and the
  files that hold bytes.  The locale \<open>account_total\<close> is the contract between an account file and
  the two totals a node keeps of it, the sum of the balances and the XOR of the checksums.
\<close>

section \<open>Files\<close>

type_synonym ufile = "user_t list"

text \<open>
  \<open>lseek\<close> and \<open>read\<close> of one record: \<open>None\<close> past the end of the file, where the record in memory is
  left as it was.  A write past the end fills the gap with zeros.
\<close>

definition fget :: "ufile \<Rightarrow> u32 \<Rightarrow> user_t option" where
  "fget f uid = (if unat uid < length f then Some (f ! unat uid) else None)"

definition fput :: "u32 \<Rightarrow> user_t \<Rightarrow> ufile \<Rightarrow> ufile" where
  "fput uid u f = (f @ replicate (Suc (unat uid) - length f) zero_user)[unat uid := u]"

text \<open>A byte file that is opened without \<open>O_TRUNC\<close> keeps what the write does not cover.\<close>

definition overwrite_bytes :: "bytes \<Rightarrow> bytes option \<Rightarrow> bytes" where
  "overwrite_bytes data old = (case old of None \<Rightarrow> data | Some f \<Rightarrow> data @ drop (length data) f)"

text \<open>
  \<open>d_usr\<close> holds the account files by node, \<open>d_und\<close> the undo files by block and node, \<open>d_vip\<close> the
  lists of VIP keys by their hash, \<open>d_srv\<close> and \<open>d_hdr\<close> the \<open>servers.srv\<close> and \<open>header.hdr\<close> files by
  block (0 for the ones outside the block directories), \<open>d_now\<close> the arrays of block hashes,
  \<open>d_sok\<close> and \<open>d_sno\<close> the signature files.  \<open>d_log\<close> are the log files by block, node and message,
  \<open>d_hlg\<close> the history logs of the blocks, \<open>d_bro\<close> the broadcast logs, \<open>d_msg\<close> and \<open>d_mun\<close> the messages
  and the undo files of messages by block, message type, node, message number and, for a bad message,
  its hash.  \<open>d_inx\<close> are the arrays of the blocks of a node's messages, where an entry that was not
  written reads as 0.  \<open>d_msl\<close> are the message lists of the blocks.
\<close>

type_synonym mkey = "u32 \<times> u8 \<times> u16 \<times> u32 \<times> bytes"

record disk =
  d_usr :: "u16 \<Rightarrow> ufile"
  d_und :: "u32 \<times> u16 \<Rightarrow> ufile"
  d_vip :: "bytes \<Rightarrow> bytes option"
  d_srv :: "u32 \<Rightarrow> bytes option"
  d_hdr :: "u32 \<Rightarrow> bytes option"
  d_now :: "u32 \<Rightarrow> bytes option"
  d_sok :: "u32 \<Rightarrow> (u16 \<times> bytes) list option"
  d_sno :: "u32 \<Rightarrow> (u16 \<times> bytes) list option"
  d_log :: "u32 \<times> u16 \<times> u32 \<Rightarrow> (u32 \<times> log_t) list option"
  d_hlg :: "u32 \<Rightarrow> bytes option"
  d_bro :: "u32 \<Rightarrow> bytes"
  d_msg :: "mkey \<Rightarrow> bytes option"
  d_mun :: "mkey \<Rightarrow> bytes option"
  d_inx :: "u16 \<Rightarrow> u32 \<Rightarrow> u32"
  d_msl :: "u32 \<Rightarrow> bytes option"

definition disk0 :: disk where
  "disk0 = \<lparr>d_usr = (\<lambda>_. []), d_und = (\<lambda>_. []), d_vip = (\<lambda>_. None), d_srv = (\<lambda>_. None),
     d_hdr = (\<lambda>_. None), d_now = (\<lambda>_. None), d_sok = (\<lambda>_. None), d_sno = (\<lambda>_. None),
     d_log = (\<lambda>_. None), d_hlg = (\<lambda>_. None), d_bro = (\<lambda>_. []), d_msg = (\<lambda>_. None), d_mun = (\<lambda>_. None),
     d_inx = (\<lambda>_ _. 0), d_msl = (\<lambda>_. None)\<rparr>"

lemma length_fput: "length (fput uid u f) = max (length f) (Suc (unat uid))"
  by (simp add: fput_def max_def)

lemma nth_fput:
  "i < length (fput uid u f) \<Longrightarrow> fput uid u f ! i =
     (if i = unat uid then u else if i < length f then f ! i else zero_user)"
  by (auto simp: fput_def nth_list_update nth_append)

lemma fget_fput:
  "fget (fput uid u f) j =
     (if j = uid then Some u else if unat j < length f then fget f j
      else if unat j < unat uid then Some zero_user else None)"
  by (auto simp: fget_def length_fput nth_fput word_unat_eq_iff less_max_iff_disj)

section \<open>The totals of an account file\<close>

text \<open>
  The accounts of a node are seen as a function from their numbers.  \<open>acc_total\<close> combines the
  first \<open>n\<close> of them with a group operation.
\<close>

definition acc_total :: "('g \<Rightarrow> 'g \<Rightarrow> 'g) \<Rightarrow> 'g \<Rightarrow> (user_t \<Rightarrow> 'g) \<Rightarrow> nat \<Rightarrow> (nat \<Rightarrow> user_t) \<Rightarrow> 'g" where
  "acc_total add e val n v = fold (\<lambda>i acc. add acc (val (v i))) [0..<n] e"

locale account_total =
  fixes add :: "'g \<Rightarrow> 'g \<Rightarrow> 'g" and e :: 'g and neg :: "'g \<Rightarrow> 'g" and val :: "user_t \<Rightarrow> 'g"
  assumes assoc: "add (add a b) c = add a (add b c)"
    and commute: "add a b = add b a"
    and ident: "add a e = a"
    and inverse: "add a (neg a) = e"
begin

lemma left_commute: "add a (add b c) = add b (add a c)"
  by (metis assoc commute)

lemmas ac = assoc commute left_commute

lemma cancel: "add (add a b) (neg b) = a"
  by (simp add: assoc inverse ident)

lemma total_0 [simp]: "acc_total add e val 0 v = e"
  by (simp add: acc_total_def)

lemma total_Suc [simp]: "acc_total add e val (Suc n) v = add (acc_total add e val n v) (val (v n))"
  by (simp add: acc_total_def)

lemma total_cong: "(\<And>i. i < n \<Longrightarrow> val (v i) = val (w i)) \<Longrightarrow> acc_total add e val n v = acc_total add e val n w"
  by (induction n) simp_all

lemma total_shift: "acc_total add e val (Suc n) v = add (val (v 0)) (acc_total add e val n (\<lambda>i. v (Suc i)))"
proof (induction n)
  case 0
  then show ?case by (simp add: commute)
next
  case (Suc n)
  then show ?case by (simp only: total_Suc [of "Suc n"]) (simp add: assoc)
qed

text \<open>Changing one account changes the total by the difference of its values.\<close>

lemma total_upd:
  "acc_total add e val n (v(i := u)) =
    (if i < n then add (add (acc_total add e val n v) (neg (val (v i)))) (val u)
     else acc_total add e val n v)"
proof (induction n)
  case (Suc n)
  show ?case
  proof (cases "i = n")
    case True
    have "add (add (add t (val (v n))) (neg (val (v n)))) (val u) = add t (val u)" for t
      by (simp add: cancel)
    then show ?thesis using True Suc by simp
  next
    case False
    then show ?thesis using Suc by (auto simp: ac)
  qed
qed simp

lemma total_write:
  assumes "i < n" and "t = acc_total add e val n v" and "add d (val (v i)) = val u"
  shows "acc_total add e val n (v(i := u)) = add t d"
proof -
  have "add (neg (val (v i))) (val u) = d"
    unfolding assms(3) [symmetric] using cancel [of d "val (v i)"] by (metis commute)
  then show ?thesis using assms by (simp add: total_upd assoc)
qed

end

definition xor4 :: "csum4 \<Rightarrow> csum4 \<Rightarrow> csum4" where
  "xor4 to from = (case to of (t0, t1, t2, t3) \<Rightarrow> case from of (f0, f1, f2, f3) \<Rightarrow>
     (t0 XOR f0, t1 XOR f1, t2 XOR f2, t3 XOR f3))"

lemma xor4_laws:
  "xor4 (xor4 a b) c = xor4 a (xor4 b c)" "xor4 a b = xor4 b a" "xor4 a (0, 0, 0, 0) = a"
  "xor4 a a = (0, 0, 0, 0)"
  by (simp_all add: xor4_def xor.assoc xor.commute xor.left_commute split: prod.splits)

interpretation wt: account_total "(+)" "0 :: i64" uminus u_weight
  by unfold_locales simp_all

interpretation cs: account_total xor4 "(0, 0, 0, 0)" "\<lambda>c. c" u_csum
  by unfold_locales (rule xor4_laws)+

abbreviation wsum :: "nat \<Rightarrow> (nat \<Rightarrow> user_t) \<Rightarrow> i64" where
  "wsum n v \<equiv> acc_total (+) 0 u_weight n v"

abbreviation csum :: "nat \<Rightarrow> (nat \<Rightarrow> user_t) \<Rightarrow> csum4" where
  "csum n v \<equiv> acc_total xor4 (0, 0, 0, 0) u_csum n v"

end
