(* ===== verification/Hashtree.thy ===== *)
theory Hashtree
  imports Ads_Types
begin

text \<open>
  \<open>class hashtree\<close> of \<open>common/hash.hpp\<close>: the incremental Merkle tree behind the hashes of messages,
  message lists and nodes.  \<open>SHA256\<close> (OpenSSL) is the parameter \<open>sha\<close>.  The lemmas relate the
  incremental computation, which keeps at most one subtree per level, to the direct recursive
  definition of the root.
\<close>

abbreviation (input) MAXTREE :: nat where "MAXTREE \<equiv> 32"

record hashtree =
  hashes :: "bytes list"
  hash_lv :: "bytes list"
  hash_loaded :: "bool list"

definition hashtree0 :: hashtree where
  "hashtree0 = \<lparr>hashes = [], hash_lv = replicate MAXTREE (replicate 32 0),
     hash_loaded = replicate MAXTREE False\<rparr>"

section \<open>Bit count and hash path\<close>

definition bits_k :: "u64 \<Rightarrow> u32" where
  "bits_k v = ucast (((v * 0x1001001001001) AND 0x84210842108421) mod 0x1f)"

definition bits :: "u32 \<Rightarrow> u32" where
  "bits v =
    (if v < 0x4000 then ucast (((ucast v * 0x200040008001 :: u64) AND 0x111111111111111) mod 0xf)
     else if v < 0x1000000 then
       bits_k (ucast (v AND 0xfff)) + bits_k (ucast (drop_bit 12 (v AND 0xfff000)))
     else
       bits_k (ucast (v AND 0xfff)) + bits_k (ucast (drop_bit 12 (v AND 0xfff000)))
       + bits_k (ucast (drop_bit 24 v)))"

text \<open>
  One round of the loop of \<open>hashpath\<close>; \<open>diff\<close> is \<open>2 ^ k - 1\<close> in round \<open>k\<close>, so it leaves the loop
  or becomes all ones after 32 rounds, which is the fuel the loop is given.
\<close>

record hpstate =
  hp_num :: u32
  hp_max :: u32
  hp_posnum :: u32
  hp_posfin :: u32
  hp_diff :: u32
  hp_add :: "u32 list"

definition hashpath_step :: "u32 \<Rightarrow> hpstate \<Rightarrow> hpstate" where
  "hashpath_step posend s =
    (let odd = hp_num s AND 1 \<noteq> 0;
         posadd = (if odd then hp_posnum s - hp_diff s else hp_posnum s + hp_diff s);
         posnum = (if odd then hp_posnum s + 1 else posadd + 1);
         (add, posfin, hmax) =
           (if posadd < posend then (hp_add s @ [posadd], hp_posfin s, hp_max s)
            else ((if hp_posfin s > 0 then hp_add s @ [hp_posfin s] else hp_add s), 0, 0));
         posfin = (if hmax AND 1 \<noteq> 0 then (if posfin = 0 then posend - 1 else posfin + 1) else posfin)
     in \<lparr>hp_num = drop_bit 1 (hp_num s), hp_max = drop_bit 1 hmax, hp_posnum = posnum,
         hp_posfin = posfin, hp_diff = push_bit 1 (hp_diff s) + 1, hp_add = add\<rparr>)"

fun hashpath_loop :: "nat \<Rightarrow> u32 \<Rightarrow> hpstate \<Rightarrow> hpstate option" where
  "hashpath_loop 0 posend s = (if hp_diff s < posend then None else Some s)"
| "hashpath_loop (Suc n) posend s =
     (if hp_diff s < posend then hashpath_loop n posend (hashpath_step posend s) else Some s)"

definition hashpath :: "u32 \<Rightarrow> u32 \<Rightarrow> u32 list \<Rightarrow> u32 list option" where
  "hashpath hashnum hashmax add =
    (let posnum = push_bit 1 hashnum - bits hashnum;
         posend = push_bit 1 hashmax - bits hashmax
     in map_option hp_add (hashpath_loop 32 posend
          \<lparr>hp_num = hashnum, hp_max = hashmax, hp_posnum = posnum, hp_posfin = 0, hp_diff = 1,
           hp_add = add\<rparr>))"

section \<open>Combining hashes\<close>

text \<open>The comparison loop of \<open>addhash\<close>: whether it stops at a byte where \<open>hash\<close> is larger.\<close>

fun hash_larger :: "bytes \<Rightarrow> bytes \<Rightarrow> bool" where
  "hash_larger (h # hs) (a # as) = (if h < a then False else if h > a then True else hash_larger hs as)"
| "hash_larger _ _ = False"

definition addhash :: "(bytes \<Rightarrow> bytes) \<Rightarrow> bytes \<Rightarrow> bytes \<Rightarrow> bytes" where
  "addhash sha hash add = (if hash_larger hash add then sha (add @ hash) else sha (hash @ add))"

definition hashpathrun :: "(bytes \<Rightarrow> bytes) \<Rightarrow> bytes \<Rightarrow> bytes list \<Rightarrow> bytes" where
  "hashpathrun sha hash hs = (case hs of [] \<Rightarrow> hash | h # hs' \<Rightarrow> fold (\<lambda>x acc. addhash sha acc x) hs' h)"

section \<open>The incremental tree\<close>

text \<open>The loop of \<open>update\<close> over the levels from \<open>i\<close>; it returns the level it stopped at.\<close>

function update_loop :: "(bytes \<Rightarrow> bytes) \<Rightarrow> nat \<Rightarrow> hashtree \<Rightarrow> nat \<times> hashtree" where
  "update_loop sha i t =
    (if i < MAXTREE then
       if \<not> hash_loaded t ! i then
         (i, t\<lparr>hash_lv := (hash_lv t)[i := hash_lv t ! (i - 1)], hash_loaded := (hash_loaded t)[i := True]\<rparr>)
       else
         (let h = addhash sha (hash_lv t ! i) (hash_lv t ! (i - 1)) in
          update_loop sha (Suc i)
            (t\<lparr>hash_lv := (hash_lv t)[i := h], hashes := hashes t @ [h],
               hash_loaded := (hash_loaded t)[i := False]\<rparr>))
     else (i, t))"
  by pat_completeness auto
termination
  by (relation "measure (\<lambda>(sha, i, t). MAXTREE - i)") auto

definition update :: "(bytes \<Rightarrow> bytes) \<Rightarrow> bytes \<Rightarrow> hashtree \<Rightarrow> nat \<times> hashtree" where
  "update sha hash t =
    (if \<not> hash_loaded t ! 0 then
       (0, t\<lparr>hash_lv := (hash_lv t)[0 := hash], hash_loaded := (hash_loaded t)[0 := True]\<rparr>)
     else
       (let h = addhash sha (hash_lv t ! 0) hash in
        update_loop sha 1
          (t\<lparr>hash_lv := (hash_lv t)[0 := h], hashes := hashes t @ [h],
             hash_loaded := (hash_loaded t)[0 := False]\<rparr>)))"

text \<open>\<open>finish\<close>: the first loaded level starts the hash, the later ones are added.\<close>

fun finish_rest :: "(bytes \<Rightarrow> bytes) \<Rightarrow> nat list \<Rightarrow> bytes \<Rightarrow> hashtree \<Rightarrow> bytes \<times> hashtree" where
  "finish_rest sha [] hash t = (hash, t)"
| "finish_rest sha (i # is) hash t =
     (if hash_loaded t ! i then
        (let h = addhash sha hash (hash_lv t ! i) in
         finish_rest sha is h (t\<lparr>hashes := hashes t @ [h]\<rparr>))
      else finish_rest sha is hash t)"

definition finish :: "(bytes \<Rightarrow> bytes) \<Rightarrow> hashtree \<Rightarrow> int \<times> bytes \<times> hashtree" where
  "finish sha t =
    (case dropWhile (\<lambda>i. \<not> hash_loaded t ! i) [0..<MAXTREE] of
       [] \<Rightarrow> (0, replicate 32 0, t)
     | i # is \<Rightarrow> (1, finish_rest sha is (hash_lv t ! i) t))"

definition tree_of :: "(bytes \<Rightarrow> bytes) \<Rightarrow> bytes list \<Rightarrow> hashtree" where
  "tree_of sha xs = fold (\<lambda>x t. snd (update sha x t)) xs hashtree0"

definition tree_root :: "(bytes \<Rightarrow> bytes) \<Rightarrow> bytes list \<Rightarrow> bytes" where
  "tree_root sha xs = fst (snd (finish sha (tree_of sha xs)))"

section \<open>Lemmas on addhash\<close>

lemma hash_larger_asym: "hash_larger a b \<Longrightarrow> \<not> hash_larger b a"
  by (induction a b rule: hash_larger.induct) (auto split: if_splits)

lemma hash_larger_total: "length a = length b \<Longrightarrow> \<not> hash_larger a b \<Longrightarrow> \<not> hash_larger b a \<Longrightarrow> a = b"
  by (induction a b rule: hash_larger.induct) (auto split: if_splits)

text \<open>C18: \<open>addhash\<close> is symmetric, as its comment says: the order of two hashes of the same length does
  not matter, so a hash path needs no left/right flags.\<close>

theorem addhash_commute: "length a = length b \<Longrightarrow> addhash sha a b = addhash sha b a"
  using hash_larger_asym hash_larger_total by (fastforce simp: addhash_def)

theorem addhash_commute_witness:
  "length [1, 2 :: u8] = length [2, 1 :: u8] \<and> addhash rev [1, 2] [2, 1] = addhash rev [2, 1] [1, 2] \<and>
   addhash rev [1, 2] [2, 1] = [1, 2, 2, 1]"
  using addhash_commute [of "[1, 2]" "[2, 1]" rev] by (simp add: addhash_def)

section \<open>The incremental tree computes the Merkle root\<close>

text \<open>The root of a perfect subtree over \<open>2 ^ k\<close> hashes.\<close>

fun mtree :: "(bytes \<Rightarrow> bytes) \<Rightarrow> nat \<Rightarrow> bytes list \<Rightarrow> bytes" where
  "mtree sha 0 xs = hd xs"
| "mtree sha (Suc k) xs = addhash sha (mtree sha k (take (2 ^ k) xs)) (mtree sha k (drop (2 ^ k) xs))"

text \<open>
  The levels of the tree as lists of the hashes below them: \<open>gins\<close> follows the carries of \<open>update\<close>.
\<close>

fun gins :: "'a list \<Rightarrow> 'a list option list \<Rightarrow> 'a list option list" where
  "gins xs [] = []"
| "gins xs (None # s) = Some xs # s"
| "gins xs (Some ys # s) = None # gins (ys @ xs) s"

definition leaves :: "'a list option list \<Rightarrow> 'a list" where
  "leaves g = concat (map (case_option [] id) (rev g))"

fun gfull :: "'a list option list \<Rightarrow> nat" where
  "gfull [] = 0"
| "gfull (o1 # s) = (if o1 = None then 0 else 1) + 2 * gfull s"

fun glen :: "nat \<Rightarrow> 'a list option list \<Rightarrow> bool" where
  "glen k [] = True"
| "glen k (o1 # s) = ((case o1 of None \<Rightarrow> True | Some xs \<Rightarrow> length xs = 2 ^ k) \<and> glen (Suc k) s)"

lemma length_gins [simp]: "length (gins xs g) = length g"
  by (induction xs g rule: gins.induct) auto

lemma glen_gins: "glen k g \<Longrightarrow> length xs = 2 ^ k \<Longrightarrow> glen k (gins xs g)"
  by (induction xs g arbitrary: k rule: gins.induct) auto

lemma leaves_Cons: "leaves (o1 # s) = leaves s @ case_option [] id o1"
  by (simp add: leaves_def)

lemma leaves_gins: "gfull g < 2 ^ length g - 1 \<Longrightarrow> leaves (gins xs g) = leaves g @ xs"
  by (induction xs g rule: gins.induct) (auto simp: leaves_Cons)

lemma gfull_gins: "gfull g < 2 ^ length g - 1 \<Longrightarrow> gfull (gins xs g) = Suc (gfull g)"
  by (induction xs g rule: gins.induct) auto

text \<open>concrete representation\<close>
definition rep :: "(bytes \<Rightarrow> bytes) \<Rightarrow> hashtree \<Rightarrow> bytes list option list \<Rightarrow> bool" where
  "rep sha t g \<longleftrightarrow> length g = MAXTREE \<and> length (hash_lv t) = MAXTREE \<and> length (hash_loaded t) = MAXTREE \<and>
     (\<forall>i < MAXTREE. hash_loaded t ! i = (g ! i \<noteq> None) \<and>
        (\<forall>xs. g ! i = Some xs \<longrightarrow> hash_lv t ! i = mtree sha i xs))"

lemma mtree_append: "length ys = 2 ^ k \<Longrightarrow> length xs = 2 ^ k \<Longrightarrow>
  mtree sha (Suc k) (ys @ xs) = addhash sha (mtree sha k ys) (mtree sha k xs)"
  by simp

lemma glen_nth: "glen k g \<Longrightarrow> i < length g \<Longrightarrow> g ! i = Some xs \<Longrightarrow> length xs = 2 ^ (k + i)"
proof (induction g arbitrary: k i)
  case (Cons o1 g)
  then show ?case by (cases i) (auto simp: Cons.IH [of "Suc k"])
qed simp

lemma glen_update_None: "glen k g \<Longrightarrow> glen k (g[i := None])"
proof (induction g arbitrary: k i)
  case (Cons o1 g)
  then show ?case by (cases i) auto
qed simp

lemma update_loop_rep:
  assumes "rep sha t g" and "glen 0 g" and "0 < i" and "i \<le> MAXTREE" and "g ! (i - 1) = None"
    and "hash_lv t ! (i - 1) = mtree sha i xs" and "length xs = 2 ^ i"
  shows "rep sha (snd (update_loop sha i t)) (take i g @ gins xs (drop i g))"
  using assms
proof (induction sha i t arbitrary: g xs rule: update_loop.induct)
  case (1 sha i t)
  have len: "length g = 32" using "1.prems"(1) by (simp add: rep_def)
  show ?case
  proof (cases "i < MAXTREE")
    case False
    with "1.prems" len show ?thesis by (simp add: update_loop.simps [of sha i t])
  next
    case True
    then have dr: "drop i g = g ! i # drop (Suc i) g" using len by (simp add: Cons_nth_drop_Suc)
    have loaded: "hash_loaded t ! i = (g ! i \<noteq> None)" using "1.prems"(1) True by (simp add: rep_def)
    show ?thesis
    proof (cases "g ! i")
      case None
      then have "take i g @ gins xs (drop i g) = g[i := Some xs]"
        using True len by (simp add: dr upd_conv_take_nth_drop)
      then show ?thesis
        using None loaded "1.prems" True len
        by (auto simp: update_loop.simps [of sha i t] rep_def nth_list_update)
    next
      case (Some ys)
      let ?h = "addhash sha (hash_lv t ! i) (hash_lv t ! (i - 1))"
      let ?t = "t\<lparr>hash_lv := (hash_lv t)[i := ?h], hashes := hashes t @ [?h],
               hash_loaded := (hash_loaded t)[i := False]\<rparr>"
      let ?g = "g[i := None]"
      have ys: "length ys = 2 ^ i" "hash_lv t ! i = mtree sha i ys"
        using glen_nth [OF "1.prems"(2), of i ys] Some True len "1.prems"(1) by (auto simp: rep_def)
      have h: "?h = mtree sha (Suc i) (ys @ xs)"
        using ys "1.prems"(6,7) by (simp del: mtree.simps(2) add: mtree_append)
      have "rep sha ?t ?g" using "1.prems"(1) True by (auto simp: rep_def nth_list_update)
      moreover have "glen 0 ?g" using "1.prems"(2)
        by (rule glen_update_None)
      moreover have "hash_lv ?t ! (Suc i - 1) = mtree sha (Suc i) (ys @ xs)"
        using h True "1.prems"(1) by (simp del: mtree.simps(2) add: rep_def)
      ultimately have "rep sha (snd (update_loop sha (Suc i) ?t)) (take (Suc i) ?g @ gins (ys @ xs) (drop (Suc i) ?g))"
        using "1.IH" [of ?h ?g "ys @ xs"] True Some loaded len ys "1.prems"(7) by simp
      moreover have "take (Suc i) ?g @ gins (ys @ xs) (drop (Suc i) ?g) = take i g @ gins xs (drop i g)"
        using True len Some by (simp add: dr take_Suc_conv_app_nth)
      ultimately show ?thesis
        using True Some loaded by (simp add: update_loop.simps [of sha i t] Let_def)
    qed
  qed
qed

lemma update_rep:
  assumes "rep sha t g" and "glen 0 g"
  shows "rep sha (snd (update sha x t)) (gins [x] g)"
proof -
  have len: "length g = 32" using assms(1) by (simp add: rep_def)
  then obtain o1 s where g: "g = o1 # s" by (cases g) auto
  have loaded: "hash_loaded t ! 0 = (o1 \<noteq> None)" using assms(1) by (simp add: rep_def g)
  show ?thesis
  proof (cases o1)
    case None
    then show ?thesis using assms(1) loaded by (auto simp: update_def g rep_def nth_list_update nth_Cons split: nat.splits)
  next
    case (Some ys)
    then obtain y where ys: "ys = [y]" using assms(2) by (cases ys) (auto simp: g)
    have y: "hash_lv t ! 0 = y" using assms(1) Some by (auto simp: rep_def g ys)
    let ?h = "addhash sha y x"
    let ?t = "t\<lparr>hash_lv := (hash_lv t)[0 := ?h], hashes := hashes t @ [?h],
             hash_loaded := (hash_loaded t)[0 := False]\<rparr>"
    have "rep sha ?t (None # s)" using assms(1) by (auto simp: rep_def g nth_list_update nth_Cons split: nat.splits)
    moreover have "glen 0 (None # s)" using assms(2) by (simp add: g)
    moreover have "hash_lv ?t ! 0 = mtree sha 1 [y, x]" using assms(1) by (simp add: rep_def)
    ultimately have "rep sha (snd (update_loop sha 1 ?t)) (take 1 (None # s) @ gins [y, x] (drop 1 (None # s)))"
      by (intro update_loop_rep) simp_all
    then show ?thesis using Some loaded y by (simp add: update_def g ys Let_def del: update_loop.simps)
  qed
qed

definition glevels :: "'a list \<Rightarrow> 'a list option list" where
  "glevels xs = fold (\<lambda>x. gins [x]) xs (replicate 32 None)"

lemma glevels_snoc: "glevels (xs @ [x]) = gins [x] (glevels xs)"
  by (simp add: glevels_def)

lemma glen_none: "glen k (replicate n None)"
  by (induction n arbitrary: k) auto

lemma gfull_none: "gfull (replicate n None) = 0"
  by (induction n) auto

lemma leaves_none: "leaves (replicate n None) = []"
  by (induction n) (auto simp: leaves_def)

lemma glen_glevels: "glen 0 (glevels xs) \<and> length (glevels xs) = 32"
proof (induction xs rule: rev_induct)
  case Nil
  then show ?case by (simp add: glevels_def glen_none)
next
  case (snoc x xs)
  then show ?case by (simp add: glevels_snoc glen_gins)
qed

lemma glevels_leaves: "length xs < 2 ^ 32 \<Longrightarrow> leaves (glevels xs) = xs \<and> gfull (glevels xs) = length xs"
proof (induction xs rule: rev_induct)
  case Nil
  then show ?case by (simp add: glevels_def leaves_none gfull_none)
next
  case (snoc x xs)
  then have "gfull (glevels xs) < 2 ^ length (glevels xs) - 1" using glen_glevels [of xs] by simp
  with snoc show ?case by (simp add: glevels_snoc leaves_gins gfull_gins)
qed

lemma tree_of_rep: "rep sha (tree_of sha xs) (glevels xs)"
proof (induction xs rule: rev_induct)
  case Nil
  then show ?case by (simp add: tree_of_def glevels_def hashtree0_def rep_def)
next
  case (snoc x xs)
  then show ?case using update_rep glen_glevels [of xs] by (simp add: glevels_snoc tree_of_def)
qed

text \<open>
  The reference root of at most \<open>2 ^ k - 1\<close> hashes: the largest perfect subtree first.
\<close>

fun mrootk :: "(bytes \<Rightarrow> bytes) \<Rightarrow> nat \<Rightarrow> bytes list \<Rightarrow> bytes" where
  "mrootk sha 0 xs = replicate 32 0"
| "mrootk sha (Suc k) xs =
    (if length xs < 2 ^ k then mrootk sha k xs
     else if length xs = 2 ^ k then mtree sha k xs
     else addhash sha (mrootk sha k (drop (2 ^ k) xs)) (mtree sha k (take (2 ^ k) xs)))"

text \<open>The loops of \<open>finish\<close> as one fold over the levels.\<close>

definition level_acc :: "(bytes \<Rightarrow> bytes) \<Rightarrow> hashtree \<Rightarrow> nat \<Rightarrow> bytes option \<Rightarrow> bytes option" where
  "level_acc sha t i acc = (if hash_loaded t ! i then
      (case acc of None \<Rightarrow> Some (hash_lv t ! i) | Some a \<Rightarrow> Some (addhash sha a (hash_lv t ! i))) else acc)"

lemma finish_rest_fold:
  "Some (fst (finish_rest sha is h t)) = fold (level_acc sha t) is (Some h)"
proof (induction "is" arbitrary: h t)
  case (Cons i "is")
  have "level_acc sha (t\<lparr>hashes := xs\<rparr>) = level_acc sha t" for xs by (simp add: level_acc_def fun_eq_iff split: option.splits)
  with Cons show ?case by (simp add: level_acc_def [of _ _ i] Let_def)
qed simp

lemma fold_level_skip:
  "fold (level_acc sha t) is None =
    (case dropWhile (\<lambda>i. \<not> hash_loaded t ! i) is of [] \<Rightarrow> None | i # js \<Rightarrow> fold (level_acc sha t) js (Some (hash_lv t ! i)))"
proof (induction "is")
  case (Cons i "is")
  then show ?case by (simp add: level_acc_def [of _ _ i])
qed simp

lemma finish_fold:
  "fst (snd (finish sha t)) = (case fold (level_acc sha t) [0..<32] None of None \<Rightarrow> replicate 32 0 | Some h \<Rightarrow> h)"
proof (cases "dropWhile (\<lambda>i. \<not> hash_loaded t ! i) [0..<32]")
  case Nil
  then show ?thesis by (simp only: finish_def fold_level_skip) simp
next
  case (Cons i js)
  then show ?thesis using finish_rest_fold [of sha js "hash_lv t ! i" t, symmetric]
    by (simp only: finish_def fold_level_skip) simp
qed

lemma leaves_take_bound: "glen 0 g \<Longrightarrow> k \<le> length g \<Longrightarrow> length (leaves (take k g)) < 2 ^ k"
proof (induction k)
  case (Suc k)
  have "leaves (take (Suc k) g) = case_option [] id (g ! k) @ leaves (take k g)"
    using Suc.prems by (simp add: leaves_def take_Suc_conv_app_nth)
  moreover have "length (case_option [] id (g ! k)) \<le> 2 ^ k"
    using glen_nth [OF Suc.prems(1), of k] Suc.prems(2) by (cases "g ! k") auto
  ultimately show ?case using Suc by simp
qed (simp add: leaves_def)

lemma fold_levels:
  assumes "rep sha t g" and "glen 0 g" and "k \<le> 32"
  shows "fold (level_acc sha t) [0..<k] None =
    (if leaves (take k g) = [] then None else Some (mrootk sha k (leaves (take k g))))"
  using assms(3)
proof (induction k)
  case (Suc k)
  have len: "length g = 32" using assms(1) by (simp add: rep_def)
  have lv: "leaves (take (Suc k) g) = case_option [] id (g ! k) @ leaves (take k g)"
    using Suc.prems len by (simp add: leaves_def take_Suc_conv_app_nth)
  have b: "length (leaves (take k g)) < 2 ^ k"
    using leaves_take_bound [OF assms(2)] Suc.prems len by simp
  have ld: "hash_loaded t ! k = (g ! k \<noteq> None)" using assms(1) Suc.prems by (simp add: rep_def)
  show ?case
  proof (cases "g ! k")
    case None
    then show ?thesis using Suc lv b ld by (simp add: level_acc_def)
  next
    case (Some xs)
    have xs: "length xs = 2 ^ k" "hash_lv t ! k = mtree sha k xs"
      using glen_nth [OF assms(2), of k xs] assms(1) Some Suc.prems len by (auto simp: rep_def)
    then have "xs \<noteq> []" by auto
    then show ?thesis using Suc lv b ld Some xs by (auto simp: level_acc_def)
  qed
qed (simp add: leaves_def)

lemma tree_root_levels:
  assumes "length xs < 2 ^ 32"
  shows "tree_root sha xs = (if xs = [] then replicate 32 0 else mrootk sha 32 xs)"
proof -
  have g: "glen 0 (glevels xs)" "length (glevels xs) = 32" "leaves (glevels xs) = xs"
    using glen_glevels [of xs] glevels_leaves [OF assms] by auto
  show ?thesis using fold_levels [OF tree_of_rep g(1), of 32 sha] g(2,3) by (simp add: tree_root_def finish_fold)
qed

lemma length_addhash: "(\<And>x. length (sha x) = 32) \<Longrightarrow> length (addhash sha a b) = 32"
  by (simp add: addhash_def)

lemma length_mtree:
  assumes "\<And>x. length (sha x) = 32" and "xs \<noteq> []" and "\<forall>x \<in> set xs. length x = 32"
  shows "length (mtree sha k xs) = 32"
  using assms by (cases k) (auto simp: length_addhash)

lemma length_mrootk:
  assumes "\<And>x. length (sha x) = 32" and "\<forall>x \<in> set xs. length x = 32"
  shows "length (mrootk sha k xs) = 32"
  using assms by (induction k) (auto simp: length_addhash intro!: length_mtree)

lemma length_tree_root:
  assumes "\<And>x. length (sha x) = 32" and "\<forall>x \<in> set xs. length x = 32" and "length xs < 2 ^ 32"
  shows "length (tree_root sha xs) = 32"
  using assms by (simp add: tree_root_levels length_mrootk)

text \<open>C6: the root that \<open>update\<close> and \<open>finish\<close> compute by keeping one subtree per level is the root of the
  reference Merkle tree, whose left part is the largest perfect subtree, for every list of fewer
  than \<open>2^32\<close> hashes.\<close>

theorem tree_root_merkle:
  assumes "length xs < 2 ^ 32"
  shows "tree_root sha xs = mrootk sha 32 xs"
proof -
  have "mrootk sha n [] = replicate 32 0" for n by (induction n) auto
  with assms show ?thesis by (simp add: tree_root_levels)
qed

theorem tree_root_merkle_witness:
  "length [replicate 32 1, replicate 32 2, replicate 32 3 :: bytes] < 2 ^ 32 \<and>
   tree_root (take 32) [replicate 32 1, replicate 32 2, replicate 32 3] =
     mrootk (take 32) 32 [replicate 32 1, replicate 32 2, replicate 32 3]"
  using tree_root_merkle [of "[replicate 32 1, replicate 32 2, replicate 32 3]" "take 32"] by simp

section \<open>The hash path\<close>

lemma mask_double: "2 * mask k + 1 = (mask (Suc k) :: 'a::len word)"
  by (simp add: mask_eq_exp_minus_1)

lemma hashpath_loop_total:
  "hp_diff s = mask (Suc k) \<Longrightarrow> k + n = 32 \<Longrightarrow> \<exists>r. hashpath_loop n e s = Some r"
proof (induction n arbitrary: s k)
  case 0
  then have "hp_diff s = - 1" by (simp add: mask_eq_exp_minus_1)
  then have "\<not> hp_diff s < e" by (simp add: not_less)
  then show ?case by simp
next
  case (Suc n)
  have "hp_diff (hashpath_step e s) = 2 * hp_diff s + 1"
    by (simp add: hashpath_step_def Let_def split_def)
  then have "hp_diff (hashpath_step e s) = mask (Suc (Suc k))"
    using Suc.prems(1) mask_double [of "Suc k", where 'a = 32] by simp
  then show ?case using Suc.IH [of _ "Suc k"] Suc.prems by simp
qed

text \<open>C15: \<open>hashpath\<close> returns for all arguments: its loop variable \<open>diff\<close> is all ones after at most 32 rounds.\<close>

theorem hashpath_terminates: "\<exists>path. hashpath hashnum hashmax add = Some path"
  using hashpath_loop_total [of "\<lparr>hp_num = _, hp_max = _, hp_posnum = _, hp_posfin = 0, hp_diff = 1, hp_add = _\<rparr>" 0 32]
  by (simp add: hashpath_def Let_def mask_eq_exp_minus_1)

end
