(* ===== verification/Servers.thy ===== *)
theory Servers
  imports Accounts Hashtree
begin

text \<open>
  \<open>class servers\<close> of \<open>common/servers.hpp\<close>, the state of a block: the nodes with the totals of their
  accounts, the header hashes, the list of VIP nodes, and the files of the block.  A method that
  changes the object and the files takes and returns both.  \<open>None\<close> is a call that ends the process
  (\<open>exit\<close>, a failed \<open>assert\<close>) or indexes a vector out of its range.  Files can always be created.
  \<open>SHA256\<close> is the parameter \<open>sha\<close>.
\<close>

section \<open>Nodes and headers\<close>

record node_t =
  n_pk :: bytes
  n_hash :: csum4
  n_msha :: bytes
  n_msid :: u32
  n_mtim :: u32
  n_weight :: i64
  n_status :: u32
  n_users :: u32
  n_port :: u32
  n_ipv4 :: u32

record node = node_t +
  n_changed :: "u64 list"

abbreviation zero32 :: bytes where "zero32 \<equiv> replicate 32 0"

definition node0 :: node where
  "node0 = \<lparr>n_pk = zero32, n_hash = (0, 0, 0, 0), n_msha = zero32, n_msid = 0, n_mtim = 0,
     n_weight = 0, n_status = 0, n_users = 0, n_port = 0, n_ipv4 = 0, n_changed = []\<rparr>"

record servers =
  s_now :: u32
  s_msg :: u32
  s_nod :: u32
  s_div :: u32
  s_oldhash :: bytes
  s_minhash :: bytes
  s_msghash :: bytes
  s_nodhash :: bytes
  s_viphash :: bytes
  s_nowhash :: bytes
  s_vok :: u16
  s_vno :: u16
  s_vtot :: u16
  s_txs :: u64
  s_nodes :: "node list"

text \<open>The constructor leaves \<open>txs\<close> uninitialised: it is an argument.\<close>

definition servers0 :: "u64 \<Rightarrow> servers" where
  "servers0 t = \<lparr>s_now = 0, s_msg = 0, s_nod = 0, s_div = 0, s_oldhash = zero32, s_minhash = zero32,
     s_msghash = zero32, s_nodhash = zero32, s_viphash = zero32, s_nowhash = zero32, s_vok = 0,
     s_vno = 0, s_vtot = 0xffff, s_txs = t, s_nodes = []\<rparr>"

record headlink_t =
  l_msg :: u32
  l_nod :: u32
  l_div :: u32
  l_msghash :: bytes
  l_nodhash :: bytes
  l_viphash :: bytes

record header_t =
  h_now :: u32
  h_msg :: u32
  h_nod :: u32
  h_div :: u32
  h_oldhash :: bytes
  h_msghash :: bytes
  h_nodhash :: bytes
  h_viphash :: bytes
  h_nowhash :: bytes
  h_vok :: u16
  h_vno :: u16

text \<open>The signed part of a header: \<open>sizeof(header_t) - 4\<close> bytes.\<close>

definition header_signed :: "header_t \<Rightarrow> bytes" where
  "header_signed h = le_bytes 4 (h_now h) @ le_bytes 4 (h_msg h) @ le_bytes 4 (h_nod h) @
     le_bytes 4 (h_div h) @ h_oldhash h @ h_msghash h @ h_nodhash h @ h_viphash h @ h_nowhash h"

definition node_at :: "servers \<Rightarrow> u16 \<Rightarrow> node option" where
  "node_at s i = (if unat i < length (s_nodes s) then Some (s_nodes s ! unat i) else None)"

definition set_node :: "u16 \<Rightarrow> node \<Rightarrow> servers \<Rightarrow> servers" where
  "set_node i n s = s\<lparr>s_nodes := (s_nodes s)[unat i := n]\<rparr>"

text \<open>\<open>std::vector::resize\<close>\<close>

definition vec_resize :: "nat \<Rightarrow> 'a \<Rightarrow> 'a list \<Rightarrow> 'a list" where
  "vec_resize k x xs = take k xs @ replicate (k - length xs) x"

section \<open>Accounts\<close>

definition user_csum :: "(bytes \<Rightarrow> bytes) \<Rightarrow> user_t \<Rightarrow> u16 \<Rightarrow> u32 \<Rightarrow> user_t" where
  "user_csum sha u peer uid =
     u\<lparr>u_csum := csum_of (sha (user_bytes u @ le_bytes 2 peer @ le_bytes 4 uid))\<rparr>"

definition init_node_hash :: "(bytes \<Rightarrow> bytes) \<Rightarrow> servers \<Rightarrow> node \<Rightarrow> node option" where
  "init_node_hash sha s nn = do {
     n \<leftarrow> node_at s 0;
     Some (nn\<lparr>n_msha := sha (n_msha n @ csum_bytes (n_hash nn) @ n_pk nn)\<rparr>)
   }"

text \<open>\<open>init_user_hash\<close> takes \<open>sizeof(u.time)\<close> bytes of \<open>u.user\<close> where it means \<open>u.time\<close>.\<close>

definition init_user_hash :: "(bytes \<Rightarrow> bytes) \<Rightarrow> servers \<Rightarrow> user_t \<Rightarrow> user_t option" where
  "init_user_hash sha s u = do {
     n \<leftarrow> node_at s 0;
     Some (u\<lparr>u_hash := sha (n_msha n @ le_bytes 2 (u_node u) @ le_bytes 4 (u_user u) @
       le_bytes 4 (u_user u) @ u_pkey u)\<rparr>)
   }"

definition init_user ::
  "(bytes \<Rightarrow> bytes) \<Rightarrow> servers \<Rightarrow> u16 \<Rightarrow> u32 \<Rightarrow> i64 \<Rightarrow> bytes \<Rightarrow> u32 \<Rightarrow> user_t option" where
  "init_user sha s peer uid weight pk when = do {
     u \<leftarrow> init_user_hash sha s (zero_user\<lparr>u_msid := 1, u_time := when, u_lpath := when,
       u_rpath := when, u_weight := weight, u_pkey := pk\<rparr>);
     Some (user_csum sha u peer uid)
   }"

definition put_user :: "user_t \<Rightarrow> u16 \<Rightarrow> u32 \<Rightarrow> servers \<times> disk \<Rightarrow> (servers \<times> disk) option" where
  "put_user u peer uid sd = (case sd of (s, d) \<Rightarrow> do {
     n \<leftarrow> node_at s peer;
     let d' = d\<lparr>d_usr := (d_usr d)(peer := fput uid u (d_usr d peer))\<rparr>;
     Some (if n_users n \<le> uid
       then set_node peer (n\<lparr>n_users := uid + 1,
              n_changed := vec_resize (1 + unat uid div 64) 0 (n_changed n)\<rparr>) s
       else s, d')
   })"

text \<open>\<open>get_user\<close> leaves the caller's record as it was when the file is missing or too short.\<close>

definition get_user :: "user_t \<Rightarrow> u16 \<Rightarrow> u32 \<Rightarrow> disk \<Rightarrow> user_t" where
  "get_user u peer uid d = (case fget (d_usr d peer) uid of None \<Rightarrow> u | Some v \<Rightarrow> v)"

definition check_user :: "servers \<Rightarrow> u16 \<Rightarrow> u32 \<Rightarrow> bool" where
  "check_user s peer uid =
     (case node_at s peer of None \<Rightarrow> False | Some n \<Rightarrow> \<not> n_users n \<le> uid)"

text \<open>The loop of \<open>check_nodehash\<close> over the records it reads; \<open>None\<close> when the file is too short.\<close>

fun nodehash_loop :: "nat \<Rightarrow> ufile \<Rightarrow> csum4 \<Rightarrow> i64 \<Rightarrow> (csum4 \<times> i64) option" where
  "nodehash_loop 0 f c w = Some (c, w)"
| "nodehash_loop (Suc k) [] c w = None"
| "nodehash_loop (Suc k) (u # f) c w = nodehash_loop k f (xor4 c (u_csum u)) (w + u_weight u)"

definition check_nodehash :: "servers \<times> disk \<Rightarrow> u16 \<Rightarrow> bool option" where
  "check_nodehash sd peer = (case sd of (s, d) \<Rightarrow>
     if peer = 0 then None
     else do {
       n \<leftarrow> node_at s peer;
       (c, w) \<leftarrow> nodehash_loop (unat (n_users n)) (d_usr d peer) (0, 0, 0, 0) 0;
       Some (n_weight n = w \<and> n_hash n = c)
     })"

text \<open>\<open>save_undo\<close> writes an account at most once per block; \<open>changed\<close> has a bit for each account.\<close>

fun save_undo_loop :: "(u32, user_t) amap \<Rightarrow> u64 list \<Rightarrow> ufile \<Rightarrow> (u64 list \<times> ufile) option" where
  "save_undo_loop [] ch f = Some (ch, f)"
| "save_undo_loop ((k, u) # undo) ch f =
     (let i = unat k div 64; j = push_bit (unat k mod 64) 1 in
      if i < length ch then
        if ch ! i AND j \<noteq> 0 then save_undo_loop undo ch f
        else save_undo_loop undo (ch[i := ch ! i OR j]) (fput k u f)
      else None)"

definition save_undo :: "u16 \<Rightarrow> (u32, user_t) amap \<Rightarrow> u32 \<Rightarrow> servers \<times> disk \<Rightarrow> (servers \<times> disk) option" where
  "save_undo svid undo users sd = (case sd of (s, d) \<Rightarrow> do {
     n \<leftarrow> node_at s svid;
     let n = (if n_users n \<le> users
       then n\<lparr>n_users := users, n_changed := vec_resize (1 + unat users div 64) 0 (n_changed n)\<rparr> else n);
     (ch, f) \<leftarrow> save_undo_loop undo (n_changed n) (d_und d (s_now s, svid));
     Some (set_node svid (n\<lparr>n_changed := ch\<rparr>) s, d\<lparr>d_und := (d_und d)((s_now s, svid) := f)\<rparr>)
   })"

definition clear_undo :: "servers \<Rightarrow> servers" where
  "clear_undo s = s\<lparr>s_nodes := map (\<lambda>n. n\<lparr>n_changed := map (\<lambda>_. 0) (n_changed n)\<rparr>) (s_nodes s)\<rparr>"

definition add_node :: "(bytes \<Rightarrow> bytes) \<Rightarrow> user_t \<Rightarrow> servers \<times> disk \<Rightarrow> (u16 \<times> servers \<times> disk) option" where
  "add_node sha ou sd = (case sd of (s, d) \<Rightarrow> do {
     let peer = of_nat (length (s_nodes s));
     nn \<leftarrow> init_node_hash sha s (node0\<lparr>n_mtim := s_now s, n_pk := u_pkey ou\<rparr>);
     let s = s\<lparr>s_nodes := s_nodes s @ [nn]\<rparr>;
     nu \<leftarrow> init_user sha s peer 0 (BANK_MIN_UMASS + BANK_MIN_TMASS) (u_pkey ou) (s_now s);
     (s, d) \<leftarrow> put_user nu peer 0 (s, d);
     n \<leftarrow> node_at s peer;
     Some (peer, set_node peer (n\<lparr>n_weight := u_weight nu, n_hash := u_csum nu\<rparr>) s, d)
   })"

definition put_node :: "(bytes \<Rightarrow> bytes) \<Rightarrow> user_t \<Rightarrow> u16 \<Rightarrow> servers \<times> disk \<Rightarrow> (servers \<times> disk) option" where
  "put_node sha ou peer sd = (case sd of (s, d) \<Rightarrow> do {
     let nu = get_user zero_user peer 0 d;
     n \<leftarrow> node_at s peer;
     let s = set_node peer (n\<lparr>n_hash := xor4 (n_hash n) (u_csum nu)\<rparr>) s;
     (s, d) \<leftarrow> save_undo peer [(0, nu)] 0 (s, d);
     nu \<leftarrow> init_user sha s peer 0 (u_weight nu + BANK_MIN_UMASS + BANK_MIN_TMASS) (u_pkey ou) (s_now s);
     (s, d) \<leftarrow> put_user nu peer 0 (s, d);
     n \<leftarrow> node_at s peer;
     Some (set_node peer (n\<lparr>n_hash := xor4 (n_hash n) (u_csum nu), n_mtim := s_now s\<rparr>) s, d)
   })"
end
