(* ===== verification/Block_Header.thy ===== *)
theory Block_Header
  imports Servers
begin

text \<open>
  The block part of \<open>class servers\<close> in \<open>common/servers.hpp\<close>: the election of the VIP nodes, the
  hashes that make up the header of a block and the links sent between nodes, the files
  \<open>servers.srv\<close>, \<open>header.hdr\<close> and \<open>*.now\<close>, the signature files, and the step to the next block.
\<close>

section \<open>VIP nodes\<close>

definition get_vipuno :: "servers \<Rightarrow> u16" where
  "get_vipuno s =
     (case filter (\<lambda>i. n_status (s_nodes s ! i) AND SERVER_UNO \<noteq> 0) [1..<length (s_nodes s)] of
        [] \<Rightarrow> 0 | i # _ \<Rightarrow> of_nat i)"

text \<open>
  The nodes that can be VIP, heaviest first; \<open>std::stable_sort\<close> keeps the order of equal weights,
  as \<^const>\<open>sort_key\<close> does.
\<close>

definition vip_candidate :: "servers \<Rightarrow> node \<Rightarrow> bool" where
  "vip_candidate s n \<longleftrightarrow> n_status n AND SERVER_DBL = 0 \<and>
     \<not> (n_mtim n > 0 \<and> n_mtim n < s_now s - BLOCKDIV * BLOCKSEC)"

definition vip_rank :: "servers \<Rightarrow> u16 list" where
  "vip_rank s = sort_key (\<lambda>i. - sint (n_weight (s_nodes s ! unat i)))
     (map of_nat (filter (\<lambda>i. vip_candidate s (s_nodes s ! i)) [1..<length (s_nodes s)]))"

text \<open>The master first, then the other VIP nodes by number.\<close>

definition vip_list :: "servers \<Rightarrow> (u16 \<times> bytes) list option" where
  "vip_list s = (case vip_rank s of [] \<Rightarrow> None
     | m # rest \<Rightarrow> Some ((m, n_pk (s_nodes s ! unat m)) #
         fold (\<lambda>i. m_upd i (n_pk (s_nodes s ! unat i))) (take (VIP_MAX - 1) rest) []))"

definition vip_data :: "(u16 \<times> bytes) list \<Rightarrow> bytes" where
  "vip_data vl = concat (map (\<lambda>(i, pk). le_bytes 2 i @ pk) vl)"

definition update_viphash :: "(bytes \<Rightarrow> bytes) \<Rightarrow> servers \<times> disk \<Rightarrow> (servers \<times> disk) option" where
  "update_viphash sha sd = (case sd of (s, d) \<Rightarrow> do {
     vl \<leftarrow> vip_list s;
     let h = fold (\<lambda>(i, pk) h. addhash sha h pk) vl zero32;
     Some (s\<lparr>s_viphash := h, s_vtot := of_nat (min (length (vip_rank s)) VIP_MAX)\<rparr>,
           d\<lparr>d_vip := (d_vip d)(h := Some (overwrite_bytes (vip_data vl) (d_vip d h)))\<rparr>)
   })"

definition vip_check :: "(bytes \<Rightarrow> bytes) \<Rightarrow> bytes \<Rightarrow> bytes \<Rightarrow> nat \<Rightarrow> bool option" where
  "vip_check sha viphash vipkeys num =
     (if 34 * num \<le> length vipkeys
      then Some (fold (\<lambda>n h. addhash sha h (take 32 (drop (34 * n + 2) vipkeys))) [0..<num] zero32 = viphash)
      else None)"

definition vip_size :: "bytes \<Rightarrow> disk \<Rightarrow> nat option" where
  "vip_size viphash d = map_option (\<lambda>f. length f div 34) (d_vip d viphash)"

definition load_vip :: "bytes \<Rightarrow> disk \<Rightarrow> bytes option" where
  "load_vip vhash d = (case d_vip d vhash of None \<Rightarrow> None | Some f \<Rightarrow> if f = [] then None else Some f)"

function vip_mark :: "u32 \<Rightarrow> bytes \<Rightarrow> node list \<Rightarrow> node list option" where
  "vip_mark marks buf ns =
     (if buf = [] then Some ns
      else do {
        svid \<leftarrow> rdw 0 2 buf;
        if (svid :: u16) = 0 \<or> length ns \<le> unat svid then None
        else (let n = ns ! unat svid in
          vip_mark SERVER_VIP (drop 34 buf) (ns[unat svid := n\<lparr>n_status := n_status n OR marks\<rparr>]))
      })"
  by pat_completeness auto
termination
  by (relation "measure (\<lambda>(marks, buf, ns). length buf)") auto

declare vip_mark.simps [simp del]

definition vip_clear :: "servers \<Rightarrow> servers" where
  "vip_clear s = (case s_nodes s of [] \<Rightarrow> s
     | n0 # ns \<Rightarrow> s\<lparr>s_nodes := n0 # map (\<lambda>n. n\<lparr>n_status := n_status n AND NOT (SERVER_VIP OR SERVER_UNO)\<rparr>) ns\<rparr>)"

definition update_vipstatus :: "(bytes \<Rightarrow> bytes) \<Rightarrow> servers \<times> disk \<Rightarrow> (servers \<times> disk) option" where
  "update_vipstatus sha sd = (case sd of (s, d) \<Rightarrow> do {
     let s = vip_clear s;
     (s, d, buf) \<leftarrow> (case load_vip (s_viphash s) d of
         Some buf \<Rightarrow> Some (s, d, buf)
       | None \<Rightarrow> do {
           (s, d) \<leftarrow> update_viphash sha (s, d);
           Some (s, d, case load_vip (s_viphash s) d of None \<Rightarrow> [] | Some buf \<Rightarrow> buf)
         });
     ns \<leftarrow> vip_mark (SERVER_VIP OR SERVER_UNO) buf (s_nodes s);
     Some (s\<lparr>s_nodes := ns\<rparr>, d)
   })"

section \<open>Hashes\<close>

definition hashnow :: "(bytes \<Rightarrow> bytes) \<Rightarrow> servers \<Rightarrow> servers" where
  "hashnow sha s =
    (let h0 = sha (le_bytes 4 (s_now s) @ le_bytes 4 (s_msg s) @ le_bytes 4 (s_nod s) @ le_bytes 4 (s_div s));
         h = addhash sha (addhash sha (addhash sha h0 (s_nodhash s)) (s_viphash s)) (s_oldhash s)
     in s\<lparr>s_minhash := h, s_nowhash := addhash sha h (s_msghash s)\<rparr>)"

definition node_digest :: "(bytes \<Rightarrow> bytes) \<Rightarrow> 'a node_t_scheme \<Rightarrow> bytes" where
  "node_digest sha n = sha (n_pk n @ csum_bytes (n_hash n) @ n_msha n @ le_bytes 4 (n_msid n) @
     le_bytes 4 (n_mtim n) @ le_bytes 4 (n_status n) @ le_bytes 8 (n_weight n) @ le_bytes 4 (n_users n))"

definition loadlink :: "(bytes \<Rightarrow> bytes) \<Rightarrow> headlink_t \<Rightarrow> u32 \<Rightarrow> bytes \<Rightarrow> servers \<Rightarrow> servers" where
  "loadlink sha link path oldh s = hashnow sha (s\<lparr>s_now := path, s_msg := l_msg link, s_nod := l_nod link,
     s_div := l_div link, s_oldhash := oldh, s_msghash := l_msghash link, s_nodhash := l_nodhash link,
     s_viphash := l_viphash link\<rparr>)"

definition filllink :: "servers \<Rightarrow> headlink_t" where
  "filllink s = \<lparr>l_msg = s_msg s, l_nod = s_nod s, l_div = s_div s, l_msghash = s_msghash s,
     l_nodhash = s_nodhash s, l_viphash = s_viphash s\<rparr>"

definition loadhead :: "(bytes \<Rightarrow> bytes) \<Rightarrow> header_t \<Rightarrow> servers \<Rightarrow> servers" where
  "loadhead sha head s = hashnow sha (s\<lparr>s_now := h_now head, s_msg := h_msg head, s_nod := h_nod head,
     s_div := h_div head, s_oldhash := h_oldhash head, s_msghash := h_msghash head,
     s_nodhash := h_nodhash head, s_viphash := h_viphash head\<rparr>)"

definition header :: "servers \<Rightarrow> header_t" where
  "header s = \<lparr>h_now = s_now s, h_msg = s_msg s, h_nod = s_nod s, h_div = s_div s,
     h_oldhash = s_oldhash s, h_msghash = s_msghash s, h_nodhash = s_nodhash s,
     h_viphash = s_viphash s, h_nowhash = s_nowhash s, h_vok = s_vok s, h_vno = s_vno s\<rparr>"

section \<open>Files of a block\<close>

definition node_data :: "node \<Rightarrow> bytes" where
  "node_data n = n_pk n @ csum_bytes (n_hash n) @ n_msha n @ le_bytes 4 (n_msid n) @ le_bytes 4 (n_mtim n) @
     le_bytes 8 (n_weight n) @ le_bytes 4 (n_status n) @ le_bytes 4 (n_users n) @ le_bytes 4 (n_port n) @
     le_bytes 4 (n_ipv4 n)"

definition header_data :: "servers \<Rightarrow> bytes" where
  "header_data s = le_bytes 4 (1 :: u32) @ le_bytes 4 (s_now s) @ le_bytes 4 (s_msg s) @ le_bytes 4 (s_nod s) @
     le_bytes 4 (s_div s) @ s_oldhash s @ s_minhash s @ s_msghash s @ s_nodhash s @ s_viphash s @
     s_nowhash s @ le_bytes 2 (s_vok s) @ le_bytes 2 (s_vno s) @ le_bytes 2 (s_vtot s)"

text \<open>The node loop runs to \<open>nod\<close>, which can be larger than the vector.\<close>

definition data_write :: "servers \<Rightarrow> bool \<Rightarrow> bytes option" where
  "data_write s write_nodes =
    (if write_nodes \<and> s_nod s \<noteq> 0 then
       if unat (s_nod s) \<le> length (s_nodes s)
       then Some (header_data s @ concat (map node_data (take (unat (s_nod s)) (s_nodes s)))) else None
     else Some (header_data s))"

text \<open>
  A read of \<open>n\<close> bytes into a field stops at the end of the file and leaves the rest of the field:
  the result is the new field and the rest of the file.
\<close>

definition rdf :: "nat \<Rightarrow> bytes \<Rightarrow> bytes \<Rightarrow> bytes \<times> bytes" where
  "rdf n old f = (take n f @ drop (length (take n f)) old, drop n f)"

definition rdfw :: "nat \<Rightarrow> 'a::len word \<Rightarrow> bytes \<Rightarrow> 'a word \<times> bytes" where
  "rdfw n old f = (case rdf n (le_bytes n old) f of (b, f') \<Rightarrow> (le_word b, f'))"

definition node_read :: "node \<Rightarrow> bytes \<Rightarrow> node \<times> bytes" where
  "node_read n f =
    (let (pk, f) = rdf 32 (n_pk n) f;
         (hash, f) = rdf 32 (csum_bytes (n_hash n)) f;
         (msha, f) = rdf 32 (n_msha n) f;
         (msid, f) = rdfw 4 (n_msid n) f;
         (mtim, f) = rdfw 4 (n_mtim n) f;
         (weight, f) = rdfw 8 (n_weight n) f;
         (status, f) = rdfw 4 (n_status n) f;
         (users, f) = rdfw 4 (n_users n) f;
         (port, f) = rdfw 4 (n_port n) f;
         (ipv4, f) = rdfw 4 (n_ipv4 n) f
     in (n\<lparr>n_pk := pk, n_hash := csum_of hash, n_msha := msha, n_msid := msid, n_mtim := mtim,
           n_weight := weight, n_status := status, n_users := users, n_port := port, n_ipv4 := ipv4\<rparr>, f))"

fun nodes_read :: "node list \<Rightarrow> bytes \<Rightarrow> node list" where
  "nodes_read [] f = []"
| "nodes_read (n # ns) f = (case node_read n f of (n', f') \<Rightarrow> n' # nodes_read ns f')"

definition header_read :: "servers \<Rightarrow> bytes \<Rightarrow> servers \<times> bytes" where
  "header_read s f =
    (let f = drop 4 f;
         (now, f) = rdfw 4 (s_now s) f;
         (msg, f) = rdfw 4 (s_msg s) f;
         (nod, f) = rdfw 4 (s_nod s) f;
         (div', f) = rdfw 4 (s_div s) f;
         (oldhash, f) = rdf 32 (s_oldhash s) f;
         (minhash, f) = rdf 32 (s_minhash s) f;
         (msghash, f) = rdf 32 (s_msghash s) f;
         (nodhash, f) = rdf 32 (s_nodhash s) f;
         (viphash, f) = rdf 32 (s_viphash s) f;
         (nowhash, f) = rdf 32 (s_nowhash s) f;
         (vok, f) = rdfw 2 (s_vok s) f;
         (vno, f) = rdfw 2 (s_vno s) f;
         (vtot, f) = rdfw 2 (s_vtot s) f
     in (s\<lparr>s_now := now, s_msg := msg, s_nod := nod, s_div := div', s_oldhash := oldhash,
           s_minhash := minhash, s_msghash := msghash, s_nodhash := nodhash, s_viphash := viphash,
           s_nowhash := nowhash, s_vok := vok, s_vno := vno, s_vtot := vtot\<rparr>, f))"

definition data_read :: "servers \<Rightarrow> bytes option \<Rightarrow> bool \<Rightarrow> u32 \<times> servers" where
  "data_read s file read_nodes = (case file of None \<Rightarrow> (0, s) | Some f \<Rightarrow>
     (let (s, f) = header_read s f in
      if read_nodes \<and> s_nod s \<noteq> 0
      then (s_now s, s\<lparr>s_nodes := nodes_read (vec_resize (unat (s_nod s)) node0 (s_nodes s)) f\<rparr>)
      else (s_now s, s)))"

definition put_servers :: "servers \<times> disk \<Rightarrow> disk option" where
  "put_servers sd = (case sd of (s, d) \<Rightarrow> do {
     data \<leftarrow> data_write s True;
     Some (d\<lparr>d_srv := (d_srv d)(s_now s := Some (overwrite_bytes data (d_srv d (s_now s))))\<rparr>)
   })"

definition header_put :: "servers \<times> disk \<Rightarrow> disk" where
  "header_put sd = (case sd of (s, d) \<Rightarrow>
     d\<lparr>d_hdr := (d_hdr d)(s_now s := Some (overwrite_bytes (header_data s) (d_hdr d (s_now s)))),
       d_srv := (d_srv d)(s_now s := Some (overwrite_bytes (header_data s) (d_srv d (s_now s))))\<rparr>)"

definition header_get :: "servers \<times> disk \<Rightarrow> bool \<times> servers" where
  "header_get sd = (case sd of (s, d) \<Rightarrow>
     case data_read s (d_hdr d (s_now s)) False of (r, s') \<Rightarrow>
       if r = 0 then (False, s') else if s_now s \<noteq> 0 \<and> s_now s \<noteq> s_now s' then (False, s') else (True, s'))"

definition get_servers :: "u32 \<Rightarrow> servers \<times> disk \<Rightarrow> servers" where
  "get_servers path sd = (case sd of (s, d) \<Rightarrow> snd (data_read s (d_srv d path) True))"

definition finish_servers :: "(bytes \<Rightarrow> bytes) \<Rightarrow> servers \<times> disk \<Rightarrow> (servers \<times> disk) option" where
  "finish_servers sha sd = (case sd of (s, d) \<Rightarrow> do {
     (s, d) \<leftarrow> update_viphash sha (s\<lparr>s_nod := of_nat (length (s_nodes s))\<rparr>, d);
     let s = hashnow sha (s\<lparr>s_nodhash := tree_root sha (map (node_digest sha) (s_nodes s))\<rparr>);
     d \<leftarrow> put_servers (s, d);
     Some (clear_undo s, header_put (s, d))
   })"

section \<open>Block hashes by time\<close>

text \<open>\<open>blk/XXX.now\<close> holds the hash of each block of a day at a fixed place.\<close>

definition nowhash_pos :: "u32 \<Rightarrow> nat" where
  "nowhash_pos now = unat ((now AND 0xFFFFF) div BLOCKSEC) * 32"

definition save_nowhash :: "header_t \<Rightarrow> disk \<Rightarrow> disk" where
  "save_nowhash head d =
    (let path = drop_bit 20 (h_now head); pos = nowhash_pos (h_now head);
         f = (case d_now d path of None \<Rightarrow> [] | Some f \<Rightarrow> f);
         f = f @ replicate (pos + 32 - length f) 0
     in d\<lparr>d_now := (d_now d)(path := Some (take pos f @ h_nowhash head @ drop (pos + 32) f))\<rparr>)"

definition load_nowhash :: "servers \<times> disk \<Rightarrow> bool \<times> servers" where
  "load_nowhash sd = (case sd of (s, d) \<Rightarrow>
     case d_now d (drop_bit 20 (s_now s)) of None \<Rightarrow> (False, s)
     | Some f \<Rightarrow> (let h = take 32 (drop (nowhash_pos (s_now s)) f) in
         (length h = 32, s\<lparr>s_nowhash := h @ drop (length h) (s_nowhash s)\<rparr>)))"

section \<open>Signatures\<close>

text \<open>
  A signature file is an array of \<open>svsi_t\<close>, a node number and its signature of the header.
  \<open>ed25519_sign_open\<close> returning 0 is the parameter \<open>verify msg pk sig\<close>.
\<close>

definition save_signature :: "u32 \<Rightarrow> u16 \<Rightarrow> bytes \<Rightarrow> bool \<Rightarrow> servers \<times> disk \<Rightarrow> servers \<times> disk" where
  "save_signature path svid sig ok sd = (case sd of (s, d) \<Rightarrow>
    (let file = (case (if ok then d_sok d path else d_sno d path) of None \<Rightarrow> [] | Some f \<Rightarrow> f) in
     if (svid, sig) \<in> set file then
       (s, if ok then d\<lparr>d_sok := (d_sok d)(path := Some file)\<rparr> else d\<lparr>d_sno := (d_sno d)(path := Some file)\<rparr>)
     else
       (let file' = file @ [(svid, sig)];
            d = (if ok then d\<lparr>d_sok := (d_sok d)(path := Some file')\<rparr> else d\<lparr>d_sno := (d_sno d)(path := Some file')\<rparr>)
        in if path = s_now s
           then (let s = (if ok then s\<lparr>s_vok := of_nat (length file')\<rparr> else s\<lparr>s_vno := of_nat (length file')\<rparr>)
                 in (s, header_put (s, d)))
           else (s, d))))"

definition put_signatures :: "header_t \<Rightarrow> (u16 \<times> bytes) list \<Rightarrow> disk \<Rightarrow> disk option" where
  "put_signatures head svsi d =
    (if unat (h_vok head) + unat (h_vno head) \<le> length svsi
     then Some (d\<lparr>d_sok := (d_sok d)(h_now head := Some (take (unat (h_vok head)) svsi)),
                  d_sno := (d_sno d)(h_now head := Some (take (unat (h_vno head)) (drop (unat (h_vok head)) svsi)))\<rparr>)
     else None)"

text \<open>
  \<open>Some None\<close> is the result \<open>false\<close>; \<open>None\<close> a file with fewer signatures than asked for, which leaves
  part of the caller's buffer uninitialised.
\<close>

definition get_signatures :: "u32 \<Rightarrow> disk \<Rightarrow> nat \<Rightarrow> nat \<Rightarrow> (u16 \<times> bytes) list option option" where
  "get_signatures path d nok nno = (case d_sok d path of None \<Rightarrow> Some None
     | Some oks \<Rightarrow> if length oks < nok then None
         else if nno = 0 then Some (Some (take nok oks))
         else (case d_sno d path of None \<Rightarrow> Some None
           | Some nos \<Rightarrow> if length nos < nno then None else Some (Some (take nok oks @ take nno nos))))"

definition sig_from_vip :: "(bytes \<Rightarrow> bytes \<Rightarrow> bytes \<Rightarrow> bool) \<Rightarrow> servers \<Rightarrow> header_t \<Rightarrow> u16 \<times> bytes \<Rightarrow> bool" where
  "sig_from_vip verify s head ss = (case ss of (svid, sig) \<Rightarrow>
     case node_at s svid of None \<Rightarrow> False
     | Some n \<Rightarrow> n_status n AND SERVER_VIP \<noteq> 0 \<and> verify (header_signed head) (n_pk n) sig)"

definition sig_from_node :: "(bytes \<Rightarrow> bytes \<Rightarrow> bytes \<Rightarrow> bool) \<Rightarrow> servers \<Rightarrow> header_t \<Rightarrow> u16 \<times> bytes \<Rightarrow> bool" where
  "sig_from_node verify s head ss = (case ss of (svid, sig) \<Rightarrow>
     case node_at s svid of None \<Rightarrow> False
     | Some n \<Rightarrow> verify (header_signed head) (n_pk n) sig)"

text \<open>
  \<open>check_signatures\<close> compacts the array in place; the result is the new header, the kept entries
  and the effect of \<open>save_signature\<close>.  The sum \<open>vno + vok\<close> is a \<open>uint16_t\<close>.
\<close>

definition check_signatures ::
  "(bytes \<Rightarrow> bytes \<Rightarrow> bytes \<Rightarrow> bool) \<Rightarrow> header_t \<Rightarrow> (u16 \<times> bytes) list \<Rightarrow> bool \<Rightarrow> servers \<times> disk \<Rightarrow>
   (header_t \<times> (u16 \<times> bytes) list \<times> servers \<times> disk) option" where
  "check_signatures verify head svsi save sd = (case sd of (s, d) \<Rightarrow> do {
     n0 \<leftarrow> node_at s 0;
     let fst_mode = (n_status n0 AND SERVER_FST \<noteq> 0);
     let vok = unat (h_vok head); let tot = unat (h_vno head + h_vok head);
     if length svsi < max vok tot then None else do {
       let oks = (if fst_mode then take vok svsi else filter (sig_from_vip verify s head) (take vok svsi));
       let nos = filter (sig_from_node verify s head) (take (tot - vok) (drop vok svsi));
       let (s, d) = (if save \<and> \<not> fst_mode
          then fold (\<lambda>(svid, sig). save_signature (h_now head) svid sig True) oks (s, d) else (s, d));
       Some (head\<lparr>h_vok := of_nat (length oks), h_vno := of_nat (length nos)\<rparr>, oks @ nos, s, d)
     }
   })"

section \<open>Nodes received from a peer\<close>

definition copy_nodes :: "servers \<Rightarrow> u16 \<Rightarrow> node_t list option" where
  "copy_nodes s peer_srvn =
    (if length (s_nodes s) \<noteq> unat peer_srvn then None else Some (map node_t.truncate (s_nodes s)))"

definition check_nodes :: "(bytes \<Rightarrow> bytes) \<Rightarrow> node_t list \<Rightarrow> bytes \<Rightarrow> bool" where
  "check_nodes sha peer_nodes peer_nodehash \<longleftrightarrow> tree_root sha (map (node_digest sha) peer_nodes) = peer_nodehash"

definition overwrite_node :: "node_t \<Rightarrow> node \<Rightarrow> node" where
  "overwrite_node p n = n\<lparr>n_pk := n_pk p, n_hash := n_hash p, n_msha := n_msha p, n_msid := n_msid p,
     n_mtim := n_mtim p, n_status := n_status p, n_weight := n_weight p, n_users := n_users p,
     n_port := n_port p, n_ipv4 := n_ipv4 p\<rparr>"

definition overwrite_servers :: "header_t \<Rightarrow> node_t list \<Rightarrow> servers \<Rightarrow> servers option" where
  "overwrite_servers head peer_nodes s =
    (let k = unat (h_nod head);
         ns = (if length (s_nodes s) < k then vec_resize k node0 (s_nodes s) else s_nodes s)
     in if length peer_nodes < k then None
        else Some (s\<lparr>s_now := h_now head, s_msg := h_msg head, s_nod := h_nod head, s_div := h_div head,
          s_oldhash := h_oldhash head, s_msghash := h_msghash head, s_nodhash := h_nodhash head,
          s_viphash := h_viphash head, s_nowhash := h_nowhash head, s_vok := h_vok head, s_vno := h_vno head,
          s_nodes := map2 overwrite_node (take k peer_nodes) (take k ns) @ drop k ns\<rparr>))"

section \<open>The next block\<close>

text \<open>
  The dividend is computed in \<open>double\<close>.  \<open>dbl\<close> is the conversion of an integer, to 53 bits with ties
  to even; \<open>dbl_div\<close> is the integer part of the rounded quotient.  The conversion of the quotient to
  \<open>uint32_t\<close> has no defined result when it does not fit.
\<close>

definition round_div :: "int \<Rightarrow> int \<Rightarrow> int" where
  "round_div a b =
    (let q = a div b; r = a mod b in
     if 2 * r < b then q else if 2 * r > b then q + 1 else if even q then q else q + 1)"

fun bitlen :: "nat \<Rightarrow> int \<Rightarrow> nat" where
  "bitlen 0 n = 0"
| "bitlen (Suc k) n = (if n \<le> 0 then 0 else Suc (bitlen k (n div 2)))"

definition dbl :: "int \<Rightarrow> int" where
  "dbl n = (let k = bitlen 64 n - 53 in round_div n (2 ^ k) * 2 ^ k)"

text \<open>\<open>2 ^ e\<close> scales the quotient to at least 53 bits, of which the last ones are rounded away.\<close>

definition dbl_div :: "int \<Rightarrow> int \<Rightarrow> int" where
  "dbl_div a b =
    (let q = a * 2 ^ 128 div b; k = bitlen 256 q - 53 in
     (if q < 2 ^ 53 then 0 else (round_div (a * 2 ^ 128) (b * 2 ^ k) * 2 ^ k) div 2 ^ 128))"

definition next_div :: "servers \<Rightarrow> u32 option" where
  "next_div s =
    (let sum = uint (fold (\<lambda>n acc. acc + n_weight n) (tl (s_nodes s)) 0) in
     if sum < TOTALMASS then
       if sum div 65536 = 0 then None
       else (let q = dbl_div (dbl (TOTALMASS - sum)) (dbl (sum div 65536)) in
             if q < 2 ^ 32 then Some (word_of_int q) else None)
     else Some 0)"

definition blockdir :: "servers \<Rightarrow> servers" where
  "blockdir s = s\<lparr>s_nodes := map (\<lambda>n. n\<lparr>n_changed := vec_resize (1 + unat (n_users n) div 64) 0 (n_changed n)\<rparr>) (s_nodes s)\<rparr>"

definition nextblock :: "(bytes \<Rightarrow> bytes) \<Rightarrow> servers \<times> disk \<Rightarrow> (u32 \<times> servers \<times> disk) option" where
  "nextblock sha sd = (case sd of (s, d) \<Rightarrow> do {
     let s = s\<lparr>s_now := s_now s + BLOCKSEC\<rparr>;
     let num = (s_now s div BLOCKSEC) mod BLOCKDIV;
     dv \<leftarrow> (if num = 0 then next_div s else Some (s_div s));
     let s = blockdir (s\<lparr>s_div := dv\<rparr>);
     (s, d) \<leftarrow> update_vipstatus sha (s\<lparr>s_vok := 0, s_vno := 0\<rparr>, d);
     Some (s_now s - num * BLOCKSEC, s\<lparr>s_msg := 0, s_txs := 0\<rparr>, d)
   })"

end
