(* ===== verification/Keys.thy ===== *)
theory Keys
  imports Servers
begin

text \<open>
  Keys as text: \<open>helper/ascii.cpp\<close>, and the search for the secret keys of a node in the files under
  \<open>key/\<close> (\<open>find_key\<close>, \<open>find_pkey\<close>, \<open>find_more_keys\<close> of \<open>common/servers.hpp\<close>).  The contents of the
  files, as the lines \<open>fgets\<close> returns, and the computation of a public key are parameters, the record
  \<open>keydir\<close>.
\<close>

section \<open>Hexadecimal text\<close>

definition hex_digit :: "nat \<Rightarrow> char" where
  "hex_digit n = (if n < 10 then char_of (48 + n) else char_of (55 + n))"

definition hex_val :: "char \<Rightarrow> nat option" where
  "hex_val c = (let n = of_char c :: nat in
     if 48 \<le> n \<and> n \<le> 57 then Some (n - 48)
     else if 65 \<le> n \<and> n \<le> 70 then Some (n - 55)
     else if 97 \<le> n \<and> n \<le> 102 then Some (n - 87)
     else None)"

definition is_space :: "char \<Rightarrow> bool" where
  "is_space c \<longleftrightarrow> (let n = of_char c :: nat in n = 32 \<or> 9 \<le> n \<and> n \<le> 13)"

text \<open>
  \<open>strtoul\<close> in base 16 on a text of two characters: white space and one sign may come first, and what
  follows the digits is ignored.
\<close>

definition strtoul2 :: "char \<Rightarrow> char \<Rightarrow> u8" where
  "strtoul2 a b = (case hex_val a of
     Some x \<Rightarrow> (case hex_val b of Some y \<Rightarrow> of_nat (16 * x + y) | None \<Rightarrow> of_nat x)
   | None \<Rightarrow>
       (case hex_val b of
          Some y \<Rightarrow> if a = CHR ''-'' then - of_nat y else if is_space a \<or> a = CHR ''+'' then of_nat y else 0
        | None \<Rightarrow> 0))"

fun text_bytes :: "nat \<Rightarrow> string \<Rightarrow> bytes" where
  "text_bytes (Suc n) (a # b # cs) = strtoul2 a b # text_bytes n cs"
| "text_bytes _ _ = []"

definition ed25519_text2key :: "string \<Rightarrow> nat \<Rightarrow> bytes option" where
  "ed25519_text2key text len = (if length text \<ge> 2 * len then Some (text_bytes len text) else None)"

definition ed25519_key2text :: "bytes \<Rightarrow> string" where
  "ed25519_key2text key = concat (map (\<lambda>b. [hex_digit (unat b div 16), hex_digit (unat b mod 16)]) key)"

section \<open>Key files\<close>

record keydir =
  kd_keys :: "string list option"
  kd_more :: "string \<Rightarrow> string list option"
  kd_pub :: "bytes \<Rightarrow> bytes"

definition comment_line :: "string \<Rightarrow> bool" where
  "comment_line l \<longleftrightarrow> (case l of c # _ \<Rightarrow> c = CHR ''#'' | [] \<Rightarrow> False) \<or> length l < 64"

text \<open>\<open>find_key\<close> also leaves the last secret key it tried in \<open>skey\<close> when it fails.\<close>

fun find_key_lines :: "(bytes \<Rightarrow> bytes) \<Rightarrow> bytes \<Rightarrow> bytes \<Rightarrow> string list \<Rightarrow> bool \<times> bytes" where
  "find_key_lines pub pkey skey [] = (False, skey)"
| "find_key_lines pub pkey skey (l # ls) =
    (if comment_line l then find_key_lines pub pkey skey ls
     else (let sk = text_bytes 32 l in
           if pub sk = pkey then (True, sk) else find_key_lines pub pkey sk ls))"

definition find_key :: "keydir \<Rightarrow> bytes \<Rightarrow> bytes \<Rightarrow> bool \<times> bytes" where
  "find_key kd pkey skey = (case kd_keys kd of
     None \<Rightarrow> (False, skey) | Some ls \<Rightarrow> find_key_lines (kd_pub kd) pkey skey ls)"

definition find_pkey :: "keydir \<Rightarrow> bytes option" where
  "find_pkey kd = do {
     ls \<leftarrow> kd_keys kd;
     l \<leftarrow> find (\<lambda>l. \<not> comment_line l) ls;
     Some (kd_pub kd (text_bytes 32 l))
   }"

text \<open>
  \<open>sscanf\<close> with \<open>%hd %64s\<close>; the number keeps its low 16 bits.  \<open>%hd\<close> and \<open>%64s\<close> skip white space.
\<close>

fun scan_digits :: "nat \<Rightarrow> string \<Rightarrow> nat \<times> string" where
  "scan_digits n (c # cs) = (let d = of_char c :: nat in
     if 48 \<le> d \<and> d \<le> 57 then scan_digits (10 * n + (d - 48)) cs else (n, c # cs))"
| "scan_digits n [] = (n, [])"

definition scan_hd :: "string \<Rightarrow> (u16 \<times> string) option" where
  "scan_hd s = (let s = dropWhile is_space s;
       neg = (s \<noteq> [] \<and> hd s = CHR ''-''); sgn = (neg \<or> s \<noteq> [] \<and> hd s = CHR ''+'');
       t = (if sgn then tl s else s); (n, r) = scan_digits 0 t;
       m = (if neg then max (- int n) (- 0x8000000000000000) else min (int n) 0x7FFFFFFFFFFFFFFF) in
     if length r = length t then None else Some (of_int m, r))"

definition scan_key :: "string \<Rightarrow> (u16 \<times> string) option" where
  "scan_key l = do {
     (n, r) \<leftarrow> scan_hd l;
     let k = take 64 (takeWhile (\<lambda>c. \<not> is_space c) (dropWhile is_space r));
     if k = [] then None else Some (n, k)
   }"

definition more_step ::
  "(bytes \<Rightarrow> bytes) \<Rightarrow> servers \<Rightarrow> string \<Rightarrow> (u16, bytes \<times> bytes) amap \<Rightarrow> (u16, bytes \<times> bytes) amap option" where
  "more_step pub s l nk =
    (if comment_line l then Some nk
     else case scan_key l of None \<Rightarrow> Some nk
     | Some (node, k) \<Rightarrow> do {
         sk \<leftarrow> ed25519_text2key k 32;
         Some (if node = 0 then nk
           else case node_at s node of None \<Rightarrow> nk
           | Some n \<Rightarrow> if pub sk \<noteq> n_pk n then nk else m_upd node (sk, pub sk) nk)
       })"

definition find_more_keys ::
  "keydir \<Rightarrow> servers \<Rightarrow> bytes \<Rightarrow> (u16, bytes \<times> bytes) amap \<Rightarrow> (u16, bytes \<times> bytes) amap option" where
  "find_more_keys kd s pkey nk = (case kd_more kd (ed25519_key2text pkey) of
     None \<Rightarrow> Some nk | Some ls \<Rightarrow> ofold (more_step (kd_pub kd) s) ls nk)"

section \<open>Properties\<close>

lemma hex_val_digit:
  assumes "n < 16"
  shows "hex_val (hex_digit n) = Some n"
proof -
  have "n \<in> set [0..<16]" using assms by simp
  then show ?thesis by (auto simp: upt_rec hex_val_def hex_digit_def)
qed

lemma strtoul2_digits: "strtoul2 (hex_digit (unat b div 16)) (hex_digit (unat b mod 16)) = b"
proof -
  have "unat b < 256" using unsigned_less [of b] by simp
  then have "unat b div 16 < 16" by simp
  then show ?thesis by (simp add: strtoul2_def hex_val_digit)
qed

text \<open>
  C16: The text of a key reads back as the key, whatever text follows it, as long as the number of
  bytes asked for is the length of the key.
\<close>

theorem text2key_key2text: "ed25519_text2key (ed25519_key2text key @ rest) (length key) = Some key"
proof -
  have "text_bytes (length key) (ed25519_key2text key @ rest) = key"
    by (induction key) (simp_all add: ed25519_key2text_def strtoul2_digits)
  moreover have "length (ed25519_key2text key) = 2 * length key"
    by (induction key) (simp_all add: ed25519_key2text_def)
  ultimately show ?thesis by (simp add: ed25519_text2key_def)
qed

lemma find_key_lines_found:
  "find_key_lines pub pkey sk ls = (True, sk') \<Longrightarrow> \<exists>l \<in> set ls. \<not> comment_line l \<and> sk' = text_bytes 32 l \<and> pub sk' = pkey"
  by (induction ls arbitrary: sk) (auto simp: Let_def split: if_splits)

lemma find_key_lines_complete:
  "l \<in> set ls \<Longrightarrow> \<not> comment_line l \<Longrightarrow> pub (text_bytes 32 l) = pkey \<Longrightarrow> fst (find_key_lines pub pkey sk ls)"
  by (induction ls arbitrary: sk) (auto simp: Let_def)

text \<open>
  C17: \<open>find_key\<close> succeeds exactly when a line of the key file that is not a comment holds a secret key
  of the public key, and then it returns such a key.
\<close>

theorem find_key_spec:
  "if (\<exists>ls l. kd_keys kd = Some ls \<and> l \<in> set ls \<and> \<not> comment_line l \<and> kd_pub kd (text_bytes 32 l) = pkey)
   then (\<exists>sk. find_key kd pkey skey = (True, sk) \<and> kd_pub kd sk = pkey)
   else \<not> fst (find_key kd pkey skey)"
proof (cases "kd_keys kd")
  case (Some ls)
  obtain b sk where r: "find_key_lines (kd_pub kd) pkey skey ls = (b, sk)" by fastforce
  show ?thesis
    using find_key_lines_found [of "kd_pub kd" pkey skey ls sk] find_key_lines_complete [of _ ls "kd_pub kd" pkey skey]
    by (cases b) (auto simp: find_key_def Some r)
qed (simp add: find_key_def)

text \<open>The keys of other nodes: a secret key is kept only for an existing node whose public key it has.\<close>

definition nkeys_ok :: "(bytes \<Rightarrow> bytes) \<Rightarrow> servers \<Rightarrow> (u16, bytes \<times> bytes) amap \<Rightarrow> bool" where
  "nkeys_ok pub s nk \<longleftrightarrow> (\<forall>i p q. map_of nk i = Some (p, q) \<longrightarrow>
     q = pub p \<and> i \<noteq> 0 \<and> (\<exists>n. node_at s i = Some n \<and> n_pk n = q))"

lemma more_step_keys:
  "more_step pub s l nk = Some nk' \<Longrightarrow> nkeys_ok pub s nk \<Longrightarrow> nkeys_ok pub s nk'"
  by (auto simp: more_step_def nkeys_ok_def map_of_m_upd_eq split: if_splits option.splits prod.splits bind_splits) blast

text \<open>
  C8: \<open>find_more_keys\<close> keeps the invariant of the keys it collects: each belongs to an existing node
  and its public key is the one that node has.
\<close>

theorem find_more_keys_ok:
  assumes "find_more_keys kd s pkey nk = Some nk'" and "nkeys_ok (kd_pub kd) s nk"
  shows "nkeys_ok (kd_pub kd) s nk'"
proof -
  have "ofold (more_step (kd_pub kd) s) ls nk = Some nk' \<Longrightarrow> nkeys_ok (kd_pub kd) s nk'" for ls
    using assms(2) by (induction ls arbitrary: nk) (auto split: bind_splits intro: more_step_keys)
  with assms show ?thesis by (auto simp: find_more_keys_def split: option.splits)
qed

definition demo_keydir :: keydir where
  "demo_keydir = \<lparr>kd_keys = None, kd_more = (\<lambda>_. Some [''# keys'', ''1 '' @ replicate 64 (CHR ''A'')]),
     kd_pub = id\<rparr>"

definition demo_key_nodes :: servers where
  "demo_key_nodes = (servers0 0)\<lparr>s_nodes := [node0, node0\<lparr>n_pk := replicate 32 0xAA\<rparr>]\<rparr>"

theorem find_more_keys_ok_witness:
  "find_more_keys demo_keydir demo_key_nodes [] [] = Some [(1, replicate 32 0xAA, replicate 32 0xAA)] \<and>
   nkeys_ok id demo_key_nodes [(1, replicate 32 0xAA, replicate 32 0xAA)]"
proof -
  have r: "find_more_keys demo_keydir demo_key_nodes [] [] = Some [(1, replicate 32 0xAA, replicate 32 0xAA)]"
    by code_simp
  have "nkeys_ok (kd_pub demo_keydir) demo_key_nodes []" by (simp add: nkeys_ok_def)
  from find_more_keys_ok [OF r this] r show ?thesis by (simp add: demo_keydir_def)
qed

end
