(* ===== verification/Server_State.thy ===== *)
theory Server_State
  imports Block_Header Keys "HOL-Library.List_Lexorder"
begin

text \<open>
  The state of \<open>class server\<close> (\<open>escd/server.hpp\<close>) that the ledger code of \<open>escd/server.cpp\<close> reads and
  writes, and the small functions shared by \<open>process_message\<close>, \<open>undo_message\<close> and the \<open>commit_*\<close>
  functions.  Calls into the office component are recorded as events.  The clock is a parameter:
  the log entries written by one call carry one reading of it.
\<close>

section \<open>State\<close>

datatype ofip_event =
    Ofip_gup_push gup_t
  | Ofip_add_remote_deposit u32 i64
  | Ofip_delete_user u32
  | Ofip_change_pkey bytes
  | Ofip_add_remote_user u16 u32 bytes
  | Ofip_update_block u32 u32 u32

record server =
  srvs :: servers
  last_srvs :: servers
  dsk :: disk
  deposit :: "(u64, i64) amap"
  blk_bky :: "(u64, u16) amap"
  blk_bnk :: "(u64, u32) amap"
  blk_get :: "(u64, get_t) amap"
  blk_usr :: "(u64, usr_t) amap"
  blk_uok :: "(u64, uok_t) amap"
  blk_sbs :: "(u64, u32) amap"
  blk_ubs :: "(u64, u32) amap"
  bank_fee :: "i64 list"
  mydiv_fee :: i64
  myusr_fee :: i64
  myget_fee :: i64
  period_start :: u32
  my_svid :: u16
  do_sync :: bool
  iamvip :: bool
  block_only :: bool
  has_office :: bool
  start_path :: u32
  my_pkey :: bytes
  my_skey :: bytes
  nkeys :: "(u16, bytes \<times> bytes) amap"
  dbl_srvs :: "(u16, unit) amap"
  events :: "ofip_event list"

text \<open>\<open>std::set\<close> of node numbers\<close>

abbreviation set_add :: "'k::linorder \<Rightarrow> ('k, unit) amap \<Rightarrow> ('k, unit) amap" where
  "set_add k s \<equiv> m_upd k () s"

definition event :: "ofip_event \<Rightarrow> server \<Rightarrow> server" where
  "event e s = s\<lparr>events := events s @ [e]\<rparr>"

definition on_srvs :: "(servers \<times> disk \<Rightarrow> (servers \<times> disk) option) \<Rightarrow> server \<Rightarrow> server option" where
  "on_srvs f s = do { (x, d) \<leftarrow> f (srvs s, dsk s); Some (s\<lparr>srvs := x, dsk := d\<rparr>) }"

text \<open>\<open>bank_fee[i] += x\<close>\<close>

definition add_fee :: "u16 \<Rightarrow> i64 \<Rightarrow> server \<Rightarrow> server option" where
  "add_fee i x s = (if unat i < length (bank_fee s)
     then Some (s\<lparr>bank_fee := (bank_fee s)[unat i := bank_fee s ! unat i + x]\<rparr>) else None)"

text \<open>The union \<open>to\<close>: the account in the low half, the node in the high half.\<close>

definition dep_key :: "u32 \<Rightarrow> u32 \<Rightarrow> u64" where
  "dep_key user bank = ucast user OR push_bit 32 (ucast bank)"

definition dep_user :: "u64 \<Rightarrow> u32" where "dep_user k = ucast k"
definition dep_bank :: "u64 \<Rightarrow> u32" where "dep_bank k = ucast (drop_bit 32 k)"

definition deposit_add :: "u64 \<Rightarrow> i64 \<Rightarrow> server \<Rightarrow> server" where
  "deposit_add k x s = s\<lparr>deposit := m_add k x (deposit s)\<rparr>"

section \<open>Transaction keys\<close>

definition make_ppi :: "u16 \<Rightarrow> u32 \<Rightarrow> u32 \<Rightarrow> u16 \<Rightarrow> u16 \<Rightarrow> u64" where
  "make_ppi tmpos omsid am ab bb =
     ucast tmpos OR push_bit 16 (ucast (ucast (am - omsid) :: u16)) OR push_bit 32 (ucast ab) OR
     push_bit 48 (ucast bb)"

definition ppi_v16 :: "nat \<Rightarrow> u64 \<Rightarrow> u16" where
  "ppi_v16 i ppi = ucast (drop_bit (16 * i) ppi)"

definition ppi_abank :: "u64 \<Rightarrow> u16" where "ppi_abank ppi = ppi_v16 2 ppi"
definition ppi_bbank :: "u64 \<Rightarrow> u16" where "ppi_bbank ppi = ppi_v16 3 ppi"

text \<open>
  \<open>ppi_txid\<close> overwrites \<open>v16[3]\<close> with the position before it uses it as the number of the node
  whose \<open>msid\<close> it looks up; \<open>None\<close> when that is out of range.  It also writes the result into the
  key it was given a constant reference to; each key is not used again before its map is cleared.
\<close>

definition ppi_txid :: "server \<Rightarrow> u64 \<Rightarrow> u64 option" where
  "ppi_txid s ppi = do {
     n \<leftarrow> node_at (last_srvs s) (ppi_v16 0 ppi);
     let lo = n_msid n + ucast (ppi_v16 1 ppi);
     Some (ucast lo OR push_bit 32 (ucast (ppi_v16 2 ppi)) OR push_bit 48 (ucast (ppi_v16 0 ppi)))
   }"

section \<open>Logs\<close>

definition log_key :: "u32 \<Rightarrow> u32 \<Rightarrow> u64" where
  "log_key user lpos = push_bit 32 (ucast user) OR ucast lpos"

definition del_msglog :: "u32 \<Rightarrow> u16 \<Rightarrow> u32 \<Rightarrow> disk \<Rightarrow> disk" where
  "del_msglog now sv ms d = d\<lparr>d_log := (d_log d)((now, sv, ms) := None)\<rparr>"

definition put_msglog :: "u32 \<Rightarrow> u16 \<Rightarrow> u32 \<Rightarrow> (u64, log_t) amap \<Rightarrow> disk \<Rightarrow> disk" where
  "put_msglog now sv ms lg d =
    (let old = (if ms \<noteq> 0 then [] else case d_log d (now, sv, ms) of None \<Rightarrow> [] | Some f \<Rightarrow> f);
         new = map (\<lambda>(k, l). (ucast (drop_bit 32 k), l)) lg
     in d\<lparr>d_log := (d_log d)((now, sv, ms) := Some (old @ new))\<rparr>)"

text \<open>
  \<open>class Hlog\<close> of \<open>helper/hlog.cpp\<close>: the packed records of a block's history log, as the bytes that
  were saved so far.
\<close>

definition save_uso :: "u32 \<Rightarrow> u32 \<Rightarrow> u64 \<Rightarrow> u64 \<Rightarrow> bytes \<Rightarrow> bytes" where
  "save_uso au bu atxid btxid hl = hl @ 1 # le_bytes 4 au @ le_bytes 4 bu @ le_bytes 8 atxid @ le_bytes 8 btxid"
definition save_uok :: "u16 \<Rightarrow> u32 \<Rightarrow> u32 \<Rightarrow> u64 \<Rightarrow> bytes \<Rightarrow> bytes" where
  "save_uok ab au bu btxid hl = hl @ 2 # le_bytes 2 ab @ le_bytes 4 au @ le_bytes 4 bu @ le_bytes 8 btxid"
definition save_usr :: "u32 \<Rightarrow> u16 \<Rightarrow> u64 \<Rightarrow> bytes \<Rightarrow> bytes" where
  "save_usr au bb atxid hl = hl @ 3 # le_bytes 4 au @ le_bytes 2 bb @ le_bytes 8 atxid"
definition save_bky :: "u16 \<Rightarrow> u64 \<Rightarrow> bytes \<Rightarrow> bytes" where
  "save_bky bb atxid hl = hl @ 4 # le_bytes 2 bb @ le_bytes 8 atxid"
definition save_sbs :: "u16 \<Rightarrow> u32 \<Rightarrow> u64 \<Rightarrow> bytes \<Rightarrow> bytes" where
  "save_sbs bb status atxid hl = hl @ 5 # le_bytes 2 bb @ le_bytes 4 status @ le_bytes 8 atxid"
definition save_ubs :: "u16 \<Rightarrow> u32 \<Rightarrow> u64 \<Rightarrow> bytes \<Rightarrow> bytes" where
  "save_ubs bb status atxid hl = hl @ 6 # le_bytes 2 bb @ le_bytes 4 status @ le_bytes 8 atxid"
definition save_bnk :: "u32 \<Rightarrow> u16 \<Rightarrow> u64 \<Rightarrow> bytes \<Rightarrow> bytes" where
  "save_bnk au bb atxid hl = hl @ 7 # le_bytes 4 au @ le_bytes 2 bb @ le_bytes 8 atxid"
definition save_get :: "u32 \<Rightarrow> u16 \<Rightarrow> u32 \<Rightarrow> u64 \<Rightarrow> bytes \<Rightarrow> bytes" where
  "save_get au bb bu atxid hl = hl @ 8 # le_bytes 4 au @ le_bytes 2 bb @ le_bytes 4 bu @ le_bytes 8 atxid"

section \<open>Dividends\<close>

text \<open>The value \<open>0x8FFFFFFFFFFFFFFF\<close> marks an account that is not due; the fee is added to \<open>fee\<close>.\<close>

definition NO_DIV :: i64 where "NO_DIV = 0x8FFFFFFFFFFFFFFF"

definition div_due :: "server \<Rightarrow> user_t \<Rightarrow> bool" where
  "div_due s u \<longleftrightarrow> u_rpath u < period_start s \<and> u_lpath u < period_start s"

definition div_gross :: "server \<Rightarrow> user_t \<Rightarrow> i64" where
  "div_gross s u =
    (if u_lpath u < s_now (srvs s) - ACCOUNT_DORMANT_AGE then - TXS_GOK_FEE (u_weight u)
     else if u_lpath u < s_now (srvs s) - ACCOUNT_INACTIVE_AGE then 0
     else signed_drop_bit 16 (u_weight u) * ucast (s_div (srvs s)))"

definition dividend :: "server \<Rightarrow> user_t \<Rightarrow> i64 \<Rightarrow> i64 \<times> user_t \<times> i64" where
  "dividend s u fee =
    (if div_due s u then
       (let dv = div_gross s u - TXS_DIV_FEE;
            (dv, fee) = (if slt64 dv (- u_weight u) then (- u_weight u, fee) else (dv, fee + TXS_DIV_FEE))
        in (dv, u\<lparr>u_rpath := s_now (srvs s), u_weight := u_weight u + dv\<rparr>, fee))
     else (NO_DIV, u, fee))"

section \<open>Votes on node status bits\<close>

text \<open>The counters are \<open>uint8_t\<close>.\<close>

definition bitcount :: "u8 list \<Rightarrow> u8 \<Rightarrow> u8" where
  "bitcount bitvotes mn =
    (if length bitvotes \<le> unat mn then 0
     else fold (\<lambda>i res. if fold (\<lambda>b c. c + (drop_bit i b AND 1)) bitvotes (0 :: u8) > mn
                        then res OR push_bit i 1 else res) [0..<8] 0)"

section \<open>Storing an account\<close>

text \<open>
  The sequence that stores a changed account: its old checksum leaves the node hash, the new one
  enters it, the node weight follows the balance, and the record goes back to the file.  The code
  writes only the part of the record from \<open>stat\<close> or \<open>rpath\<close> on, the rest is unchanged.  \<open>u\<close> still has
  the checksum that was read.
\<close>

definition store_user :: "(bytes \<Rightarrow> bytes) \<Rightarrow> u16 \<Rightarrow> u32 \<Rightarrow> user_t \<Rightarrow> i64 \<Rightarrow> server \<Rightarrow> server option" where
  "store_user sha sv uid u delta s = do {
     n \<leftarrow> node_at (srvs s) sv;
     let u' = user_csum sha u sv uid; let d = dsk s;
     Some (s\<lparr>srvs := set_node sv (n\<lparr>n_hash := xor4 (xor4 (n_hash n) (u_csum u)) (u_csum u'),
                                    n_weight := n_weight n + delta\<rparr>) (srvs s),
             dsk := d\<lparr>d_usr := (d_usr d)(sv := fput uid u' (d_usr d sv))\<rparr>\<rparr>)
   }"

definition my_div_fee :: "u16 \<Rightarrow> i64 \<Rightarrow> server \<Rightarrow> server" where
  "my_div_fee sv x s = (if sv = my_svid s then s\<lparr>mydiv_fee := mydiv_fee s + x\<rparr> else s)"

end
