(* ===== verification/Ledger.thy ===== *)
theory Ledger
  imports Server_State
begin

text \<open>
  The invariant of the ledger, shared by the theories on blocks and messages: every node keeps the
  sum of the balances and the XOR of the checksums of its accounts, so \<open>check_nodehash\<close> succeeds.
  The lemmas show that the operations the server composes (storing an account, saving undo data)
  are defined on a state with the invariant and keep it.
\<close>

section \<open>The invariant\<close>

text \<open>
  An account was created (\<open>msid\<close> is not 0), and when a dividend is due its balance is not so large
  that the dividend could be mistaken for the mark \<open>NO_DIV\<close>.
\<close>

definition acc_ok :: "u32 \<Rightarrow> user_t \<Rightarrow> bool" where
  "acc_ok ps u \<longleftrightarrow> u_msid u \<noteq> 0 \<and>
     (u_rpath u < ps \<and> u_lpath u < ps \<longrightarrow> \<bar>sint (u_weight u)\<bar> \<le> 0x7000000000000000)"

definition bank_inv :: "u32 \<Rightarrow> node \<Rightarrow> ufile \<Rightarrow> bool" where
  "bank_inv ps n f \<longleftrightarrow> n_users n \<noteq> 0 \<and> unat (n_users n) \<le> length f \<and>
     n_weight n = wsum (unat (n_users n)) (nth f) \<and> n_hash n = csum (unat (n_users n)) (nth f) \<and>
     (unat (n_users n) - 1) div 64 < length (n_changed n) \<and>
     (\<forall>i < unat (n_users n). acc_ok ps (f ! i))"

definition ledger :: "servers \<Rightarrow> (u16 \<Rightarrow> ufile) \<Rightarrow> nat \<Rightarrow> u32 \<Rightarrow> bool" where
  "ledger x fs nb ps \<longleftrightarrow> s_nodes x \<noteq> [] \<and> length (s_nodes x) < 65536 \<and> nb = length (s_nodes x) \<and>
     ps \<le> s_now x \<and> n_users (s_nodes x ! 0) = 0 \<and>
     (\<forall>i. 0 < i \<and> i < length (s_nodes x) \<longrightarrow> bank_inv ps (s_nodes x ! i) (fs (of_nat i))) \<and>
     (\<exists>i. 0 < i \<and> i < length (s_nodes x) \<and> n_status (s_nodes x ! i) AND SERVER_VIP \<noteq> 0)"

abbreviation ledger_ok :: "server \<Rightarrow> bool" where
  "ledger_ok s \<equiv> ledger (srvs s) (d_usr (dsk s)) (length (bank_fee s)) (period_start s)"

text \<open>What a block keeps while it runs: nodes and accounts that exist go on to exist.\<close>

definition grows :: "servers \<Rightarrow> servers \<Rightarrow> bool" where
  "grows x y \<longleftrightarrow> s_now y = s_now x \<and> length (s_nodes x) \<le> length (s_nodes y) \<and>
     (\<forall>i < length (s_nodes x). n_users (s_nodes y ! i) = n_users (s_nodes x ! i))"

definition queues :: "server \<Rightarrow> (u64, u16) amap \<times> (u64, u32) amap \<times> (u64, get_t) amap \<times> (u64, usr_t) amap \<times>
    (u64, uok_t) amap \<times> (u64, u32) amap \<times> (u64, u32) amap" where
  "queues s = (blk_bky s, blk_bnk s, blk_get s, blk_usr s, blk_uok s, blk_sbs s, blk_ubs s)"

definition ext :: "server \<Rightarrow> server \<Rightarrow> bool" where
  "ext s t \<longleftrightarrow> last_srvs t = last_srvs s \<and> period_start t = period_start s \<and> grows (srvs s) (srvs t) \<and>
     queues t = queues s"

text \<open>The parts of the state the ledger depends on are unchanged.\<close>

definition same :: "server \<Rightarrow> server \<Rightarrow> bool" where
  "same s t \<longleftrightarrow> srvs t = srvs s \<and> d_usr (dsk t) = d_usr (dsk s) \<and> deposit t = deposit s \<and>
     length (bank_fee t) = length (bank_fee s) \<and> last_srvs t = last_srvs s \<and>
     period_start t = period_start s \<and> queues t = queues s"

definition valid_acc :: "servers \<Rightarrow> u16 \<Rightarrow> u32 \<Rightarrow> bool" where
  "valid_acc x i uid \<longleftrightarrow> i \<noteq> 0 \<and> check_user x i uid"

section \<open>Nodes\<close>

lemma valid_acc_iff:
  "valid_acc x i uid \<longleftrightarrow> i \<noteq> 0 \<and> unat i < length (s_nodes x) \<and> uid < n_users (s_nodes x ! unat i)"
  by (auto simp: valid_acc_def check_user_def node_at_def)

lemma node_at_Some [simp]: "unat i < length (s_nodes x) \<Longrightarrow> node_at x i = Some (s_nodes x ! unat i)"
  by (simp add: node_at_def)

lemma s_nodes_set_node [simp]: "s_nodes (set_node i n x) = (s_nodes x)[unat i := n]"
  by (simp add: set_node_def)

lemma s_now_set_node [simp]: "s_now (set_node i n x) = s_now x"
  by (simp add: set_node_def)

lemma unat_u16_of_nat: "i < 65536 \<Longrightarrow> unat (of_nat i :: u16) = i"
  by (simp add: unat_of_nat take_bit_nat_eq_self)

lemma unat_pos: "(i :: 'a::len word) \<noteq> 0 \<longleftrightarrow> 0 < unat i"
  by (simp add: neq0_conv [symmetric] unsigned_eq_0_iff del: neq0_conv)

lemma grows_refl [simp]: "grows x x"
  by (simp add: grows_def)

lemma grows_trans: "grows x y \<Longrightarrow> grows y z \<Longrightarrow> grows x z"
  by (fastforce simp: grows_def)

lemma ext_refl [simp]: "ext s s"
  by (simp add: ext_def)

lemma ext_trans: "ext s t \<Longrightarrow> ext t u \<Longrightarrow> ext s u"
  using grows_trans by (auto simp: ext_def)

lemma grows_set_node:
  "unat i < length (s_nodes x) \<Longrightarrow> n_users n = n_users (s_nodes x ! unat i) \<Longrightarrow> grows x (set_node i n x)"
  by (simp add: grows_def nth_list_update)

lemma valid_acc_grows: "grows x y \<Longrightarrow> valid_acc x i uid \<Longrightarrow> valid_acc y i uid"
  by (auto simp: grows_def valid_acc_iff)

lemma valid_acc_ext: "ext s t \<Longrightarrow> valid_acc (srvs s) i uid \<Longrightarrow> valid_acc (srvs t) i uid"
  using valid_acc_grows by (auto simp: ext_def)

section \<open>The invariant under single changes\<close>

lemma ledger_bank:
  "ledger x fs nb ps \<Longrightarrow> i \<noteq> 0 \<Longrightarrow> unat i < length (s_nodes x) \<Longrightarrow> bank_inv ps (s_nodes x ! unat i) (fs i)"
  by (auto simp: ledger_def unat_pos)

lemma ledger_set:
  assumes "ledger x fs nb ps" and "unat i < length (s_nodes x)" and "i \<noteq> 0 \<Longrightarrow> bank_inv ps n f"
    and "i = 0 \<Longrightarrow> n_users n = 0 \<and> f = fs i"
    and "n_status n AND SERVER_VIP = n_status (s_nodes x ! unat i) AND SERVER_VIP"
  shows "ledger (set_node i n x) (fs(i := f)) nb ps"
proof -
  have len: "length (s_nodes x) < 65536" using assms(1) by (simp add: ledger_def)
  have "bank_inv ps ((s_nodes x)[unat i := n] ! j) ((fs(i := f)) (of_nat j))"
    if "0 < j" "j < length (s_nodes x)" for j
  proof (cases "j = unat i")
    case True
    then show ?thesis using assms(2,3) that by (auto simp: unat_pos)
  next
    case False
    then have "of_nat j \<noteq> i" using unat_u16_of_nat [of j] that len by auto
    then show ?thesis using False that assms(1) by (simp add: ledger_def nth_list_update)
  qed
  moreover have "n_users ((s_nodes x)[unat i := n] ! 0) = 0"
    using assms(1,2,4) by (cases "unat i = 0") (auto simp: ledger_def nth_list_update unat_eq_0)
  moreover obtain v where v: "0 < v" "v < length (s_nodes x)" "n_status (s_nodes x ! v) AND SERVER_VIP \<noteq> 0"
    using assms(1) by (auto simp: ledger_def)
  then have "n_status ((s_nodes x)[unat i := n] ! v) AND SERVER_VIP \<noteq> 0"
    using assms(5) by (cases "v = unat i") (auto simp: nth_list_update)
  then have "\<exists>v. 0 < v \<and> v < length (s_nodes x) \<and> n_status ((s_nodes x)[unat i := n] ! v) AND SERVER_VIP \<noteq> 0"
    using v by blast
  ultimately show ?thesis using assms(1) by (simp add: ledger_def)
qed

lemma nth_fput_upd:
  "i < n \<Longrightarrow> n \<le> length f \<Longrightarrow> unat uid < n \<Longrightarrow> fput uid u f ! i = ((nth f)(unat uid := u)) i"
  using nth_fput [of i uid u f] length_fput [of uid u f] by auto

lemma user_csum_simps [simp]:
  "u_weight (user_csum sha u sv uid) = u_weight u" "u_msid (user_csum sha u sv uid) = u_msid u"
  "u_rpath (user_csum sha u sv uid) = u_rpath u" "u_lpath (user_csum sha u sv uid) = u_lpath u"
  by (simp_all add: user_csum_def)

lemma acc_ok_user_csum [simp]: "acc_ok ps (user_csum sha u sv uid) = acc_ok ps u"
  by (simp add: acc_ok_def)

text \<open>Storing an account that differs by \<open>delta\<close> from the one in the file.\<close>

lemma bank_inv_store:
  fixes sha :: "bytes \<Rightarrow> bytes" and sv :: u16
  assumes "bank_inv ps n f" and "uid < n_users n" and "u_csum u = u_csum (f ! unat uid)"
    and "u_weight u = u_weight (f ! unat uid) + delta" and "acc_ok ps u"
  defines "u' \<equiv> user_csum sha u sv uid"
  shows "bank_inv ps (n\<lparr>n_hash := xor4 (xor4 (n_hash n) (u_csum u)) (u_csum u'), n_weight := n_weight n + delta\<rparr>)
    (fput uid u' f)"
proof -
  let ?k = "unat (n_users n)" and ?v = "(nth f)(unat uid := u')"
  have lt: "unat uid < ?k" using assms(2) by (simp add: word_less_nat_alt)
  have len: "?k \<le> length f" using assms(1) by (simp add: bank_inv_def)
  have eq: "i < ?k \<Longrightarrow> fput uid u' f ! i = ?v i" for i using nth_fput_upd [of i ?k f uid u'] len lt by simp
  have "wsum ?k (nth (fput uid u' f)) = wsum ?k ?v" by (rule wt.total_cong) (simp add: eq)
  also have "\<dots> = wsum ?k (nth f) + delta"
    by (rule wt.total_write [OF lt refl]) (simp add: assms(4) u'_def add.commute)
  finally have w: "n_weight n + delta = wsum ?k (nth (fput uid u' f))"
    using assms(1) by (simp add: bank_inv_def)
  have "csum ?k (nth (fput uid u' f)) = csum ?k ?v" by (rule cs.total_cong) (simp add: eq)
  also have "\<dots> = xor4 (csum ?k (nth f)) (xor4 (u_csum u) (u_csum u'))"
    by (rule cs.total_write [OF lt refl]) (metis assms(3) cs.cancel xor4_laws(1,2))
  finally have c: "xor4 (xor4 (n_hash n) (u_csum u)) (u_csum u') = csum ?k (nth (fput uid u' f))"
    using assms(1) by (simp add: bank_inv_def xor4_laws(1))
  have "acc_ok ps (fput uid u' f ! i)" if "i < ?k" for i
    using eq [OF that] assms(1,5) that by (auto simp: bank_inv_def u'_def)
  then show ?thesis using assms(1) len w c lt by (simp add: bank_inv_def length_fput)
qed

lemma store_user_runs:
  assumes "ledger_ok s" and "valid_acc (srvs s) sv uid"
    and "fget (d_usr (dsk s) sv) uid = Some u0" and "u_csum u = u_csum u0"
    and "u_weight u = u_weight u0 + delta" and "acc_ok (period_start s) u"
  shows "\<exists>x d. store_user sha sv uid u delta s = Some (s\<lparr>srvs := x, dsk := d\<rparr>) \<and>
    ledger x (d_usr d) (length (bank_fee s)) (period_start s) \<and> grows (srvs s) x"
proof -
  let ?n = "s_nodes (srvs s) ! unat sv"
  have sv: "sv \<noteq> 0" "unat sv < length (s_nodes (srvs s))" "uid < n_users ?n"
    using assms(2) by (simp_all add: valid_acc_iff)
  have b: "bank_inv (period_start s) ?n (d_usr (dsk s) sv)" using ledger_bank [OF assms(1) sv(1,2)] .
  have "u0 = d_usr (dsk s) sv ! unat uid" using assms(3) by (simp add: fget_def split: if_splits)
  note inv = bank_inv_store [OF b sv(3) _ _ assms(6), of delta sha sv, unfolded this [symmetric], OF assms(4,5)]
  have "ledger (set_node sv (?n\<lparr>n_hash := xor4 (xor4 (n_hash ?n) (u_csum u)) (u_csum (user_csum sha u sv uid)),
      n_weight := n_weight ?n + delta\<rparr>) (srvs s))
    ((d_usr (dsk s))(sv := fput uid (user_csum sha u sv uid) (d_usr (dsk s) sv)))
    (length (bank_fee s)) (period_start s)"
    using inv sv by (intro ledger_set [OF assms(1)]) simp_all
  then show ?thesis
    by (simp add: store_user_def Let_def sv(2)) (intro exI conjI, rule refl, simp_all add: sv grows_set_node)
qed

section \<open>The check of a node\<close>

lemma nodehash_loop_total:
  "k \<le> length f \<Longrightarrow> nodehash_loop k f c w = Some (xor4 c (csum k (nth f)), w + wsum k (nth f))"
proof (induction k f c w rule: nodehash_loop.induct)
  case (1 f c w)
  then show ?case by (simp add: xor4_laws)
next
  case (3 k u f c w)
  have "csum (Suc k) (nth (u # f)) = xor4 (u_csum u) (csum k (nth f))"
    and "wsum (Suc k) (nth (u # f)) = u_weight u + wsum k (nth f)"
    using cs.total_shift [of k "nth (u # f)"] wt.total_shift [of k "nth (u # f)"] by simp_all
  with 3 show ?case by (simp add: xor4_laws(1))
qed simp

lemma xor4_zero: "xor4 (0, 0, 0, 0) c = c"
  using xor4_laws(2,3) by metis

lemma check_nodehash_ledger:
  "ledger x (d_usr d) nb ps \<Longrightarrow> i \<noteq> 0 \<Longrightarrow> unat i < length (s_nodes x) \<Longrightarrow> check_nodehash (x, d) i = Some True"
  using ledger_bank [of x "d_usr d" nb ps i]
  by (simp add: check_nodehash_def bank_inv_def nodehash_loop_total xor4_zero)

section \<open>Undo files\<close>

lemma save_undo_loop_runs:
  "\<forall>(k, u) \<in> set undo. unat k div 64 < length ch \<Longrightarrow>
    \<exists>ch' f'. save_undo_loop undo ch f = Some (ch', f') \<and> length ch' = length ch"
  by (induction undo ch f rule: save_undo_loop.induct) (auto simp: Let_def)

definition undo_ok :: "servers \<Rightarrow> u16 \<Rightarrow> (u32, user_t) amap \<Rightarrow> bool" where
  "undo_ok x sv undo \<longleftrightarrow> (\<forall>(k, u) \<in> set undo. valid_acc x sv k)"

lemma undo_ok_Nil [simp]: "undo_ok x sv []"
  by (simp add: undo_ok_def)

lemma undo_ok_grows: "grows x y \<Longrightarrow> undo_ok x sv undo \<Longrightarrow> undo_ok y sv undo"
  using valid_acc_grows by (fastforce simp: undo_ok_def)

lemma undo_ok_m_ins: "undo_ok x sv undo \<Longrightarrow> valid_acc x sv k \<Longrightarrow> undo_ok x sv (m_ins k u undo)"
  using set_m_upd_subset [of k u undo] by (fastforce simp: undo_ok_def m_ins_def split: option.splits)

lemma save_undo_runs:
  assumes "ledger_ok s" and "unat sv < length (s_nodes (srvs s))" and "undo_ok (srvs s) sv undo"
  shows "\<exists>x d. on_srvs (save_undo sv undo 0) s = Some (s\<lparr>srvs := x, dsk := d\<rparr>) \<and>
    ledger x (d_usr d) (length (bank_fee s)) (period_start s) \<and> grows (srvs s) x \<and> d_usr d = d_usr (dsk s)"
proof -
  let ?n = "s_nodes (srvs s) ! unat sv"
  let ?n1 = "if n_users ?n \<le> 0 then ?n\<lparr>n_users := 0, n_changed := vec_resize (1 + unat (0 :: u32) div 64) 0 (n_changed ?n)\<rparr> else ?n"
  have users: "n_users ?n1 = n_users ?n" by simp
  have ch: "unat k div 64 < length (n_changed ?n1)" if "(k, u) \<in> set undo" for k u
  proof -
    have v: "sv \<noteq> 0" "k < n_users ?n" using assms(3) that by (auto simp: undo_ok_def valid_acc_iff)
    then have "unat k \<le> unat (n_users ?n) - 1" "n_users ?n \<noteq> 0" by (auto simp: word_less_nat_alt)
    moreover have "(unat (n_users ?n) - 1) div 64 < length (n_changed ?n)"
      using ledger_bank [OF assms(1) v(1) assms(2)] by (simp add: bank_inv_def)
    ultimately show ?thesis by (auto intro: div_le_mono le_less_trans simp: word_le_nat_alt unsigned_eq_0_iff)
  qed
  then have "\<forall>(k, u) \<in> set undo. unat k div 64 < length (n_changed ?n1)" by blast
  from save_undo_loop_runs [OF this] obtain ch' f' where r: "save_undo_loop undo (n_changed ?n1) (d_und (dsk s) (s_now (srvs s), sv)) = Some (ch', f')"
    and l: "length ch' = length (n_changed ?n1)" by blast
  have inv: "bank_inv (period_start s) (?n1\<lparr>n_changed := ch'\<rparr>) (d_usr (dsk s) sv)" if "sv \<noteq> 0"
    using ledger_bank [OF assms(1) that assms(2)] l by (auto simp: bank_inv_def word_le_nat_alt unat_eq_0)
  have "ledger (set_node sv (?n1\<lparr>n_changed := ch'\<rparr>) (srvs s)) ((d_usr (dsk s))(sv := d_usr (dsk s) sv))
    (length (bank_fee s)) (period_start s)"
    using assms(1,2) inv users by (intro ledger_set [OF assms(1)]) (auto simp: ledger_def)
  moreover have "grows (srvs s) (set_node sv (?n1\<lparr>n_changed := ch'\<rparr>) (srvs s))"
    using users assms(2) by (intro grows_set_node) simp_all
  moreover have "save_undo sv undo 0 (srvs s, dsk s) = Some (set_node sv (?n1\<lparr>n_changed := ch'\<rparr>) (srvs s),
      (dsk s)\<lparr>d_und := (d_und (dsk s))((s_now (srvs s), sv) := f')\<rparr>)"
    by (simp only: save_undo_def prod.case node_at_Some [OF assms(2)] bind.bind_lunit Let_def r)
  ultimately show ?thesis unfolding on_srvs_def
    by (simp only: bind.bind_lunit prod.case) (intro exI conjI, rule refl, simp_all)
qed

section \<open>Dividends\<close>

lemma neg_sint: "sint (w :: i64) \<noteq> - (2 ^ 63) \<Longrightarrow> sint (- w) = - sint w"
proof -
  assume "sint w \<noteq> - (2 ^ 63)"
  moreover have "- w = word_of_int (- sint w)" by simp
  ultimately show ?thesis using sint_i64_range [of w] sint_of_int_small [of "- sint w"] by simp
qed

text \<open>The dividend of a good account is never the mark for an account that is not due.\<close>

lemma dividend_cases:
  assumes "dividend s u fee = (dv, u', fee')" and "acc_ok (period_start s) u"
    and "period_start s \<le> s_now (srvs s)"
  shows "u_csum u' = u_csum u" "u_weight u' = u_weight u + (if dv = NO_DIV then 0 else dv)"
    "acc_ok (period_start s) u'" "\<not> div_due s u'" "u_pkey u' = u_pkey u"
proof -
  have "dv \<noteq> NO_DIV" if d: "div_due s u"
  proof -
    have w: "\<bar>sint (u_weight u)\<bar> \<le> 0x7000000000000000" using d assms(2) by (simp add: acc_ok_def div_due_def)
    then have "sint (- u_weight u) = - sint (u_weight u)" by (intro neg_sint) auto
    moreover have "sint NO_DIV < - 0x7000000000000000" by (simp add: NO_DIV_def)
    moreover have "sint dv \<ge> sint (- u_weight u)"
      using assms(1) d by (auto simp: dividend_def Let_def slt64_def not_less split: if_splits)
    ultimately show ?thesis using w by auto
  qed
  then show "u_csum u' = u_csum u" "u_weight u' = u_weight u + (if dv = NO_DIV then 0 else dv)"
    "acc_ok (period_start s) u'" "\<not> div_due s u'" "u_pkey u' = u_pkey u"
    using assms by (auto simp: dividend_def Let_def acc_ok_def div_due_def split: if_splits)
qed

section \<open>Deposits\<close>

definition deposits_ok :: "servers \<Rightarrow> (u64, i64) amap \<Rightarrow> bool" where
  "deposits_ok x dep \<longleftrightarrow> (\<forall>(k, v) \<in> set dep. v \<noteq> 0 \<longrightarrow> valid_acc x (ucast (dep_bank k)) (dep_user k))"

text \<open>The ledger together with deposits that are owed to existing accounts.\<close>

abbreviation block_ok :: "server \<Rightarrow> bool" where
  "block_ok s \<equiv> ledger_ok s \<and> deposits_ok (srvs s) (deposit s)"

lemma dep_user_key [simp]: "dep_user (dep_key u b) = u"
  by (rule bit_word_eqI) (auto simp: dep_user_def dep_key_def bit_simps)

lemma dep_bank_key [simp]: "dep_bank (dep_key u b) = b"
  by (rule bit_word_eqI) (auto simp: dep_bank_def dep_key_def bit_simps dest: bit_imp_le_length)

lemma ucast_u16_u32 [simp]: "(ucast (ucast (w :: u16) :: u32) :: u16) = w"
  by (rule bit_word_eqI) (auto simp: bit_simps)

lemma ucast_u16_flag [simp]: "(ucast (ucast (w :: u16) OR 0x10000 :: u32) :: u16) = w"
proof -
  have "(ucast (0x10000 :: u32) :: u16) = 0" by simp
  moreover have "(ucast (a OR b :: u32) :: u16) = ucast a OR ucast b" for a b
    by (rule bit_word_eqI) (auto simp: bit_simps)
  ultimately show ?thesis by (simp only: ucast_u16_u32 or.right_neutral)
qed

lemma deposits_ok_grows: "grows x y \<Longrightarrow> deposits_ok x dep \<Longrightarrow> deposits_ok y dep"
  using valid_acc_grows by (fastforce simp: deposits_ok_def)

lemma deposits_ok_upd:
  "deposits_ok x dep \<Longrightarrow> (v \<noteq> 0 \<Longrightarrow> valid_acc x (ucast (dep_bank k)) (dep_user k)) \<Longrightarrow> deposits_ok x (m_upd k v dep)"
  using set_m_upd_subset [of k v dep] by (fastforce simp: deposits_ok_def)

lemma deposits_ok_add:
  "deposits_ok x dep \<Longrightarrow> valid_acc x (ucast (dep_bank k)) (dep_user k) \<Longrightarrow> deposits_ok x (m_add k v dep)"
  unfolding m_add_def by (rule deposits_ok_upd)

lemma add_fee_Some [simp]:
  "unat i < length (bank_fee s) \<Longrightarrow>
    add_fee i x s = Some (s\<lparr>bank_fee := (bank_fee s)[unat i := bank_fee s ! unat i + x]\<rparr>)"
  by (simp add: add_fee_def)

section \<open>Changes outside the ledger\<close>

lemma same_refl [simp]: "same s s"
  by (simp add: same_def)

lemma same_trans: "same s t \<Longrightarrow> same t u \<Longrightarrow> same s u"
  by (simp add: same_def)

lemma same_ext: "same s t \<Longrightarrow> ext s t"
  by (simp add: same_def ext_def)

lemma same_block_ok: "same s t \<Longrightarrow> block_ok s \<Longrightarrow> block_ok t"
  by (simp add: same_def)

lemma same_dividend: "same s t \<Longrightarrow> dividend t = dividend s"
proof -
  assume "same s t"
  then have "div_due t = div_due s" "div_gross t = div_gross s" "srvs t = srvs s"
    by (auto simp: same_def div_due_def [abs_def] div_gross_def [abs_def])
  then show ?thesis by (simp add: dividend_def [abs_def] cong: if_cong)
qed

lemma queues_simps [simp]:
  "queues (s\<lparr>bank_fee := x1\<rparr>) = queues s" "queues (s\<lparr>mydiv_fee := x2\<rparr>) = queues s"
  "queues (s\<lparr>myusr_fee := x3\<rparr>) = queues s" "queues (s\<lparr>myget_fee := x4\<rparr>) = queues s"
  "queues (s\<lparr>deposit := x5\<rparr>) = queues s" "queues (s\<lparr>srvs := x6\<rparr>) = queues s"
  "queues (s\<lparr>dsk := x7\<rparr>) = queues s" "queues (event e s) = queues s"
  by (simp_all add: queues_def event_def)

lemma same_fields [simp]:
  "same s (s\<lparr>bank_fee := (bank_fee s)[i := x]\<rparr>)" "same s (s\<lparr>mydiv_fee := y\<rparr>)"
  "same s (s\<lparr>myusr_fee := y\<rparr>)" "same s (s\<lparr>myget_fee := y\<rparr>)" "same s (event e s)"
  "same s (my_div_fee sv y s)"
  by (simp_all add: same_def queues_def event_def my_div_fee_def)

lemma add_fee_runs:
  "unat i < length (bank_fee s) \<Longrightarrow> \<exists>t. add_fee i x s = Some t \<and> same s t"
  by simp

lemma acc_ok_not_due: "u_msid u \<noteq> 0 \<Longrightarrow> \<not> (u_rpath u < ps \<and> u_lpath u < ps) \<Longrightarrow> acc_ok ps u"
  by (auto simp: acc_ok_def)

lemma account_at:
  assumes "ledger_ok s" and "valid_acc (srvs s) sv uid"
  obtains u where "fget (d_usr (dsk s) sv) uid = Some u" "acc_ok (period_start s) u"
    "unat sv < length (s_nodes (srvs s))" "unat sv < length (bank_fee s)"
proof -
  have v: "sv \<noteq> 0" "unat sv < length (s_nodes (srvs s))" "unat uid < unat (n_users (s_nodes (srvs s) ! unat sv))"
    using assms(2) by (simp_all add: valid_acc_iff word_less_nat_alt)
  moreover have "length (bank_fee s) = length (s_nodes (srvs s))" using assms(1) by (simp add: ledger_def)
  ultimately show ?thesis using ledger_bank [OF assms(1) v(1,2)]
    by (intro that [of "d_usr (dsk s) sv ! unat uid"]) (auto simp: bank_inv_def fget_def)
qed

section \<open>An example state\<close>

text \<open>One node with one account of 1000 units, for the witnesses.\<close>

definition demo_user :: user_t where
  "demo_user = zero_user\<lparr>u_msid := 1, u_weight := 1000, u_lpath := 1048576, u_rpath := 1048576\<rparr>"

definition demo_node :: node where
  "demo_node = node0\<lparr>n_users := 1, n_weight := 1000, n_mtim := 1048576, n_changed := [0], n_status := SERVER_VIP\<rparr>"

definition demo_servers :: servers where
  "demo_servers = (servers0 0)\<lparr>s_now := 1049088, s_nodes := [node0, demo_node]\<rparr>"

definition demo_server :: server where
  "demo_server = \<lparr>srvs = demo_servers, last_srvs = demo_servers, dsk = disk0\<lparr>d_usr := (\<lambda>_. [demo_user])\<rparr>,
     deposit = [], blk_bky = [], blk_bnk = [], blk_get = [], blk_usr = [], blk_uok = [], blk_sbs = [], blk_ubs = [],
     bank_fee = [0, 0], mydiv_fee = 0, myusr_fee = 0, myget_fee = 0, period_start = 1048576, my_svid = 1,
     do_sync = True, iamvip = False, block_only = False, has_office = False, start_path = 0, my_pkey = zero32,
     my_skey = zero32, nkeys = [], dbl_srvs = [], events = []\<rparr>"

lemma demo_ledger: "block_ok demo_server"
proof -
  have "bank_inv 1048576 demo_node [demo_user]"
    by (simp add: bank_inv_def demo_node_def demo_user_def acc_ok_def xor4_zero zero_user_def node0_def)
  moreover have "i = 1" if "0 < i" "i < 2" for i :: nat using that by simp
  ultimately show ?thesis
    by (auto simp: ledger_def demo_server_def demo_servers_def deposits_ok_def node0_def demo_node_def)
qed

end
