(* ===== verification/Message.thy ===== *)
theory Message
imports Accounts Hashtree Usertxs
begin

text \<open>
  \<open>class message\<close> of \<open>common/message.hpp\<close>: a message of the network with its data, its status, the
  peers that know it, and its files.  \<open>None\<close> is a failed \<open>assert\<close>, an \<open>exit\<close> or an access outside of
  the message's memory; the \<open>bool\<close> or number a method returns is the first component of its result.
  The mutex of a message only protects single methods, which are atomic here.
\<close>

section \<open>Types\<close>

abbreviation (input) MSGSTAT_DAT :: u8 where "MSGSTAT_DAT \<equiv> 0x1"
abbreviation (input) MSGSTAT_SAV :: u8 where "MSGSTAT_SAV \<equiv> 0x2"
abbreviation (input) MSGSTAT_COM :: u8 where "MSGSTAT_COM \<equiv> 0x4"
abbreviation (input) MSGSTAT_VAL :: u8 where "MSGSTAT_VAL \<equiv> 0x8"
abbreviation (input) MSGSTAT_BAD :: u8 where "MSGSTAT_BAD \<equiv> 0x10"
abbreviation (input) MSGSTAT_SIG :: u8 where "MSGSTAT_SIG \<equiv> 0x20"

abbreviation (input) MSGTYPE_DBL :: u8 where "MSGTYPE_DBL \<equiv> 0"
abbreviation (input) MSGTYPE_DBP :: u8 where "MSGTYPE_DBP \<equiv> 1"
abbreviation (input) MSGTYPE_DBG :: u8 where "MSGTYPE_DBG \<equiv> 2"
abbreviation (input) MSGTYPE_MSG :: u8 where "MSGTYPE_MSG \<equiv> 3"
abbreviation (input) MSGTYPE_PUT :: u8 where "MSGTYPE_PUT \<equiv> 4"
abbreviation (input) MSGTYPE_GET :: u8 where "MSGTYPE_GET \<equiv> 5"
abbreviation (input) MSGTYPE_INI :: u8 where "MSGTYPE_INI \<equiv> 6"
abbreviation (input) MSGTYPE_STP :: u8 where "MSGTYPE_STP \<equiv> 8"
abbreviation (input) MSGTYPE_CND :: u8 where "MSGTYPE_CND \<equiv> 10"
abbreviation (input) MSGTYPE_CNP :: u8 where "MSGTYPE_CNP \<equiv> 11"
abbreviation (input) MSGTYPE_CNG :: u8 where "MSGTYPE_CNG \<equiv> 12"
abbreviation (input) MSGTYPE_BLK :: u8 where "MSGTYPE_BLK \<equiv> 13"
abbreviation (input) MSGTYPE_BLP :: u8 where "MSGTYPE_BLP \<equiv> 14"
abbreviation (input) MSGTYPE_BLG :: u8 where "MSGTYPE_BLG \<equiv> 15"
abbreviation (input) MSGTYPE_SER :: u8 where "MSGTYPE_SER \<equiv> 16"
abbreviation (input) MSGTYPE_HEA :: u8 where "MSGTYPE_HEA \<equiv> 17"
abbreviation (input) MSGTYPE_MSL :: u8 where "MSGTYPE_MSL \<equiv> 18"
abbreviation (input) MSGTYPE_MSP :: u8 where "MSGTYPE_MSP \<equiv> 19"
abbreviation (input) MSGTYPE_PAT :: u8 where "MSGTYPE_PAT \<equiv> 20"
abbreviation (input) MSGTYPE_USR :: u8 where "MSGTYPE_USR \<equiv> 21"
abbreviation (input) MSGTYPE_USG :: u8 where "MSGTYPE_USG \<equiv> 22"
abbreviation (input) MSGTYPE_NHR :: u8 where "MSGTYPE_NHR \<equiv> 23"
abbreviation (input) MSGTYPE_NHD :: u8 where "MSGTYPE_NHD \<equiv> 24"
abbreviation (input) MSGTYPE_SOK :: u8 where "MSGTYPE_SOK \<equiv> 99"

abbreviation (input) max_length :: u32 where "max_length \<equiv> 0xffffff"
abbreviation (input) header_length :: u32 where "header_length \<equiv> 8"
abbreviation (input) data_offset :: nat where "data_offset \<equiv> 4 + 64 + 10"
abbreviation (input) SIZEOF_HEADER :: nat where "SIZEOF_HEADER \<equiv> 180"
abbreviation (input) SIZEOF_HEADLINK :: nat where "SIZEOF_HEADLINK \<equiv> 108"
abbreviation (input) SIZEOF_HANDSHAKE :: nat where "SIZEOF_HANDSHAKE \<equiv> 220"
abbreviation (input) MESSAGE_CHUNK :: u32 where "MESSAGE_CHUNK \<equiv> 0x100000"
abbreviation (input) MAX_MSGWAIT :: u32 where "MAX_MSGWAIT \<equiv> 0x10"

text \<open>
  The cryptographic functions the code calls: \<open>SHA256\<close>, \<open>ed25519_sign\<close> and \<open>ed25519_sign2\<close> (secret
  key, public key, message parts), and whether \<open>ed25519_sign_open\<close>, \<open>ed25519_sign_open2\<close> and the
  batch variants return 0 (message parts, public key, signature).
\<close>

record crypto =
  c_sha :: "bytes \<Rightarrow> bytes"
  c_sign :: "bytes \<Rightarrow> bytes \<Rightarrow> bytes \<Rightarrow> bytes"
  c_sign2 :: "bytes \<Rightarrow> bytes \<Rightarrow> bytes \<Rightarrow> bytes \<Rightarrow> bytes"
  c_open :: "bytes \<Rightarrow> bytes \<Rightarrow> bytes \<Rightarrow> bool"
  c_open2 :: "bytes \<Rightarrow> bytes \<Rightarrow> bytes \<Rightarrow> bytes \<Rightarrow> bool"
  c_batch :: "(bytes \<times> bytes \<times> bytes) list \<Rightarrow> bool"
  c_batch2 :: "(bytes \<times> bytes \<times> bytes \<times> bytes) list \<Rightarrow> bool"

text \<open>\<open>data\<close> is \<open>None\<close> for a null pointer; \<open>hash\<close> is the union \<open>hash\<close> as its eight bytes.\<close>

record message =
  mg_sigh :: bytes
  mg_len :: u32
  mg_msid :: u32
  mg_now :: u32
  mg_got :: u32
  mg_path :: u32
  mg_svid :: u16
  mg_peer :: u16
  mg_data :: "bytes option"
  mg_hash :: bytes
  mg_status :: u8
  mg_know :: "u16 list"
  mg_busy :: "(u16, unit) amap"
  mg_sent :: "(u16, unit) amap"

definition hash_num :: "message \<Rightarrow> u64" where
  "hash_num m = le_word (mg_hash m)"

section \<open>Identifiers\<close>

definition hashtype :: "message \<Rightarrow> u8" where
  "hashtype m = mg_hash m ! 1"

definition set_hashtype :: "u8 \<Rightarrow> message \<Rightarrow> message" where
  "set_hashtype ty m = m\<lparr>mg_hash := (mg_hash m)[1 := ty]\<rparr>"

definition hashval :: "u16 \<Rightarrow> message \<Rightarrow> u8 option" where
  "hashval mysvid m =
    (if mg_sigh m = replicate 32 0xff then None else Some (mg_sigh m ! (unat mysvid mod 32)))"

text \<open>\<open>dohash()\<close>, \<open>dohash(mysvid)\<close> and \<open>dohash(d)\<close>\<close>

definition head_bytes :: "u8 \<Rightarrow> u8 \<Rightarrow> u32 \<Rightarrow> u16 \<Rightarrow> bytes" where
  "head_bytes v ty ms sv = [v, ty] @ le_bytes 4 ms @ le_bytes 2 sv"

definition dohash_dbl :: "message \<Rightarrow> bytes" where
  "dohash_dbl m = head_bytes 0 MSGTYPE_DBL (mg_msid m) (mg_svid m)"

definition dohash :: "u16 \<Rightarrow> message \<Rightarrow> bytes option" where
  "dohash mysvid m = do {
     d \<leftarrow> mg_data m;
     v \<leftarrow> hashval mysvid m;
     ty \<leftarrow> rdw 0 1 d;
     Some (head_bytes v ty (mg_msid m) (mg_svid m))
   }"

definition dohash_head :: "bytes \<Rightarrow> message \<Rightarrow> bytes option" where
  "dohash_head d m = do {
     ty \<leftarrow> rdw 0 1 d;
     v \<leftarrow> rdw 1 1 d;
     let ty = (if ty = MSGTYPE_PUT \<or> ty = MSGTYPE_GET then MSGTYPE_MSG
       else if ty = MSGTYPE_CNP \<or> ty = MSGTYPE_CNG then MSGTYPE_CND
       else if ty = MSGTYPE_BLP \<or> ty = MSGTYPE_BLG then MSGTYPE_BLK
       else if ty = MSGTYPE_USG then MSGTYPE_USR
       else if ty = MSGTYPE_DBP \<or> ty = MSGTYPE_DBG then MSGTYPE_DBL else ty);
     Some (head_bytes v ty (mg_msid m) (mg_svid m))
   }"

definition dblhash :: "u16 \<Rightarrow> message \<Rightarrow> message" where
  "dblhash mysvid m =
    (let h = [0, 0, 0xff, 0xff, 0xff, 0xff] @ le_bytes 2 mysvid
     in m\<lparr>mg_svid := mysvid, mg_msid := 0xffffffff, mg_hash := h, mg_sigh := h @ replicate 24 0\<rparr>)"

section \<open>Constructors\<close>

text \<open>\<open>fill\<close> is fresh \<open>malloc\<close> memory, \<open>sigh\<close> the uninitialised member.\<close>

definition message0 :: "(nat \<Rightarrow> u8) \<Rightarrow> bytes \<Rightarrow> message" where
  "message0 fill sigh = \<lparr>mg_sigh = sigh, mg_len = header_length, mg_msid = 0, mg_now = 0, mg_got = 0,
     mg_path = 0, mg_svid = 0, mg_peer = 0, mg_data = Some (map fill [0..<8]), mg_hash = replicate 8 0,
     mg_status = 0, mg_know = [], mg_busy = [], mg_sent = []\<rparr>"

definition message_get :: "u16 \<Rightarrow> u32 \<Rightarrow> bytes \<Rightarrow> u16 \<Rightarrow> u32 \<Rightarrow> message option" where
  "message_get sv ms sigh mysvid mypath = do {
     let m = (message0 (\<lambda>_. 0) (take 32 sigh))\<lparr>mg_msid := ms, mg_path := mypath, mg_svid := sv\<rparr>;
     (v, ty, req) \<leftarrow> (if ms = 0xffffffff then Some (0, MSGTYPE_DBL, MSGTYPE_DBG)
       else do { v \<leftarrow> hashval mysvid m; Some (v, MSGTYPE_MSG, MSGTYPE_GET) });
     Some (m\<lparr>mg_hash := head_bytes v ty ms sv, mg_data := Some ([req, v] @ le_bytes 4 ms @ le_bytes 2 sv)\<rparr>)
   }"

definition message_alloc :: "(nat \<Rightarrow> u8) \<Rightarrow> bytes \<Rightarrow> u32 \<Rightarrow> message" where
  "message_alloc fill sigh l =
     (message0 fill sigh)\<lparr>mg_len := l, mg_data := Some (map fill [0..<unat l]), mg_status := MSGSTAT_DAT\<rparr>"

definition message_copy :: "bytes \<Rightarrow> u32 \<Rightarrow> bytes \<Rightarrow> message option" where
  "message_copy sigh l d = do {
     d \<leftarrow> rd 0 (unat l) d;
     Some ((message0 (\<lambda>_. 0) sigh)\<lparr>mg_len := l, mg_data := Some d, mg_status := MSGSTAT_DAT\<rparr>)
   }"

definition message_loaded :: "bytes \<Rightarrow> bytes \<Rightarrow> u8 \<Rightarrow> u32 \<Rightarrow> u16 \<Rightarrow> u32 \<Rightarrow> message" where
  "message_loaded sigh hash ty mpath msvid mmsid =
     (message0 (\<lambda>_. 0) sigh)\<lparr>mg_msid := mmsid, mg_path := mpath, mg_svid := msvid, mg_peer := msvid,
       mg_data := None, mg_hash := hash[1 := ty]\<rparr>"

section \<open>The hash tree of a message\<close>

text \<open>
  \<open>hash_tree_fast\<close> changes three fields of the hash through pointers of their width, \<open>hash_tree\<close> three
  32 bit words through the union \<open>hash_s\<close>.
\<close>

definition xor_at :: "nat \<Rightarrow> bytes \<Rightarrow> bytes \<Rightarrow> bytes" where
  "xor_at off v h = take off h @ map2 (XOR) (take (length v) (drop off h)) v @ drop (off + length v) h"

definition fast_xor :: "u16 \<Rightarrow> u32 \<Rightarrow> u16 \<Rightarrow> bytes \<Rightarrow> bytes" where
  "fast_xor sv ms tnum h = xor_at 8 (le_bytes 2 tnum) (xor_at 4 (le_bytes 4 ms) (xor_at 0 (le_bytes 2 sv) h))"

definition hxor :: "u16 \<Rightarrow> u32 \<Rightarrow> u16 \<Rightarrow> bytes \<Rightarrow> bytes" where
  "hxor sv ms tnum h = xor_at 8 (le_bytes 4 (ucast tnum :: u32))
     (xor_at 4 (le_bytes 4 ms) (xor_at 0 (le_bytes 4 (ucast sv :: u32)) h))"

text \<open>
  The loop of \<open>hash_tree_fast\<close> over the transactions from position \<open>p\<close>.  \<open>Some None\<close> is the result
  \<open>false\<close>.
\<close>

function fast_loop ::
  "(bytes \<Rightarrow> bytes) \<Rightarrow> u16 \<Rightarrow> u32 \<Rightarrow> bytes \<Rightarrow> nat \<Rightarrow> nat \<Rightarrow> u16 \<Rightarrow> hashtree \<Rightarrow>
   (nat \<times> u16 \<times> hashtree) option option" where
  "fast_loop sha sv ms buf e p tnum tree =
    (if p < e then do {
       l \<leftarrow> get_size (drop p buf);
       if l = 0xFFFFFFFF then Some None
       else do {
         d \<leftarrow> rd p (unat l) buf;
         fast_loop sha sv ms buf e (p + unat l) (tnum + 1) (snd (update sha (fast_xor sv ms tnum (sha d)) tree))
       }
     } else Some (Some (p, tnum, tree)))"
  by pat_completeness auto
termination
  by (relation "measure (\<lambda>(sha, sv, ms, buf, e, p, tnum, tree). e - p)") (auto dest: get_size_pos)

declare fast_loop.simps [simp del]

definition hash_tree_fast :: "(bytes \<Rightarrow> bytes) \<Rightarrow> bytes \<Rightarrow> u32 \<Rightarrow> u16 \<Rightarrow> u32 \<Rightarrow> bytes option option" where
  "hash_tree_fast sha indata inlen insvid inmsid = do {
     ty \<leftarrow> rdw 0 1 indata;
     if ty \<noteq> MSGTYPE_MSG \<or> insvid = 0 \<or> inmsid = 0 \<or> unat inlen \<le> data_offset then None
     else do {
       h \<leftarrow> rd (4+64) 10 indata;
       r \<leftarrow> fast_loop sha insvid inmsid indata (unat inlen) data_offset 1 (snd (update sha (sha h) hashtree0));
       case r of None \<Rightarrow> Some None
       | Some (p, tnum, tree) \<Rightarrow>
           if tnum = 0 \<or> p \<noteq> unat inlen then Some None
           else Some (Some (fst (snd (finish sha tree))))
     }
   }"

text \<open>The loop of \<open>hash_tree\<close> also collects the positions and the hashes of the transactions.\<close>

function tree_loop ::
  "(bytes \<Rightarrow> bytes) \<Rightarrow> u16 \<Rightarrow> u32 \<Rightarrow> bytes \<Rightarrow> nat \<Rightarrow> nat \<Rightarrow> u16 \<Rightarrow> (u32 \<times> bytes) list \<Rightarrow> hashtree \<Rightarrow>
   (nat \<times> u16 \<times> (u32 \<times> bytes) list \<times> hashtree) option option" where
  "tree_loop sha sv ms buf e p tnum first tree =
    (if p < e then do {
       l \<leftarrow> get_size (drop p buf);
       if l = 0xFFFFFFFF then Some None
       else do {
         d \<leftarrow> rd p (unat l) buf;
         let h = hxor sv ms tnum (sha d);
         tree_loop sha sv ms buf e (p + unat l) (tnum + 1) (first @ [(of_nat p, h)]) (snd (update sha h tree))
       }
     } else Some (Some (p, tnum, first, tree)))"
  by pat_completeness auto
termination
  by (relation "measure (\<lambda>(sha, sv, ms, buf, e, p, tnum, first, tree). e - p)") (auto dest: get_size_pos)

declare tree_loop.simps [simp del]

text \<open>
  The index that \<open>hash_tree\<close> appends: the root, room for the number of the message in its block, the
  total length, the positions and hashes of the parts, and the inner hashes but the last.
\<close>

definition tree_index :: "u32 \<Rightarrow> bytes \<Rightarrow> (u32 \<times> bytes) list \<Rightarrow> bytes list \<Rightarrow> bytes" where
  "tree_index len sigh first hs =
    (let n = of_nat (length first) :: u32;
         hn = (if hs = [] then 0 else length hs - 1);
         total = len + 32 + 4 + 4 + 4 + (4 + 32) * n + 32 * of_nat hn
     in sigh @ replicate 4 0 @ le_bytes 4 total @ le_bytes 4 n @
        concat (map (\<lambda>(p, h). le_bytes 4 p @ h) first) @ concat (take hn hs))"

definition hash_tree :: "(bytes \<Rightarrow> bytes) \<Rightarrow> message \<Rightarrow> (bool \<times> message) option" where
  "hash_tree sha m = do {
     d \<leftarrow> mg_data m;
     ty \<leftarrow> rdw 0 1 d;
     if ty \<noteq> MSGTYPE_MSG \<or> mg_svid m = 0 \<or> mg_msid m = 0 \<or> unat (mg_len m) \<le> data_offset then None
     else do {
       h \<leftarrow> rd (4+64) 10 d;
       let ha = sha h;
       r \<leftarrow> tree_loop sha (mg_svid m) (mg_msid m) d (unat (mg_len m)) data_offset 1 [(4+64, ha)] (snd (update sha ha hashtree0));
       case r of None \<Rightarrow> Some (False, m)
       | Some (p, tnum, first, tree) \<Rightarrow>
           if tnum = 0 \<or> p \<noteq> unat (mg_len m) then Some (False, m)
           else (case finish sha tree of (_, sigh, tree) \<Rightarrow>
             Some (True, m\<lparr>mg_sigh := sigh,
               mg_data := Some (take (unat (mg_len m)) d @ tree_index (mg_len m) sigh first (hashes tree))\<rparr>))
     }
   }"

section \<open>Account data for \<open>SAV\<close> transactions\<close>

text \<open>
  \<open>get_user\<close> looks for the account as it was at the start of the block of the message: the first undo
  file from there on that has it, else the account file.  An undo file that does not reach the
  account leaves \<open>ou.msid\<close> at 0.  The loop over the blocks does not end when \<open>path\<close> is in the last
  block a \<open>uint32_t\<close> can number and no file has the account.
\<close>

partial_function (option) undo_search :: "disk \<Rightarrow> u16 \<Rightarrow> u32 \<Rightarrow> u32 \<Rightarrow> u32 \<Rightarrow> user_t option option" where
  "undo_search d sv user path block =
    (if block \<le> path then
       (case fget (d_und d (block, sv)) user of
          Some ou \<Rightarrow> if u_msid ou \<noteq> 0 then Some (Some ou) else undo_search d sv user path (block + BLOCKSEC)
        | None \<Rightarrow> undo_search d sv user path (block + BLOCKSEC))
     else Some None)"

declare undo_search.simps [code]

definition msg_get_user :: "disk \<Rightarrow> message \<Rightarrow> u32 \<Rightarrow> user_t \<Rightarrow> (bool \<times> user_t) option" where
  "msg_get_user d m user u =
    (if d_usr d (mg_svid m) = [] then Some (False, u)
     else do {
       let u = (case fget (d_usr d (mg_svid m)) user of None \<Rightarrow> u | Some v \<Rightarrow> v);
       r \<leftarrow> undo_search d (mg_svid m) user (mg_path m) (mg_now m - mg_now m mod BLOCKSEC);
       let u = (case r of None \<Rightarrow> u | Some ou \<Rightarrow> ou);
       Some (u_msid u \<noteq> 0, u)
     })"

text \<open>\<open>insert_user\<close> writes the account data into the \<open>SAV\<close> transactions of the message.\<close>

function insert_loop :: "disk \<Rightarrow> message \<Rightarrow> nat \<Rightarrow> bytes \<Rightarrow> nat \<Rightarrow> (bool \<times> bytes) option" where
  "insert_loop d m e buf p =
    (if p < e then do {
       l \<leftarrow> get_size (drop p buf);
       ty \<leftarrow> rdw p 1 buf;
       (ok, buf) \<leftarrow> (if ty = TXSTYPE_SAV then do {
           au \<leftarrow> rdw (p + 3) 4 buf;
           old \<leftarrow> rd (p + usr_off) SIZEOF_USER buf;
           (ok, u) \<leftarrow> msg_get_user d m au (user_of old);
           buf \<leftarrow> wr (p + usr_off) (user_data u) buf;
           Some (ok, buf)
         } else Some (True, buf));
       if ok then insert_loop d m e buf (p + unat l) else Some (False, buf)
     } else if p = e then Some (True, buf) else None)"
  by pat_completeness auto
termination
  by (relation "measure (\<lambda>(d, m, e, buf, p). e - p)") (auto dest: get_size_pos)

declare insert_loop.simps [simp del]

definition insert_user :: "disk \<Rightarrow> message \<Rightarrow> (bool \<times> message) option" where
  "insert_user d m = do {
     buf \<leftarrow> mg_data m;
     if unat (mg_len m) \<le> data_offset then None
     else do {
       (ok, buf) \<leftarrow> insert_loop d m (unat (mg_len m)) buf data_offset;
       Some (ok, m\<lparr>mg_data := Some buf\<rparr>)
     }
   }"

section \<open>Signatures\<close>

definition null_signature :: "message \<Rightarrow> message" where
  "null_signature m = m\<lparr>mg_sigh := replicate 32 0\<rparr>"

text \<open>The XOR of the two halves of the signature.\<close>

definition sig_fold :: "bytes \<Rightarrow> bytes option" where
  "sig_fold d = do { a \<leftarrow> rd 4 32 d; b \<leftarrow> rd 36 32 d; Some (map2 (XOR) a b) }"

definition hash_signature :: "message \<Rightarrow> message option" where
  "hash_signature m = do {
     d \<leftarrow> mg_data m;
     ty \<leftarrow> rdw 0 1 d;
     if ty = MSGTYPE_MSG then None
     else if ty = MSGTYPE_DBL then Some (null_signature m)
     else do { h \<leftarrow> sig_fold d; Some (m\<lparr>mg_sigh := h\<rparr>) }
   }"

text \<open>Whether the signature hash differs, as \<open>memcmp\<close> reports it.\<close>

definition sigh_check :: "message \<Rightarrow> bool option" where
  "sigh_check m = do {
     d \<leftarrow> mg_data m;
     if hashtype m = MSGTYPE_MSG then do {
       ty \<leftarrow> rdw 0 1 d;
       if ty \<noteq> MSGTYPE_MSG then None
       else do { h \<leftarrow> rd (unat (mg_len m)) 32 d; Some (mg_sigh m \<noteq> h) }
     }
     else do { h \<leftarrow> sig_fold d; Some (mg_sigh m \<noteq> h) }
   }"

text \<open>The second branch for \<open>MSGTYPE_DBL\<close> in \<open>read_head\<close> can not be reached.\<close>

definition read_head :: "message \<Rightarrow> message option" where
  "read_head m = do {
     d \<leftarrow> mg_data m;
     ty \<leftarrow> rdw 0 1 d;
     if ty = MSGTYPE_MSG \<or> ty = MSGTYPE_INI \<or> ty = MSGTYPE_CND \<or> ty = MSGTYPE_DBL \<or> ty = MSGTYPE_BLK then do {
       sv \<leftarrow> rdw (4+64) 2 d;
       ms \<leftarrow> rdw (4+64+2) 4 d;
       nw \<leftarrow> rdw (4+64+6) 4 d;
       Some (m\<lparr>mg_svid := sv, mg_msid := ms, mg_now := nw\<rparr>)
     }
     else Some m
   }"

text \<open>
  The proof of a double message: two messages of a node with the same number and different
  signatures.  \<open>Some True\<close> is the result 0.  Both header times are read from the first message.
\<close>

definition check_double_msg :: "crypto \<Rightarrow> bytes \<Rightarrow> bytes \<Rightarrow> bytes \<Rightarrow> bytes \<Rightarrow> u32 \<Rightarrow> u32 \<Rightarrow> bool option" where
  "check_double_msg c svpk dblmsha d1 d2 len1 len2 = do {
     sv \<leftarrow> rdw (4+64) 2 d1;
     ms \<leftarrow> rdw (4+64+2) 4 d1;
     now1 \<leftarrow> rdw (4+64+6) 4 d1;
     now2 \<leftarrow> rdw (4+64+6) 4 d2;
     if (now1 :: u32) > now2 + 3 * BLOCKSEC \<or> now2 > now1 + 3 * BLOCKSEC then Some False
     else do {
       r1 \<leftarrow> hash_tree_fast (c_sha c) d1 len1 sv ms;
       case r1 of None \<Rightarrow> Some False
       | Some sigh1 \<Rightarrow> do {
           r2 \<leftarrow> hash_tree_fast (c_sha c) d2 len2 sv ms;
           case r2 of None \<Rightarrow> Some False
           | Some sigh2 \<Rightarrow> do {
               rs1 \<leftarrow> rd 4 64 d1;
               rs2 \<leftarrow> rd 4 64 d2;
               Some (c_open2 c dblmsha sigh1 svpk rs1 \<and> c_open2 c dblmsha sigh2 svpk rs2)
             }
         }
     }
   }"

definition check_double :: "crypto \<Rightarrow> bytes \<Rightarrow> u32 \<Rightarrow> bytes \<Rightarrow> bool option" where
  "check_double c svpk len d = do {
     dblmsha \<leftarrow> rd 4 32 d;
     let d1 = drop (4+32) d;
     l1 \<leftarrow> rd 1 3 d1;
     let len1 = le_nat l1;
     if unat len < 4+32+len1+4 then Some False
     else do {
       let d2 = drop len1 d1;
       l2 \<leftarrow> rd 1 3 d2;
       let len2 = le_nat l2;
       if 4+32+len1+len2 \<noteq> unat len then Some False
       else do {
         t1 \<leftarrow> rdw 0 1 d1;
         t2 \<leftarrow> rdw 0 1 d2;
         if (t1 :: u8) \<noteq> t2 then Some False
         else do {
           sv1 \<leftarrow> rdw (4+64) 2 d1; ms1 \<leftarrow> rdw (4+64+2) 4 d1;
           sv2 \<leftarrow> rdw (4+64) 2 d2; ms2 \<leftarrow> rdw (4+64+2) 4 d2;
           rs1 \<leftarrow> rd 4 64 d1; rs2 \<leftarrow> rd 4 64 d2;
           if (sv1 :: u16) \<noteq> sv2 \<or> (ms1 :: u32) \<noteq> ms2 then Some False
           else if rs1 = rs2 then Some False
           else if (t1 = MSGTYPE_CND \<or> t1 = MSGTYPE_BLK) \<and> len1 \<noteq> len2 then Some False
           else if t1 = MSGTYPE_CND then
             if len1 \<noteq> 4+64+10+32 then Some False
             else do {
               m1 \<leftarrow> rd (4+64) (10+32) d1; m2 \<leftarrow> rd (4+64) (10+32) d2;
               Some (c_batch c [(m1, svpk, rs1), (m2, svpk, rs2)])
             }
           else if t1 = MSGTYPE_BLK then
             if len1 \<noteq> 4+64+10+SIZEOF_HEADER-4 then Some False
             else do {
               hpath1 \<leftarrow> rdw (4+64+10) 4 d1;
               hpath2 \<leftarrow> rdw (4+64+10) 4 d1;
               if (hpath1 :: u32) \<noteq> hpath2 then Some False
               else if hpath1 \<noteq> ms1 then Some False
               else do {
                 m1 \<leftarrow> rd (4+64+10) (SIZEOF_HEADER-4) d1; m2 \<leftarrow> rd (4+64+10) (SIZEOF_HEADER-4) d2;
                 Some (c_batch c [(m1, svpk, rs1), (m2, svpk, rs2)])
               }
             }
           else if t1 = MSGTYPE_MSG then check_double_msg c svpk dblmsha d1 d2 (of_nat len1) (of_nat len2)
           else Some False
         }
       }
     }
   }"

definition check_signature :: "crypto \<Rightarrow> bytes \<Rightarrow> u16 \<Rightarrow> bytes \<Rightarrow> message \<Rightarrow> (bool \<times> message) option" where
  "check_signature c svpk mysvid msha m = do {
     d \<leftarrow> mg_data m;
     let m = m\<lparr>mg_status := mg_status m OR MSGSTAT_DAT\<rparr>;
     ty \<leftarrow> rdw 0 1 d;
     if ty = MSGTYPE_MSG then do {
       h \<leftarrow> dohash mysvid m;
       rs \<leftarrow> rd 4 64 d;
       Some (c_open2 c msha (mg_sigh m) svpk rs, m\<lparr>mg_hash := h\<rparr>)
     }
     else if ty = MSGTYPE_INI \<or> ty = MSGTYPE_CND \<or> ty = MSGTYPE_BLK then do {
       h \<leftarrow> dohash mysvid m;
       let m = m\<lparr>mg_hash := h\<rparr>;
       rs \<leftarrow> rd 4 64 d;
       if ty = MSGTYPE_BLK then do {
         a \<leftarrow> rd (4+64+2) 4 d; b \<leftarrow> rd (4+64+10) 4 d;
         if a \<noteq> b then Some (False, m)
         else do { t \<leftarrow> rd (4+64+10) (SIZEOF_HEADER-4) d; Some (c_open c t svpk rs, m) }
       }
       else if ty = MSGTYPE_CND then do { t \<leftarrow> rd (4+64) (10+32) d; Some (c_open c t svpk rs, m) }
       else do { t \<leftarrow> rd (4+64) (unat (mg_len m - 4 - 64)) d; Some (c_open c t svpk rs, m) }
     }
     else if ty = MSGTYPE_DBL then do {
       let m = null_signature (m\<lparr>mg_hash := dohash_dbl m\<rparr>);
       ok \<leftarrow> check_double c svpk (mg_len m) d;
       Some (ok, m)
     }
     else Some (False, m)
   }"

section \<open>Creating a message\<close>

definition put_data :: "nat \<Rightarrow> bytes \<Rightarrow> message \<Rightarrow> message option" where
  "put_data off bs m = do { d \<leftarrow> mg_data m; d \<leftarrow> wr off bs d; Some (m\<lparr>mg_data := Some d\<rparr>) }"

text \<open>The message type decides what is signed; a \<open>BLK\<close> message from the network brings its signature.\<close>

definition sign_message ::
  "crypto \<Rightarrow> disk \<Rightarrow> u8 \<Rightarrow> nat \<Rightarrow> bytes option \<Rightarrow> bytes \<Rightarrow> bytes \<Rightarrow> message \<Rightarrow> message option" where
  "sign_message c dk ty text_len mysk mypk msha m = do {
     d \<leftarrow> mg_data m;
     if ty = MSGTYPE_BLK then
       (case mysk of None \<Rightarrow> do { s \<leftarrow> rd 0 64 mypk; m \<leftarrow> put_data 4 s m; hash_signature m }
        | Some sk \<Rightarrow> do {
            t \<leftarrow> rd (4+64+10) (SIZEOF_HEADER-4) d;
            m \<leftarrow> put_data 4 (c_sign c sk mypk t) m;
            hash_signature m
          })
     else do {
       sk \<leftarrow> mysk;
       if ty = MSGTYPE_CND then do {
         t \<leftarrow> rd (4+64) (10+32) d;
         m \<leftarrow> put_data 4 (c_sign c sk mypk t) m;
         hash_signature m
       }
       else if ty = MSGTYPE_INI then do {
         t \<leftarrow> rd (4+64) (10+text_len) d;
         m \<leftarrow> put_data 4 (if mg_svid m \<noteq> 0 then c_sign c sk mypk t else replicate 64 0) m;
         hash_signature m
       }
       else if ty = MSGTYPE_MSG then do {
         (ok, m) \<leftarrow> insert_user dk m;
         if \<not> ok then None
         else do {
           (ok, m) \<leftarrow> hash_tree (c_sha c) m;
           if \<not> ok then None else put_data 4 (c_sign2 c sk mypk msha (mg_sigh m)) m
         }
       }
       else None
     }
   }"

definition make_message ::
  "crypto \<Rightarrow> (nat \<Rightarrow> u8) \<Rightarrow> bytes \<Rightarrow> disk \<Rightarrow> u32 \<Rightarrow> u8 \<Rightarrow> bytes \<Rightarrow> u16 \<Rightarrow> u32 \<Rightarrow> bytes option \<Rightarrow> bytes \<Rightarrow> bytes \<Rightarrow>
   message option" where
  "make_message c fill sigh dk time ty text mysvid mymsid mysk mypk msha = do {
     let len = (of_nat (data_offset + length text) :: u32);
     if data_offset + length text > unat max_length \<or> (ty \<noteq> MSGTYPE_INI \<and> mysvid = 0) then None
     else do {
       let d = [ty] @ nat_le 3 (unat len) @ map fill [4..<68] @ le_bytes 2 mysvid @ le_bytes 4 mymsid @
         le_bytes 4 time @ text;
       let m = (message0 fill sigh)\<lparr>mg_len := len, mg_msid := mymsid, mg_now := time, mg_got := time,
         mg_path := time - time mod BLOCKSEC, mg_svid := mysvid, mg_peer := mysvid, mg_data := Some d,
         mg_status := MSGSTAT_DAT\<rparr>;
       m \<leftarrow> sign_message c dk ty (length text) mysk mypk msha m;
       h \<leftarrow> dohash mysvid m;
       Some (m\<lparr>mg_hash := h\<rparr>)
     }
   }"

definition signnewtime :: "crypto \<Rightarrow> disk \<Rightarrow> u32 \<Rightarrow> bytes \<Rightarrow> bytes \<Rightarrow> bytes \<Rightarrow> message \<Rightarrow> message option" where
  "signnewtime c dk ntime mysk mypk msha m = do {
     d \<leftarrow> mg_data m;
     ty \<leftarrow> rdw 0 1 d;
     if ty \<noteq> MSGTYPE_MSG then None
     else do {
       m \<leftarrow> put_data (4+64+6) (le_bytes 4 ntime) m;
       (ok, m) \<leftarrow> insert_user dk (m\<lparr>mg_now := ntime\<rparr>);
       if \<not> ok then None
       else do {
         (ok, m) \<leftarrow> hash_tree (c_sha c) m;
         if \<not> ok then None
         else do {
           m \<leftarrow> put_data 4 (c_sign2 c mysk mypk msha (mg_sigh m)) m;
           h \<leftarrow> dohash (mg_svid m) m;
           Some (m\<lparr>mg_hash := h\<rparr>)
         }
       }
     }
   }"

section \<open>Receiving the head of a message\<close>

definition mrealloc :: "(nat \<Rightarrow> u8) \<Rightarrow> nat \<Rightarrow> message \<Rightarrow> message" where
  "mrealloc fill n m =
     m\<lparr>mg_data := map_option (\<lambda>d. take n d @ map fill [length d..<n]) (mg_data m)\<rparr>"

definition head_len :: "bytes \<Rightarrow> u32 option" where
  "head_len d = map_option le_word (rd 1 3 d)"

text \<open>
  \<open>header\<close>: 0 for a bad head, 1 for a complete short message, 2 when \<open>len\<close> bytes are to be read.
\<close>

definition recv_header :: "(nat \<Rightarrow> u8) \<Rightarrow> u32 \<Rightarrow> u16 \<Rightarrow> message \<Rightarrow> (nat \<times> message) option" where
  "recv_header fill time peer_svid m = do {
     d \<leftarrow> mg_data m;
     if mg_know m \<noteq> [] \<or> mg_busy m \<noteq> [] \<or> mg_sent m \<noteq> [] then None
     else do {
       let m = m\<lparr>mg_got := time, mg_peer := peer_svid\<rparr>;
       ty \<leftarrow> rdw 0 1 d;
       if ty = MSGTYPE_INI then do {
         l \<leftarrow> head_len d;
         let m = m\<lparr>mg_len := l\<rparr>;
         if unat l \<noteq> 4+64+10+SIZEOF_HANDSHAKE then Some (0, m) else Some (2, mrealloc fill (unat l) m)
       }
       else if ty \<in> {MSGTYPE_PUT, MSGTYPE_GET, MSGTYPE_CNP, MSGTYPE_CNG, MSGTYPE_BLP, MSGTYPE_BLG, MSGTYPE_USG,
           MSGTYPE_DBP, MSGTYPE_DBG} then do {
         ms \<leftarrow> rdw 2 4 d;
         sv \<leftarrow> rdw 6 2 d;
         let m = m\<lparr>mg_msid := ms, mg_svid := sv\<rparr>;
         h \<leftarrow> dohash_head d m;
         Some (1, m\<lparr>mg_hash := h, mg_len := header_length\<rparr>)
       }
       else if ty \<in> {MSGTYPE_MSG, MSGTYPE_DBL, MSGTYPE_CND, MSGTYPE_BLK} then do {
         l \<leftarrow> head_len d;
         let m = m\<lparr>mg_len := l\<rparr>;
         if (ty = MSGTYPE_MSG \<and> l > max_length) \<or> (ty = MSGTYPE_DBL \<and> l > 4 + 2 * max_length) \<or> l \<le> 4+64+10
         then Some (0, m) else Some (2, mrealloc fill (unat l) m)
       }
       else if ty = MSGTYPE_USR then do {
         l \<leftarrow> head_len d;
         chunk \<leftarrow> rdw 4 2 d;
         sv \<leftarrow> rdw 6 2 d;
         let m = m\<lparr>mg_len := l, mg_msid := ucast (chunk :: u16), mg_svid := sv\<rparr>;
         if l > MESSAGE_CHUNK then Some (0, m) else Some (2, mrealloc fill (8 + unat l * SIZEOF_USER) m)
       }
       else if ty = MSGTYPE_STP then Some (2, mrealloc fill 33 (m\<lparr>mg_svid := peer_svid, mg_len := 33\<rparr>))
       else if ty \<in> {MSGTYPE_SER, MSGTYPE_HEA, MSGTYPE_PAT, MSGTYPE_MSL, MSGTYPE_NHR, MSGTYPE_SOK} then
         Some (1, m\<lparr>mg_svid := peer_svid, mg_len := header_length\<rparr>)
       else if ty = MSGTYPE_MSP then do {
         l \<leftarrow> head_len d;
         Some (1, mrealloc fill (unat l) (m\<lparr>mg_svid := peer_svid, mg_len := l\<rparr>))
       }
       else if ty = MSGTYPE_NHD then
         Some (1, mrealloc fill (32 + SIZEOF_HEADLINK + 8) (m\<lparr>mg_svid := peer_svid, mg_len := of_nat (32 + SIZEOF_HEADLINK + 8)\<rparr>))
       else Some (0, m)
     }
   }"

section \<open>Files\<close>

text \<open>\<open>makefilename\<close>: the name of a bad message has its signature hash.\<close>

definition makefilename :: "message \<Rightarrow> u32 \<Rightarrow> mkey" where
  "makefilename m path = (path, hashtype m, mg_svid m, mg_msid m,
     if mg_status m AND MSGSTAT_BAD \<noteq> 0 then mg_sigh m else [])"

text \<open>An empty file counts as not open.\<close>

definition block_file :: "bytes option \<Rightarrow> bytes option" where
  "block_file f = (case f of Some (b # bs) \<Rightarrow> Some (b # bs) | _ \<Rightarrow> None)"

definition load :: "u16 \<Rightarrow> disk \<Rightarrow> message \<Rightarrow> (u32 \<times> message) option" where
  "load who dk m =
    (let m' = m\<lparr>mg_busy := m_upd who () (mg_busy m)\<rparr> in
     if mg_path m = 0 then Some (if mg_data m = None then 0 else 1, m')
     else if mg_data m \<noteq> None \<and> mg_len m \<noteq> header_length then Some (1, m')
     else (case block_file (d_msg dk (makefilename m (mg_path m))) of
       None \<Rightarrow> Some (0, m\<lparr>mg_busy := m_del who (m_upd who () (mg_busy m))\<rparr>)
     | Some f \<Rightarrow> do {
         let m = m'\<lparr>mg_data := Some f\<rparr>;
         m \<leftarrow> (if mg_len m = header_length then do {
             w \<leftarrow> rdw 0 4 f;
             let m = m\<lparr>mg_len := drop_bit 8 w\<rparr>;
             if hashtype m = MSGTYPE_MSG then do { h \<leftarrow> rd (unat (mg_len m)) 32 f; Some (m\<lparr>mg_sigh := h\<rparr>) }
             else hash_signature m
           } else Some m);
         Some (of_nat (length f), m\<lparr>mg_status := mg_status m OR MSGSTAT_DAT OR MSGSTAT_SAV\<rparr>)
       }))"

definition message_recycled ::
  "crypto \<Rightarrow> bytes \<Rightarrow> bytes \<Rightarrow> disk \<Rightarrow> u8 \<Rightarrow> u32 \<Rightarrow> u16 \<Rightarrow> u32 \<Rightarrow> bytes \<Rightarrow> bytes \<Rightarrow> message option" where
  "message_recycled c sigh hash dk ty mpath msvid mmsid svpk msha = do {
     (r, m) \<leftarrow> load msvid dk (message_loaded sigh hash ty mpath msvid mmsid);
     if r = 0 then Some m
     else do {
       d \<leftarrow> mg_data m;
       nw \<leftarrow> rdw (4+64+6) 4 d;
       let m = m\<lparr>mg_now := nw, mg_got := nw\<rparr>;
       if mg_len m > max_length then None
       else do {
         (ok, m) \<leftarrow> check_signature c svpk msvid msha m;
         Some (if ok then m else m\<lparr>mg_status := 0\<rparr>)
       }
     }
   }"

definition busy_erase :: "u16 \<Rightarrow> message \<Rightarrow> message" where
  "busy_erase p m = m\<lparr>mg_busy := m_del p (mg_busy m)\<rparr>"

definition unload :: "u16 \<Rightarrow> message \<Rightarrow> message" where
  "unload who m =
    (let m' = busy_erase who m in
     if mg_status m AND (MSGSTAT_DAT OR MSGSTAT_SAV) \<noteq> (MSGSTAT_DAT OR MSGSTAT_SAV) \<or> mg_path m = 0 then m'
     else if mg_busy m' = [] \<and> mg_len m \<noteq> header_length \<and> mg_data m \<noteq> None \<and> mg_status m AND MSGSTAT_SAV \<noteq> 0
       then m'\<lparr>mg_data := None\<rparr>
     else m')"

text \<open>\<open>save_mnum\<close> writes into an existing file only; the gap before a write past the end is zeros.\<close>

definition write_at :: "nat \<Rightarrow> bytes \<Rightarrow> bytes \<Rightarrow> bytes" where
  "write_at off bs f = take off (f @ replicate (off - length f) 0) @ bs @ drop (off + length bs) f"

definition save_mnum :: "u32 \<Rightarrow> message \<Rightarrow> disk \<Rightarrow> disk option" where
  "save_mnum mnum m dk =
    (if hashtype m \<noteq> MSGTYPE_MSG \<or> mg_status m AND MSGSTAT_SAV = 0 then Some dk
     else if mg_status m AND MSGSTAT_VAL = 0 then None
     else (let k = makefilename m (mg_path m) in
       case d_msg dk k of None \<Rightarrow> Some dk
       | Some f \<Rightarrow> Some (dk\<lparr>d_msg := (d_msg dk)(k := Some (write_at (unat (mg_len m) + 32) (le_bytes 4 mnum) f))\<rparr>)))"

definition save_path :: "message \<Rightarrow> disk \<Rightarrow> disk" where
  "save_path m dk = (if hashtype m \<noteq> MSGTYPE_MSG then dk
     else dk\<lparr>d_inx := (d_inx dk)(mg_svid m := (d_inx dk (mg_svid m))(mg_msid m := mg_path m))\<rparr>)"

definition erase_path :: "message \<Rightarrow> disk \<Rightarrow> disk" where
  "erase_path m dk = (if hashtype m \<noteq> MSGTYPE_MSG then dk
     else dk\<lparr>d_inx := (d_inx dk)(mg_svid m := (d_inx dk (mg_svid m))(mg_msid m := 0))\<rparr>)"

definition load_path :: "disk \<Rightarrow> message \<Rightarrow> u32 \<times> message" where
  "load_path dk m = (if mg_path m \<noteq> 0 then (mg_path m, m)
     else (let p = d_inx dk (mg_svid m) (mg_msid m) in (p, m\<lparr>mg_path := p\<rparr>)))"

definition save :: "message \<Rightarrow> disk \<Rightarrow> (nat \<times> message \<times> disk) option" where
  "save m dk =
    (if mg_status m AND MSGSTAT_DAT = 0 \<or> mg_path m = 0 then Some (0, m, dk)
     else do {
       d \<leftarrow> mg_data m;
       out \<leftarrow> (if hashtype m = MSGTYPE_MSG then do {
           total \<leftarrow> rdw (unat (mg_len m) + 32 + 4) 4 d;
           if (total :: u32) = 0 then None else rd 0 (unat total) d
         } else rd 0 (unat (mg_len m)) d);
       let k = makefilename m (mg_path m);
       let dk = dk\<lparr>d_msg := (d_msg dk)(k := Some (overwrite_bytes out (d_msg dk k)))\<rparr>;
       let dk = (if mg_status m AND MSGSTAT_BAD = 0 then save_path m dk else dk);
       Some (1, m\<lparr>mg_status := mg_status m OR MSGSTAT_SAV\<rparr>, dk)
     })"

text \<open>The undo data of a message.\<close>

record msg_undo =
  mu_undo :: "(u32, user_t) amap"
  mu_users :: u32
  mu_csum :: csum4
  mu_weight :: i64
  mu_fee :: i64
  mu_msha :: bytes
  mu_mtim :: u32

definition undo_bytes :: "msg_undo \<Rightarrow> bytes" where
  "undo_bytes u = csum_bytes (mu_csum u) @ le_bytes 8 (mu_weight u) @ le_bytes 8 (mu_fee u) @ mu_msha u @
     le_bytes 4 (mu_mtim u) @ concat (map (\<lambda>(i, v). le_bytes 4 i @ user_data v) (mu_undo u)) @ le_bytes 4 (mu_users u)"

definition msg_save_undo :: "msg_undo \<Rightarrow> message \<Rightarrow> disk \<Rightarrow> disk" where
  "msg_save_undo u m dk = dk\<lparr>d_mun := (d_mun dk)(makefilename m (mg_path m) := Some (undo_bytes u))\<rparr>"

function undo_loop :: "bytes \<Rightarrow> (u32, user_t) amap \<Rightarrow> (u32, user_t) amap \<times> u32" where
  "undo_loop f undo =
    (if length f < 4 then (undo, 0)
     else if length f < 4 + SIZEOF_USER then (undo, le_word (take 4 f))
     else undo_loop (drop (4 + SIZEOF_USER) f) (m_upd (le_word (take 4 f)) (user_of (take SIZEOF_USER (drop 4 f))) undo))"
  by pat_completeness auto
termination
  by (relation "measure (\<lambda>(f, undo). length f)") auto

declare undo_loop.simps [simp del]

text \<open>A file that is too short for the fixed part leaves variables of the caller uninitialised.\<close>

definition load_undo :: "message \<Rightarrow> disk \<Rightarrow> msg_undo option" where
  "load_undo m dk = do {
     f \<leftarrow> block_file (d_mun dk (makefilename m (mg_path m)));
     cs \<leftarrow> rd 0 32 f;
     w \<leftarrow> rdw 32 8 f;
     fee \<leftarrow> rdw 40 8 f;
     msha \<leftarrow> rd 48 32 f;
     mtim \<leftarrow> rdw 80 4 f;
     let (undo, users) = undo_loop (drop 84 f) [];
     Some \<lparr>mu_undo = undo, mu_users = users, mu_csum = csum_of cs, mu_weight = w, mu_fee = fee,
       mu_msha = msha, mu_mtim = mtim\<rparr>
   }"

text \<open>What is written to an undo file is read back.\<close>

definition undo_wf :: "msg_undo \<Rightarrow> bool" where
  "undo_wf u \<longleftrightarrow> keys_ok (mu_undo u) \<and> (\<forall>(i, v) \<in> set (mu_undo u). user_wf v) \<and> length (mu_msha u) = 32"

lemma undo_loop_bytes:
  assumes "keys_ok (acc @ un)" and "\<forall>(i, v) \<in> set un. user_wf v"
  shows "undo_loop (concat (map (\<lambda>(i, v). le_bytes 4 i @ user_data v) un) @ le_bytes 4 (k :: u32)) acc = (acc @ un, k)"
  using assms
proof (induction un arbitrary: acc)
  case Nil
  then show ?case by (simp add: undo_loop.simps SIZEOF_USER_def)
next
  case (Cons e un)
  obtain i v where e: "e = (i, v)" by force
  have v: "length (user_data v) = SIZEOF_USER" "user_of (user_data v) = v" using Cons.prems(2) length_user_data user_of_data by (auto simp: e)
  have "\<forall>x \<in> fst ` set acc. x < i" using Cons.prems(1) by (auto simp: keys_ok_def sorted_wrt_append e)
  then have m: "m_upd i v acc = acc @ [(i, v)]" by (rule m_upd_last)
  have "undo_loop (concat (map (\<lambda>(i, v). le_bytes 4 i @ user_data v) un) @ le_bytes 4 k) (acc @ [(i, v)]) = (acc @ e # un, k)"
    using Cons.IH [of "acc @ [(i, v)]"] Cons.prems by (simp add: e)
  then show ?case by (subst undo_loop.simps) (simp add: e v m)
qed

lemma load_undo_bytes:
  assumes "undo_wf u" and "d_mun dk (makefilename m (mg_path m)) = Some (undo_bytes u)"
  shows "load_undo m dk = Some u"
proof -
  let ?l = "undo_bytes u"
  have ne: "block_file (Some ?l) = Some ?l" 
    by (cases ?l) (auto simp: block_file_def undo_bytes_def csum_bytes_def dest: arg_cong [of _ _ length] split: prod.splits)
  have "undo_loop (drop 84 ?l) [] = (mu_undo u, mu_users u)"
    using undo_loop_bytes [of "[]" "mu_undo u" "mu_users u"] assms(1) by (simp add: undo_wf_def undo_bytes_def)
  then show ?thesis using assms ne by (simp add: load_undo_def rd_def rdw_def undo_wf_def undo_bytes_def)
qed

text \<open>
  C13: What \<open>save_undo\<close> writes to the undo file of a message, \<open>load_undo\<close> reads back: the accounts with
  their numbers, the number of accounts of the node, the checksum, the weight and the fee, and the
  message hash and time of the node.
\<close>

theorem load_undo_save_undo:
  assumes "undo_wf u"
  shows "load_undo m (msg_save_undo u m dk) = Some u"
  by (rule load_undo_bytes [OF assms]) (simp add: msg_save_undo_def)

theorem load_undo_save_undo_witness:
  "load_undo (message0 (\<lambda>_. 0) (replicate 32 0)) (msg_save_undo \<lparr>mu_undo = [(0, zero_user), (7, zero_user\<lparr>u_weight := 5\<rparr>)], mu_users = 9,
     mu_csum = (1, 2, 3, 4), mu_weight = - 1, mu_fee = 77, mu_msha = (replicate 32 0), mu_mtim = 1000\<rparr> (message0 (\<lambda>_. 0) (replicate 32 0)) disk0) =
   Some \<lparr>mu_undo = [(0, zero_user), (7, zero_user\<lparr>u_weight := 5\<rparr>)], mu_users = 9,
     mu_csum = (1, 2, 3, 4), mu_weight = - 1, mu_fee = 77, mu_msha = (replicate 32 0), mu_mtim = 1000\<rparr>"
  by (rule load_undo_save_undo) (simp add: undo_wf_def keys_ok_def user_wf_def zero_user_def)

text \<open>\<open>rename\<close> of a file that does not exist fails and changes nothing.\<close>

definition frename :: "mkey \<Rightarrow> mkey \<Rightarrow> (mkey \<Rightarrow> bytes option) \<Rightarrow> bool \<times> (mkey \<Rightarrow> bytes option)" where
  "frename a b fs = (case fs a of None \<Rightarrow> (False, fs) | Some f \<Rightarrow> (True, (fs(a := None))(b := Some f)))"

definition move :: "u32 \<Rightarrow> message \<Rightarrow> disk \<Rightarrow> (message \<times> disk) option" where
  "move nextpath m dk =
    (if mg_path m = 0 \<or> mg_path m = nextpath then Some (m, dk)
     else do {
       let a = makefilename m (mg_path m);
       let b = makefilename m nextpath;
       dk \<leftarrow> (if mg_status m AND MSGSTAT_SAV \<noteq> 0
         then (let dk = dk\<lparr>d_mun := snd (frename a b (d_mun dk))\<rparr>; (ok, fs) = frename a b (d_msg dk)
               in if ok then Some (dk\<lparr>d_msg := fs\<rparr>) else None)
         else Some dk);
       let m = m\<lparr>mg_path := nextpath\<rparr>;
       Some (m, save_path m dk)
     })"

definition bad_recover :: "message \<Rightarrow> disk \<Rightarrow> (bool \<times> message \<times> disk) option" where
  "bad_recover m dk =
    (if mg_status m AND (MSGSTAT_SAV OR MSGSTAT_BAD) \<noteq> (MSGSTAT_SAV OR MSGSTAT_BAD) then None
     else
       (let a = makefilename m (mg_path m);
            m = m\<lparr>mg_status := mg_status m AND NOT MSGSTAT_BAD\<rparr>;
            b = makefilename m (mg_path m);
            (_, us) = frename a b ((d_mun dk)(b := None));
            (ok, fs) = frename a b ((d_msg dk)(b := None))
        in Some (ok, m, dk\<lparr>d_mun := us, d_msg := fs\<rparr>)))"

definition bad_insert :: "message \<Rightarrow> disk \<Rightarrow> (bool \<times> message \<times> disk) option" where
  "bad_insert m dk =
    (if mg_status m AND (MSGSTAT_SAV OR MSGSTAT_BAD) \<noteq> MSGSTAT_SAV then None
     else
       (let a = makefilename m (mg_path m);
            m = m\<lparr>mg_status := mg_status m OR MSGSTAT_BAD\<rparr>;
            b = makefilename m (mg_path m);
            (_, us) = frename a b ((d_mun dk)(b := None));
            (ok, fs) = frename a b ((d_msg dk)(b := None))
        in Some (ok, m, dk\<lparr>d_mun := us, d_msg := fs\<rparr>)))"

definition remove_undo :: "message \<Rightarrow> disk \<Rightarrow> disk" where
  "remove_undo m dk = (if mg_path m = 0 \<or> mg_status m AND MSGSTAT_SAV = 0 then dk
     else dk\<lparr>d_mun := (d_mun dk)(makefilename m (mg_path m) := None)\<rparr>)"

definition remove_msg :: "message \<Rightarrow> disk \<Rightarrow> disk" where
  "remove_msg m dk = (if mg_path m = 0 \<or> mg_status m AND MSGSTAT_SAV = 0 then dk
     else (let dk = remove_undo m dk in dk\<lparr>d_msg := (d_msg dk)(makefilename m (mg_path m) := None)\<rparr>))"

section \<open>The peers of a message\<close>

definition busy_insert :: "u32 \<Rightarrow> u16 \<Rightarrow> message \<Rightarrow> message" where
  "busy_insert time p m = m\<lparr>mg_got := time, mg_busy := m_upd p () (mg_busy m)\<rparr>"

definition not_busy :: "u16 \<Rightarrow> message \<Rightarrow> bool" where
  "not_busy p m \<longleftrightarrow> map_of (mg_busy m) p = None"

definition know_find :: "u16 \<Rightarrow> message \<Rightarrow> bool" where
  "know_find p m \<longleftrightarrow> p \<in> set (mg_know m)"

text \<open>A peer that is erased leaves a 0, which a later insert uses again, the last one first.\<close>

definition know_erase :: "u16 \<Rightarrow> message \<Rightarrow> message" where
  "know_erase p m = m\<lparr>mg_know := map (\<lambda>k. if k = p then 0 else k) (mg_know m)\<rparr>"

fun last_free :: "u16 list \<Rightarrow> nat option" where
  "last_free [] = None"
| "last_free (k # ks) = (case last_free ks of Some i \<Rightarrow> Some (Suc i) | None \<Rightarrow> if k = 0 then Some 0 else None)"

definition know_insert :: "u16 \<Rightarrow> message \<Rightarrow> message" where
  "know_insert p m = (if p \<in> set (mg_know m) then m
     else case last_free (mg_know m) of
       Some i \<Rightarrow> m\<lparr>mg_know := (mg_know m)[i := p]\<rparr>
     | None \<Rightarrow> m\<lparr>mg_know := mg_know m @ [p]\<rparr>)"

definition know_emplace :: "u16 \<Rightarrow> message \<Rightarrow> bool \<times> message" where
  "know_emplace p m = (if know_find p m then (False, m) else (True, know_insert p m))"

definition sent_emplace :: "u16 \<Rightarrow> message \<Rightarrow> bool \<times> message" where
  "sent_emplace p m = (if map_of (mg_sent m) p \<noteq> None then (False, m)
     else (let m = know_insert p m
           in (True, m\<lparr>mg_sent := m_upd p () (mg_sent m), mg_busy := m_upd p () (mg_busy m)\<rparr>)))"

definition sent_insert :: "u16 \<Rightarrow> message \<Rightarrow> message" where
  "sent_insert p m = m\<lparr>mg_sent := m_upd p () (mg_sent m)\<rparr>"

definition sent_erase :: "u16 \<Rightarrow> message \<Rightarrow> message" where
  "sent_erase p m = m\<lparr>mg_sent := m_del p (mg_sent m)\<rparr>"

definition know_sent_erase :: "u16 \<Rightarrow> message \<Rightarrow> message" where
  "know_sent_erase p m = sent_erase p (know_erase p m)"

definition cansend :: "u16 \<Rightarrow> u32 \<Rightarrow> u32 \<Rightarrow> message \<Rightarrow> bool \<times> message" where
  "cansend p mynow maxwait m =
    (if mg_status m AND MSGSTAT_DAT \<noteq> 0 \<or> mg_len m \<noteq> header_length then (False, m)
     else if mynow \<le> mg_got m + MAX_MSGWAIT + maxwait then (False, m)
     else if map_of (mg_sent m) p = None then (True, m\<lparr>mg_got := mynow\<rparr>)
     else (False, m))"

text \<open>\<open>request\<close> takes a random peer of those that know the message and did not send it.\<close>

definition request :: "u32 \<Rightarrow> u64 \<Rightarrow> message \<Rightarrow> u16 \<times> message" where
  "request mynow rnd m =
    (if mg_status m AND MSGSTAT_DAT \<noteq> 0 \<or> mg_len m \<noteq> header_length then (0, m)
     else if mynow \<le> mg_got m + MAX_MSGWAIT then (0, m)
     else (let peers = filter (\<lambda>k. map_of (mg_sent m) k = None) (mg_know m) in
       if peers = [] then (0, m)
       else (peers ! (unat rnd mod length peers), m\<lparr>mg_got := mynow\<rparr>)))"

definition data_len :: "message \<Rightarrow> u32 option" where
  "data_len m = (if mg_len m > 64 then do { d \<leftarrow> mg_data m; head_len d } else Some (mg_len m))"

text \<open>\<open>update\<close> swaps the data of a requested message with the one received.\<close>

definition update_msg :: "message \<Rightarrow> message \<Rightarrow> message \<times> message" where
  "update_msg m new =
    (let m' = know_insert (mg_peer new) (m\<lparr>mg_len := mg_len new, mg_data := mg_data new\<rparr>);
         m' = m'\<lparr>mg_sigh := mg_sigh new, mg_peer := mg_peer new, mg_now := mg_now new, mg_got := mg_got new\<rparr>
     in (if mg_len m' > header_length then m'\<lparr>mg_status := mg_status m' OR MSGSTAT_DAT\<rparr> else m',
         new\<lparr>mg_len := mg_len m, mg_data := mg_data m\<rparr>))"

section \<open>The path of a transaction\<close>

text \<open>
  \<open>path_seek mlen tmax ttot n\<close>: the file position of inner hash \<open>n\<close>.  When the number of parts is odd
  the last part is an inner hash too, at \<open>m\<close>, but it is stored with the parts.  When it is even, \<open>m\<close> is
  meant to be out of reach.
\<close>

definition path_special :: "u32 \<Rightarrow> u32" where
  "path_special tmax = (if tmax mod 2 \<noteq> 0 then (let tm = drop_bit 1 tmax in push_bit 1 tm - bits tm) else 32 * 32)"

definition path_seek :: "u32 \<Rightarrow> u32 \<Rightarrow> u32 \<Rightarrow> u32 \<Rightarrow> u32 option" where
  "path_seek mlen tmax ttot n =
    (let m = path_special tmax; base = mlen + 32+4+4+4 + (4+32) * tmax in
     if n < m then (if base + 32 * n < ttot then Some (base + 32 * n) else None)
     else if n = m then Some (base - 32)
     else if base + 32 * (n - 1) < ttot then Some (base + 32 * (n - 1)) else None)"

definition read_hashes :: "bytes \<Rightarrow> (u32 \<Rightarrow> u32 option) \<Rightarrow> u32 list \<Rightarrow> bytes list option" where
  "read_hashes f seek ns = those (map (\<lambda>n. Option.bind (seek n) (\<lambda>p. rd (unat p) 32 f)) ns)"

text \<open>
  The record of part \<open>i\<close> in the index of the file: its position and its hash.
\<close>

definition part_rec :: "bytes \<Rightarrow> u32 \<Rightarrow> u32 \<Rightarrow> (u32 \<times> bytes) option" where
  "part_rec f mlen i = do {
     let p = unat (mlen + 32+4+4+4 + (4+32) * i);
     pos \<leftarrow> rdw p 4 f;
     h \<leftarrow> rd (p + 4) 32 f;
     Some (pos, h)
   }"

definition hash_tree_get ::
  "(bytes \<Rightarrow> bytes) \<Rightarrow> disk \<Rightarrow> u32 \<Rightarrow> bytes list \<Rightarrow> message \<Rightarrow> (bool \<times> bytes list \<times> u32 \<times> message) option" where
  "hash_tree_get sha dk tnum hs m =
    (if hashtype m \<noteq> MSGTYPE_MSG then None
     else case block_file (d_msg dk (makefilename m (mg_path m))) of
       None \<Rightarrow> Some (False, hs, 0, m)
     | Some f \<Rightarrow> do {
         w \<leftarrow> rdw 0 4 f;
         let mlen = (drop_bit 8 w :: u32);
         if mlen = 0 then Some (False, hs, 0, m)
         else do {
           mhash \<leftarrow> rd (unat mlen) 32 f;
           mnum \<leftarrow> rdw (unat mlen + 32) 4 f;
           ttot \<leftarrow> rdw (unat mlen + 36) 4 f;
           tmax \<leftarrow> rdw (unat mlen + 40) 4 f;
           if tmax = 0 \<or> tnum \<ge> tmax then Some (False, hs, mnum, m)
           else do {
             (pos, own) \<leftarrow> part_rec f mlen tnum;
             len \<leftarrow> (if tnum = tmax - 1 then Some (mlen - pos)
               else do { (nxt, _) \<leftarrow> part_rec f mlen (tnum + 1); Some (nxt - pos) });
             hs \<leftarrow> (if tnum mod 2 \<noteq> 0 then do { (_, h) \<leftarrow> part_rec f mlen (tnum - 1); Some (hs @ [own, h]) }
               else if tnum = tmax - 1 then Some (hs @ [own])
               else do { (_, h) \<leftarrow> part_rec f mlen (tnum + 1); Some (hs @ [own, h]) });
             if \<not> (len > 0 \<and> len < mlen) then None
             else do {
               d \<leftarrow> rd (unat pos) (unat len) f;
               let m = m\<lparr>mg_len := len, mg_data := Some d\<rparr>;
               path \<leftarrow> hashpath (tnum div 2) ((tmax + 1) div 2) [];
               ps \<leftarrow> read_hashes f (path_seek mlen tmax ttot) path;
               let hs = hs @ ps;
               Some (hashpathrun sha [] hs = mhash, hs, mnum, m)
             }
           }
         }
       })"

end
