(* ===== verification/Server_Process.thy ===== *)
theory Server_Process
  imports Ledger Message
begin

text \<open>
  \<open>server::process_message\<close> and \<open>server::undo_message\<close> of \<open>escd/server.cpp\<close>: the validation of a
  message, its effect on the ledger and the queues of the block, and its reversal.  The local
  variables of \<open>process_message\<close> that live through its loop are the record \<open>pm\<close>; the server is part
  of it because the loop changes it before the message is accepted.  A result \<open>(False, st)\<close> is a
  message that is rejected in state \<open>st\<close>; \<open>None\<close> is a failed \<open>assert\<close>, an \<open>exit\<close> or an access out of
  range.  The clock, the signature checks and the search for a secret key are parameters.
\<close>

section \<open>The state of a message in process\<close>

record pm =
  p_srv :: server
  p_log :: "(u64, log_t) amap"
  p_changes :: "(u32, user_t) amap"
  p_undo :: "(u32, user_t) amap"
  p_dsu :: "(u32, dsu_t) amap"
  p_deposit :: "(u64, i64) amap"
  p_bky :: "(u64, bytes) amap"
  p_bnk :: "(u64, u32) amap"
  p_get :: "(u64, get_t) amap"
  p_usr :: "(u64, usr_t) amap"
  p_uok :: "(u64, uok_t) amap"
  p_sbs :: "(u64, u32) amap"
  p_ubs :: "(u64, u32) amap"
  p_users :: u32
  p_lpos :: u32
  p_mpt :: "(u32 \<times> i64) list"
  p_csum :: csum4
  p_weight :: i64
  p_local_fee :: i64
  p_lodiv_fee :: i64
  p_myput_fee :: i64
  p_tmpos :: u32
  p_sign :: "(bytes \<times> bytes \<times> bytes \<times> bytes) list"

definition pm0 :: "server \<Rightarrow> u32 \<Rightarrow> pm" where
  "pm0 s users = \<lparr>p_srv = s, p_log = [], p_changes = [], p_undo = [], p_dsu = [], p_deposit = [],
     p_bky = [], p_bnk = [], p_get = [], p_usr = [], p_uok = [], p_sbs = [], p_ubs = [], p_users = users,
     p_lpos = 1, p_mpt = [], p_csum = (0, 0, 0, 0), p_weight = 0, p_local_fee = 0, p_lodiv_fee = 0,
     p_myput_fee = 0, p_tmpos = 0, p_sign = []\<rparr>"

definition dsu0 :: dsu_t where
  "dsu0 = \<lparr>ds_deposit = 0, ds_sus = 0, ds_uus = 0\<rparr>"

text \<open>
  An account of the node, from the changed ones or from the file, where a missing record is all
  zeros.  A record taken from the file is remembered for undo.
\<close>

definition load_account :: "u16 \<Rightarrow> u32 \<Rightarrow> pm \<Rightarrow> user_t \<times> pm" where
  "load_account sv uid st = (case map_of (p_changes st) uid of
     Some u \<Rightarrow> (u, st)
   | None \<Rightarrow>
       (let u = (case fget (d_usr (dsk (p_srv st)) sv) uid of None \<Rightarrow> zero_user | Some v \<Rightarrow> v)
        in (u, st\<lparr>p_changes := m_upd uid u (p_changes st), p_undo := m_upd uid u (p_undo st)\<rparr>)))"

text \<open>The key of a queued transaction: its position, its message, its node and the target node.\<close>

definition pm_ppi :: "message \<Rightarrow> u32 \<Rightarrow> u16 \<Rightarrow> pm \<Rightarrow> u64" where
  "pm_ppi m omsid bb st = make_ppi (ucast (p_tmpos st)) omsid (mg_msid m) (mg_svid m) bb"

section \<open>New accounts\<close>

text \<open>
  \<open>USR\<close> for the own node and \<open>UOK\<close>: the new account takes the next number or the number of a deleted
  account.  It is written to the account file here.
\<close>

definition new_target :: "u16 \<Rightarrow> u32 \<Rightarrow> pm \<Rightarrow> bool \<times> user_t \<times> pm" where
  "new_target sv nuser st =
    (if nuser < p_users st then
       (let (u, st) = load_account sv nuser st in
        if u_stat u AND USER_STAT_DELETED = 0 \<or> \<not> slt64 (u_weight u) TXS_DIV_FEE \<or>
           uint (s_now (srvs (p_srv st))) - USER_MIN_AGE \<le> uint (u_lpath u)
        then (False, u, st)
        else (True, u, st\<lparr>p_local_fee := p_local_fee st + u_weight u, p_weight := p_weight st - u_weight u\<rparr>))
     else (True, zero_user, st\<lparr>p_users := p_users st + 1\<rparr>))"

definition new_account ::
  "(bytes \<Rightarrow> bytes) \<Rightarrow> message \<Rightarrow> u32 \<Rightarrow> bytes \<Rightarrow> usertxs \<Rightarrow> pm \<Rightarrow> (bool \<times> pm) option" where
  "new_account sha m omsid buf t st = do {
     let usr = (ttype t = TXSTYPE_USR);
     nuser \<leftarrow> (if usr then rdw nuser_off 4 buf else Some (auser t));
     npkey \<leftarrow> rd (if usr then npkey_off else upkey_off) 32 buf;
     if nuser > p_users st then Some (False, st)
     else do {
       let (ok, u, st) = new_target (mg_svid m) nuser st;
       if \<not> ok then Some (False, st)
       else do {
         nu \<leftarrow> init_user sha (srvs (p_srv st)) (mg_svid m) nuser (if usr then USER_MIN_MASS else 0) npkey (ttime t);
         s \<leftarrow> on_srvs (put_user nu (mg_svid m) nuser) (p_srv st);
         let st = st\<lparr>p_srv := s, p_changes := m_upd nuser nu (p_changes st),
           p_csum := xor4 (xor4 (p_csum st) (u_csum u)) (u_csum nu)\<rparr>;
         Some (True, if usr then st\<lparr>p_weight := p_weight st + USER_MIN_MASS\<rparr>
           else st\<lparr>p_uok := m_upd (pm_ppi m omsid (mg_svid m) st)
             \<lparr>uo_auser = auser t, uo_bbank = bbank t, uo_buser = buser t, uo_pkey = npkey\<rparr> (p_uok st)\<rparr>)
       }
     }
   }"

section \<open>The effect of a transaction\<close>

text \<open>What a transaction type decides: the amount, the fee, the fee for other nodes, the sender, the state.\<close>

record txe =
  x_deduct :: i64
  x_fee :: i64
  x_remote :: i64
  x_tmass :: i64
  x_user :: user_t
  x_st :: pm

definition txe0 :: "usertxs \<Rightarrow> user_t \<Rightarrow> pm \<Rightarrow> txe" where
  "txe0 t u st = \<lparr>x_deduct = 0, x_fee = 0, x_remote = 0, x_tmass = tmass t, x_user = u, x_st = st\<rparr>"

definition dsu_at :: "u32 \<Rightarrow> pm \<Rightarrow> dsu_t" where
  "dsu_at uid st = m_at dsu0 (p_dsu st) uid"

definition set_dsu :: "u32 \<Rightarrow> dsu_t \<Rightarrow> pm \<Rightarrow> pm" where
  "set_dsu uid x st = st\<lparr>p_dsu := m_upd uid x (p_dsu st)\<rparr>"

text \<open>The money for an account of the own node waits in \<open>local_dsu\<close>, for another node in \<open>txs_deposit\<close>.\<close>

definition pay_to :: "u16 \<Rightarrow> u16 \<Rightarrow> u32 \<Rightarrow> i64 \<Rightarrow> pm \<Rightarrow> pm" where
  "pay_to ab bb bu x st =
    (if bb = ab then (let d = dsu_at bu st in set_dsu bu (d\<lparr>ds_deposit := ds_deposit d + x\<rparr>) st)
     else st\<lparr>p_deposit := m_add (dep_key bu (ucast bb)) x (p_deposit st)\<rparr>)"

definition tx_put :: "usertxs \<Rightarrow> user_t \<Rightarrow> pm \<Rightarrow> bool \<times> txe" where
  "tx_put t u st =
    (let mass = (if slt64 (tmass t) 0 then 0 else tmass t); x = (txe0 t u st)\<lparr>x_tmass := mass\<rparr> in
     if \<not> check_user (srvs (p_srv st)) (bbank t) (buser t) then (False, x)
     else
       (let st = pay_to (abank t) (bbank t) (buser t) mass st;
            far = (abank t \<noteq> bbank t);
            st = (if far \<and> bbank t = my_svid (p_srv st)
                  then st\<lparr>p_myput_fee := p_myput_fee st + TXS_LNG_FEE mass\<rparr> else st);
            fee = TXS_PUT_FEE mass + (if far then TXS_LNG_FEE mass else 0)
        in (True, x\<lparr>x_deduct := mass, x_fee := (if slt64 fee TXS_MIN_FEE then TXS_MIN_FEE else fee),
              x_remote := (if far then TXS_LNG_FEE mass else 0), x_st := st\<rparr>)))"

text \<open>One target of \<open>MPT\<close>; \<open>out\<close> are the targets so far.\<close>

definition mpt_step :: "usertxs \<Rightarrow> bytes \<Rightarrow> nat \<Rightarrow> u64 list \<times> bool \<times> txe \<Rightarrow> (u64 list \<times> bool \<times> txe) option" where
  "mpt_step t buf i st = (case st of (out, ok, x) \<Rightarrow>
     if \<not> ok then Some st
     else do {
       let off = toaddresses_off + i * (6+8);
       tbank \<leftarrow> rdw off 2 buf;
       tuser \<leftarrow> rdw (off + 2) 4 buf;
       mass \<leftarrow> rdw (off + 6) 8 buf;
       let to = dep_key tuser (ucast (tbank :: u16));
       if sle64 mass 0 \<or> to \<in> set out \<or> \<not> check_user (srvs (p_srv (x_st x))) tbank tuser then Some (out, False, x)
       else do {
         let st = pay_to (abank t) tbank tuser mass (x_st x);
         let st = (if tbank = my_svid (p_srv st) then st\<lparr>p_mpt := p_mpt st @ [(tuser, mass)]\<rparr> else st);
         let far = (abank t \<noteq> tbank);
         let st = (if far \<and> tbank = my_svid (p_srv st)
           then st\<lparr>p_myput_fee := p_myput_fee st + TXS_LNG_FEE mass\<rparr> else st);
         let lng = (if far then TXS_LNG_FEE mass else 0);
         Some (to # out, True, x\<lparr>x_fee := x_fee x + TXS_MPT_FEE mass + lng, x_remote := x_remote x + lng,
           x_tmass := x_tmass x + mass, x_st := st\<rparr>)
       }
     })"

definition tx_mpt :: "usertxs \<Rightarrow> bytes \<Rightarrow> user_t \<Rightarrow> pm \<Rightarrow> (bool \<times> txe) option" where
  "tx_mpt t buf u st = do {
     (_, ok, x) \<leftarrow> ofold (mpt_step t buf) [0..<unat (bbank t)]
       ([], True, (txe0 t u (st\<lparr>p_mpt := []\<rparr>))\<lparr>x_tmass := 0\<rparr>);
     let mn = TXS_MINMPT_FEE (bbank t);
     Some (ok, x\<lparr>x_fee := (if slt64 (x_fee x) mn then mn else x_fee x), x_deduct := x_tmass x\<rparr>)
   }"

definition tx_usr :: "message \<Rightarrow> u32 \<Rightarrow> usertxs \<Rightarrow> bytes \<Rightarrow> user_t \<Rightarrow> pm \<Rightarrow> (bool \<times> txe) option" where
  "tx_usr m omsid t buf u st =
    (let x = (txe0 t u st)\<lparr>x_deduct := USER_MIN_MASS, x_fee := TXS_USR_FEE\<rparr> in
     if abank t = bbank t then Some (True, x)
     else do {
       k \<leftarrow> rd npkey_off 32 buf;
       let st = st\<lparr>p_usr := m_upd (pm_ppi m omsid (mg_svid m) st) \<lparr>us_auser = auser t, us_bbank = bbank t, us_pkey = k\<rparr> (p_usr st)\<rparr>;
       s \<leftarrow> (if bbank t = my_svid (p_srv st)
         then if has_office (p_srv st) then Some (event (Ofip_add_remote_user (abank t) (auser t) k) (p_srv st)) else None
         else Some (p_srv st));
       Some (True, x\<lparr>x_fee := TXS_USR_FEE + TXS_RUS_FEE, x_remote := TXS_RUS_FEE, x_st := st\<lparr>p_srv := s\<rparr>\<rparr>)
     })"

definition tx_get :: "message \<Rightarrow> u32 \<Rightarrow> usertxs \<Rightarrow> user_t \<Rightarrow> pm \<Rightarrow> bool \<times> txe" where
  "tx_get m omsid t u st =
    (let x = (txe0 t u st)\<lparr>x_fee := TXS_GET_FEE\<rparr> in
     if abank t = bbank t then (False, x)
     else (True, x\<lparr>x_st := st\<lparr>p_get := m_upd (pm_ppi m omsid (bbank t) st)
       \<lparr>g_auser = auser t, g_buser = buser t, g_pkey = u_pkey u\<rparr> (p_get st)\<rparr>\<rparr>))"

text \<open>The node whose key a \<open>BKY\<close> transaction changes, 0 for none.\<close>

definition bky_node :: "u16 \<Rightarrow> u16 \<Rightarrow> server \<Rightarrow> u16 option" where
  "bky_node sv bb s = (if bb = 0 then Some sv
     else do {
       n \<leftarrow> node_at (srvs s) sv;
       o1 \<leftarrow> node_at (last_srvs s) bb;
       Some (if n_status n AND SERVER_UNO \<noteq> 0 \<and> n_status o1 AND SERVER_DBL \<noteq> 0 then bb else 0)
     })"

definition tx_bky :: "message \<Rightarrow> u32 \<Rightarrow> usertxs \<Rightarrow> bytes \<Rightarrow> user_t \<Rightarrow> pm \<Rightarrow> (bool \<times> txe) option" where
  "tx_bky m omsid t buf u st =
    (let x = (txe0 t u st)\<lparr>x_fee := TXS_BKY_FEE\<rparr> in
     if auser t \<noteq> 0 \<or> length (s_nodes (last_srvs (p_srv st))) \<le> unat (bbank t) then Some (False, x)
     else do {
       node \<leftarrow> bky_node (mg_svid m) (bbank t) (p_srv st);
       if node = 0 then Some (True, x)
       else do {
         n \<leftarrow> node_at (srvs (p_srv st)) node;
         opk \<leftarrow> rd opkey_off 32 buf;
         k \<leftarrow> rd (key_off TXSTYPE_BKY) 32 buf;
         if n_pk n \<noteq> opk then Some (False, x)
         else do {
           s \<leftarrow> (if node = my_svid (p_srv st)
             then if has_office (p_srv st) then Some (event (Ofip_change_pkey k) (p_srv st)) else None
             else Some (p_srv st));
           Some (True, x\<lparr>x_st := st\<lparr>p_srv := s, p_bky := m_upd (pm_ppi m omsid node st) k (p_bky st)\<rparr>\<rparr>)
         }
       }
     })"

text \<open>\<open>SBS\<close> and \<open>UBS\<close>; only VIP nodes and the node itself have a vote.\<close>

definition tx_bits :: "bool \<Rightarrow> message \<Rightarrow> u32 \<Rightarrow> usertxs \<Rightarrow> user_t \<Rightarrow> pm \<Rightarrow> (bool \<times> txe) option" where
  "tx_bits on m omsid t u st =
    (let x = (txe0 t u st)\<lparr>x_fee := (if on then TXS_SBS_FEE else TXS_UBS_FEE)\<rparr>; k = pm_ppi m omsid (bbank t) st in
     if auser t \<noteq> 0 \<or> length (s_nodes (last_srvs (p_srv st))) \<le> unat (bbank t) then Some (False, x)
     else do {
       n \<leftarrow> node_at (last_srvs (p_srv st)) (mg_svid m);
       Some (True,
         if n_status n AND SERVER_VIP \<noteq> 0 \<or> abank t = bbank t
         then x\<lparr>x_st := (if on then st\<lparr>p_sbs := m_upd k (ucast (tmass t)) (p_sbs st)\<rparr>
                         else st\<lparr>p_ubs := m_upd k (ucast (tmass t)) (p_ubs st)\<rparr>)\<rparr>
         else x)
     })"

text \<open>\<open>SUS\<close> and \<open>UUS\<close>: a bit that waits to be cleared is not set but no longer cleared, and vice versa.\<close>

definition tx_ustat :: "bool \<Rightarrow> usertxs \<Rightarrow> user_t \<Rightarrow> pm \<Rightarrow> bool \<times> txe" where
  "tx_ustat on t u st =
    (let x = (txe0 t u st)\<lparr>x_fee := (if on then TXS_SUS_FEE else TXS_UUS_FEE)\<rparr>;
         d = dsu_at (buser t) st; b = ucast (tmass t) AND 0xFFFE in
     if \<not> check_user (srvs (p_srv st)) (bbank t) (buser t) then (False, x)
     else if bbank t \<noteq> abank t then (True, x)
     else if on then
       (let mask = ds_uus d AND b
        in (True, x\<lparr>x_st := set_dsu (buser t) (d\<lparr>ds_uus := ds_uus d AND NOT mask, ds_sus := ds_sus d OR (b AND NOT mask)\<rparr>) st\<rparr>))
     else
       (let mask = ds_sus d AND b
        in (True, x\<lparr>x_st := set_dsu (buser t) (d\<lparr>ds_sus := ds_sus d AND NOT mask, ds_uus := ds_uus d OR (b AND NOT mask)\<rparr>) st\<rparr>)))"

text \<open>
  \<open>SAV\<close>: a VIP node compares the account data in the transaction with its own; \<open>None\<close> when the account
  is not in its file, which leaves the record it compares uninitialised.
\<close>

definition tx_sav :: "message \<Rightarrow> usertxs \<Rightarrow> bytes \<Rightarrow> user_t \<Rightarrow> pm \<Rightarrow> (bool \<times> txe) option" where
  "tx_sav m t buf u st = do {
     let s = p_srv st;
     let x = (txe0 t u st)\<lparr>x_fee := TXS_SAV_FEE\<rparr>;
     if mg_status m AND MSGSTAT_VAL = 0 \<and> iamvip s \<and> \<not> do_sync s \<and> mg_path m \<ge> start_path s then do {
       v \<leftarrow> fget (d_usr (dsk s) (mg_svid m)) (auser t);
       (_, v) \<leftarrow> msg_get_user (dsk s) m (auser t) v;
       d \<leftarrow> rd usr_off SIZEOF_USER buf;
       Some (user_data v = d, x)
     }
     else Some (True, x)
   }"

definition log_broadcast :: "u32 \<Rightarrow> bytes \<Rightarrow> bytes \<Rightarrow> bytes \<Rightarrow> u32 \<Rightarrow> u32 \<Rightarrow> disk \<Rightarrow> disk" where
  "log_broadcast path p hash pkey ms mpos d =
     d\<lparr>d_bro := (d_bro d)(path := d_bro d path @ p @ hash @ pkey @ le_bytes 4 ms @ le_bytes 4 mpos)\<rparr>"

definition tx_bro :: "message \<Rightarrow> usertxs \<Rightarrow> bytes \<Rightarrow> user_t \<Rightarrow> pm \<Rightarrow> (bool \<times> txe) option" where
  "tx_bro m t buf u st =
    (let s = p_srv st; x = (txe0 t u st)\<lparr>x_fee := TXS_BRO_FEE (bbank t)\<rparr> in
     if MAX_BROADCAST_LENGTH < bbank t then Some (False, x)
     else do {
       p \<leftarrow> rd 0 (nat (txsize t)) buf;
       Some (True, x\<lparr>x_st := st\<lparr>p_srv := s\<lparr>dsk := log_broadcast (s_now (srvs s)) p (u_hash u) (u_pkey u) (mg_msid m)
         (p_tmpos st) (dsk s)\<rparr>\<rparr>\<rparr>)
     })"

text \<open>
  An account whose owner set a lock accepts nothing but a transfer of 0 to itself, which is then
  free.
\<close>

definition locked :: "usertxs \<Rightarrow> u32 \<Rightarrow> user_t \<Rightarrow> bool" where
  "locked t lpath u \<longleftrightarrow> u_time u + LOCK_TIME < lpath \<and> u_user u \<noteq> 0 \<and> u_node u \<noteq> 0 \<and>
     (u_user u \<noteq> auser t \<or> u_node u \<noteq> abank t)"

definition unlocks :: "usertxs \<Rightarrow> bool" where
  "unlocks t \<longleftrightarrow> ttype t = TXSTYPE_PUT \<and> abank t = bbank t \<and> auser t = buser t \<and> tmass t = 0"

definition tx_effect :: "message \<Rightarrow> u32 \<Rightarrow> bytes \<Rightarrow> usertxs \<Rightarrow> user_t \<Rightarrow> pm \<Rightarrow> (bool \<times> txe) option" where
  "tx_effect m omsid buf t u st =
    (let ty = ttype t; x = txe0 t u st in
     if locked t (s_now (srvs (p_srv st))) u then Some (unlocks t, x)
     else if ty = TXSTYPE_BRO then tx_bro m t buf u st
     else if ty = TXSTYPE_PUT then Some (tx_put t u st)
     else if ty = TXSTYPE_MPT then tx_mpt t buf u st
     else if ty = TXSTYPE_USR then tx_usr m omsid t buf u st
     else if ty = TXSTYPE_BNK then
       Some (True, x\<lparr>x_deduct := BANK_MIN_UMASS + BANK_MIN_TMASS, x_fee := TXS_BNK_FEE,
         x_st := st\<lparr>p_bnk := m_upd (pm_ppi m omsid (mg_svid m) st) (auser t) (p_bnk st)\<rparr>\<rparr>)
     else if ty = TXSTYPE_GET then Some (tx_get m omsid t u st)
     else if ty = TXSTYPE_KEY then
       do { k \<leftarrow> rd (key_off TXSTYPE_KEY) 32 buf; Some (True, x\<lparr>x_user := u\<lparr>u_pkey := k\<rparr>, x_fee := TXS_KEY_FEE\<rparr>) }
     else if ty = TXSTYPE_BKY then tx_bky m omsid t buf u st
     else if ty = TXSTYPE_SBS then tx_bits True m omsid t u st
     else if ty = TXSTYPE_UBS then tx_bits False m omsid t u st
     else if ty = TXSTYPE_SUS then Some (tx_ustat True t u st)
     else if ty = TXSTYPE_UUS then Some (tx_ustat False t u st)
     else if ty = TXSTYPE_SAV then tx_sav m t buf u st
     else Some (True, x))"

section \<open>One transaction\<close>

text \<open>The dividend of the sender is booked before the balance is checked.\<close>

definition tx_div :: "txe \<Rightarrow> txe" where
  "tx_div x =
    (let st = x_st x; (dv, u, fee) = dividend (p_srv st) (x_user x) (p_lodiv_fee st) in
     x\<lparr>x_user := u, x_st := st\<lparr>p_lodiv_fee := fee, p_weight := (if dv \<noteq> NO_DIV then p_weight st + dv else p_weight st)\<rparr>\<rparr>)"

definition tx_need :: "usertxs \<Rightarrow> txe \<Rightarrow> i64" where
  "tx_need t x = x_deduct x + x_fee x + (if auser t \<noteq> 0 then 0 else sdiv64 BANK_MIN_UMASS 2)"

definition tx_funded :: "usertxs \<Rightarrow> txe \<Rightarrow> bool" where
  "tx_funded t x \<longleftrightarrow> \<not> slt64 (x_deduct x) 0 \<and> \<not> slt64 (x_fee x) 0 \<and>
     (sle64 (tx_need t x) (u_weight (x_user x)) \<or>
      sle64 (tx_need t x) (u_weight (x_user x) + ds_deposit (dsu_at (auser t) (x_st x))))"

text \<open>The log entries for the accounts of this node that a message of another node touches.\<close>

definition in_info :: "txe \<Rightarrow> bytes" where
  "in_info x = le_bytes 8 (u_weight (x_user x)) @ le_bytes 8 (x_deduct x) @ le_bytes 8 (x_fee x) @
     le_bytes 2 (u_stat (x_user x)) @ take 6 (u_pkey (x_user x))"

definition in_log :: "u32 \<Rightarrow> message \<Rightarrow> usertxs \<Rightarrow> u32 \<Rightarrow> i64 \<Rightarrow> bytes \<Rightarrow> log_t" where
  "in_log tm m t mpos w info = \<lparr>lg_time = tm, lg_type = ucast (ttype t) OR 0x8000, lg_node = abank t,
     lg_nmid = mg_msid m, lg_mpos = mpos, lg_user = auser t, lg_umid = amsid t, lg_weight = w, lg_info = info\<rparr>"

definition pm_log :: "u32 \<Rightarrow> log_t \<Rightarrow> pm \<Rightarrow> pm" where
  "pm_log user l st = st\<lparr>p_log := m_upd (log_key user (p_lpos st)) l (p_log st), p_lpos := p_lpos st + 1\<rparr>"

definition mpt_logs :: "u32 \<Rightarrow> message \<Rightarrow> usertxs \<Rightarrow> txe \<Rightarrow> pm \<Rightarrow> pm" where
  "mpt_logs tm m t x st = fold (\<lambda>(i, user, mass) st.
       pm_log user (in_log tm m t (p_tmpos st) mass (take 31 (in_info x) @ [if i = 0 then 1 else 0])) st)
     (List.enumerate 0 (p_mpt st)) st"

definition tx_logs :: "u32 \<Rightarrow> message \<Rightarrow> usertxs \<Rightarrow> txe \<Rightarrow> pm \<Rightarrow> pm" where
  "tx_logs tm m t x st =
    (let ty = ttype t; me = my_svid (p_srv st) in
     if mg_svid m = me then st
     else if (ty = TXSTYPE_PUT \<or> ty = TXSTYPE_SUS \<or> ty = TXSTYPE_UUS \<or> ty = TXSTYPE_GET) \<and> bbank t = me
     then pm_log (buser t) (in_log tm m t (p_tmpos st) (x_tmass x)
            (if ty = TXSTYPE_PUT then tinfo t else in_info x)) st
     else if ty = TXSTYPE_MPT then mpt_logs tm m t x st
     else st)"

definition tx_hash :: "(bytes \<Rightarrow> bytes) \<Rightarrow> bytes \<Rightarrow> bytes \<Rightarrow> bytes" where
  "tx_hash sha h sig = sha (h @ sha sig)"

text \<open>The sender pays, and what the message put on its account so far is credited.\<close>

definition tx_sender :: "(bytes \<Rightarrow> bytes) \<Rightarrow> bytes \<Rightarrow> usertxs \<Rightarrow> txe \<Rightarrow> pm \<Rightarrow> pm" where
  "tx_sender sha sig t x st =
    (let u = x_user x; d = dsu_at (auser t) st; delta = ds_deposit d - x_deduct x - x_fee x;
         u' = u\<lparr>u_msid := u_msid u + 1, u_time := ttime t, u_node := 0, u_user := 0,
                u_lpath := s_now (srvs (p_srv st)), u_hash := tx_hash sha (u_hash u) sig,
                u_weight := u_weight u + delta, u_stat := (u_stat u OR ds_sus d) AND NOT (ds_uus d)\<rparr>;
         st = set_dsu (auser t) dsu0 st
     in st\<lparr>p_changes := m_upd (auser t) u' (p_changes st), p_weight := p_weight st + delta,
           p_local_fee := p_local_fee st + (x_fee x - x_remote x)\<rparr>)"

text \<open>The signature of the sender is collected; all signatures are verified at once after the loop.\<close>

definition tx_sign :: "bool \<Rightarrow> u32 \<Rightarrow> nat \<Rightarrow> bytes \<Rightarrow> usertxs \<Rightarrow> user_t \<Rightarrow> pm \<Rightarrow> pm option" where
  "tx_sign check_sig tpos_max rest buf t u st =
    (if \<not> check_sig then Some st
     else if length (p_sign st) < unat tpos_max \<and> sign_mlen2 t < rest
     then do {
       p \<leftarrow> rd 0 (sign_mlen2 t) buf;
       sg \<leftarrow> rd (sign_mlen2 t) 64 buf;
       Some (st\<lparr>p_sign := p_sign st @ [(u_hash u, p, u_pkey u, sg)]\<rparr>)
     }
     else None)"

definition tx_account ::
  "crypto \<Rightarrow> u32 \<Rightarrow> message \<Rightarrow> u32 \<Rightarrow> bool \<Rightarrow> u32 \<Rightarrow> nat \<Rightarrow> bytes \<Rightarrow> usertxs \<Rightarrow> pm \<Rightarrow> (bool \<times> pm) option" where
  "tx_account c tm m omsid check_sig tpos_max rest buf t st =
    (if p_users st \<le> auser t then Some (False, st)
     else do {
       let (u, st) = load_account (mg_svid m) (auser t) st;
       st \<leftarrow> tx_sign check_sig tpos_max rest buf t u st;
       if u_msid u \<noteq> amsid t then Some (False, st)
       else do {
         (ok, x) \<leftarrow> tx_effect m omsid buf t u st;
         if \<not> ok then Some (False, x_st x)
         else do {
           let x = tx_div x;
           if \<not> tx_funded t x then Some (False, x_st x)
           else do {
             sig \<leftarrow> rd (get_sig t (ttype t)) 64 buf;
             Some (True, tx_sender (c_sha c) sig t x (tx_logs tm m t x (x_st x)))
           }
         }
       }
     })"

definition pm_con :: "u16 \<Rightarrow> usertxs \<Rightarrow> pm \<Rightarrow> pm option" where
  "pm_con sv t st = do {
     let s = p_srv st;
     n \<leftarrow> node_at (srvs s) sv;
     Some (st\<lparr>p_srv := s\<lparr>srvs := set_node sv (n\<lparr>n_port := ucast (abank t), n_ipv4 := auser t\<rparr>) (srvs s)\<rparr>\<rparr>)
   }"

text \<open>
  The body of the loop on the bytes from the current position; \<open>rest\<close> is their number up to the end
  of the message.  The result has the size of the transaction.
\<close>

definition pm_tx ::
  "crypto \<Rightarrow> u32 \<Rightarrow> message \<Rightarrow> u32 \<Rightarrow> bool \<Rightarrow> u32 \<Rightarrow> nat \<Rightarrow> bytes \<Rightarrow> pm \<Rightarrow> (bool \<times> nat \<times> pm) option" where
  "pm_tx c tm m omsid check_sig tpos_max rest buf st = do {
     let st = st\<lparr>p_tmpos := p_tmpos st + 1\<rparr>;
     (ok, t) \<leftarrow> parse (usertxs0 0) buf;
     let sz = nat (txsize t);
     let ty = ttype t;
     let lpath = s_now (srvs (p_srv st));
     if \<not> ok then Some (False, sz, st)
     else if ty = TXSTYPE_NON then Some (True, sz, st)
     else if ty = TXSTYPE_CON then do { st \<leftarrow> pm_con (mg_svid m) t st; Some (True, sz, st) }
     else if ty \<ge> TXSTYPE_INF \<or> ttime t > lpath + BLOCKSEC + 5 \<or> abank t \<noteq> mg_svid m then Some (False, sz, st)
     else if ty = TXSTYPE_UOK then do { (ok, st) \<leftarrow> new_account (c_sha c) m omsid buf t st; Some (ok, sz, st) }
     else do {
       (ok, st) \<leftarrow> (if ty = TXSTYPE_USR \<and> abank t = bbank t then new_account (c_sha c) m omsid buf t st else Some (True, st));
       if \<not> ok then Some (False, sz, st)
       else do { (ok, st) \<leftarrow> tx_account c tm m omsid check_sig tpos_max rest buf t st; Some (ok, sz, st) }
     }
   }"

section \<open>The loop over the message\<close>

function pm_loop ::
  "crypto \<Rightarrow> u32 \<Rightarrow> message \<Rightarrow> u32 \<Rightarrow> bool \<Rightarrow> u32 \<Rightarrow> bytes \<Rightarrow> nat \<Rightarrow> pm \<Rightarrow> (bool \<times> pm) option" where
  "pm_loop c tm m omsid check_sig tpos_max d p st =
    (if unat (mg_len m) \<le> p then Some (True, st)
     else do {
       (ok, sz, st) \<leftarrow> pm_tx c tm m omsid check_sig tpos_max (unat (mg_len m) - p) (drop p d) st;
       if ok then pm_loop c tm m omsid check_sig tpos_max d (p + sz) st else Some (False, st)
     })"
  by pat_completeness auto

lemma pm_tx_size: "pm_tx c tm m omsid check_sig tpos_max rest buf st = Some (True, sz, st') \<Longrightarrow> 0 < sz"
  by (auto simp: pm_tx_def Let_def split: bind_splits prod.splits if_splits dest!: parse_size(2))

termination pm_loop
  by (relation "measure (\<lambda>(c, tm, m, omsid, cs, tp, d, p, st). unat (mg_len m) - p)")
    (auto dest!: pm_tx_size)

declare pm_loop.simps [simp del]

section \<open>The end of the message\<close>

text \<open>
  The deposits and status bits for accounts of the node itself.  \<open>None\<close> when an account is not in
  the file.
\<close>

definition dsu_user :: "dsu_t \<Rightarrow> user_t \<Rightarrow> user_t" where
  "dsu_user d u = u\<lparr>u_weight := u_weight u + ds_deposit d, u_stat := (u_stat u OR ds_sus d) AND NOT (ds_uus d)\<rparr>"

definition dsu_step :: "(bytes \<Rightarrow> bytes) \<Rightarrow> u16 \<Rightarrow> u32 \<times> dsu_t \<Rightarrow> pm \<Rightarrow> pm option" where
  "dsu_step sha sv e st = (case e of (uid, d) \<Rightarrow>
     case map_of (p_changes st) uid of
       Some u \<Rightarrow>
         (let u' = user_csum sha (dsu_user d u) sv uid in
          Some (st\<lparr>p_csum := xor4 (xor4 (p_csum st) (u_csum u)) (u_csum u'), p_weight := p_weight st + ds_deposit d,
            p_changes := m_upd uid u' (p_changes st)\<rparr>))
     | None \<Rightarrow> do {
         u \<leftarrow> fget (d_usr (dsk (p_srv st)) sv) uid;
         let (dv, v, fee) = dividend (p_srv st) u (p_lodiv_fee st);
         let u' = user_csum sha (dsu_user d v) sv uid;
         Some (st\<lparr>p_undo := m_upd uid u (p_undo st), p_lodiv_fee := fee,
           p_csum := xor4 (xor4 (p_csum st) (u_csum u)) (u_csum u'),
           p_weight := (if dv \<noteq> NO_DIV then p_weight st + dv else p_weight st) + ds_deposit d,
           p_changes := m_upd uid u' (p_changes st)\<rparr>)
       })"

definition put_changes :: "(u32, user_t) amap \<Rightarrow> ufile \<Rightarrow> ufile" where
  "put_changes ch f = fold (\<lambda>(uid, u). fput uid u) ch f"

definition fee_log :: "u32 \<Rightarrow> message \<Rightarrow> i64 \<Rightarrow> i64 \<Rightarrow> pm \<Rightarrow> log_t" where
  "fee_log tm m profit mfee st = \<lparr>lg_time = tm, lg_type = TXSTYPE_FEE OR 0x8000, lg_node = mg_svid m,
     lg_nmid = mg_msid m, lg_mpos = 0, lg_user = 0, lg_umid = 0, lg_weight = profit + mfee,
     lg_info = le_bytes 8 (BANK_PROFIT (p_local_fee st)) @ le_bytes 8 (BANK_PROFIT (p_lodiv_fee st)) @ le_bytes 8 mfee @
       le_bytes 8 (BANK_PROFIT (p_myput_fee st))\<rparr>"

text \<open>A new key of the own node needs its secret key; without it the program exits.\<close>

definition own_key :: "keydir \<Rightarrow> bytes \<Rightarrow> server \<Rightarrow> server option" where
  "own_key kd k s = do {
     let (ok, sk) = find_key kd k (my_skey s);
     if \<not> ok then None
     else do {
       nk \<leftarrow> find_more_keys kd (last_srvs s) k (nkeys s);
       Some (s\<lparr>my_pkey := k, my_skey := sk, nkeys := nk\<rparr>)
     }
   }"

definition pm_bky_step :: "keydir \<Rightarrow> u64 \<times> bytes \<Rightarrow> server \<Rightarrow> server option" where
  "pm_bky_step kd e s = (case e of (ppb, k) \<Rightarrow> do {
     let node = ppi_bbank ppb;
     o1 \<leftarrow> node_at (last_srvs s) node;
     let s = (if n_status o1 AND SERVER_DBL \<noteq> 0 then s\<lparr>blk_bky := m_upd ppb node (blk_bky s)\<rparr> else s);
     n \<leftarrow> node_at (srvs s) node;
     let s = s\<lparr>srvs := set_node node (n\<lparr>n_pk := k\<rparr>) (srvs s)\<rparr>;
     if node = my_svid s then own_key kd k s else Some s
   })"

text \<open>The account file, the node totals and the undo data.\<close>

definition pm_store :: "message \<Rightarrow> u32 \<Rightarrow> i64 \<Rightarrow> pm \<Rightarrow> server option" where
  "pm_store m ousers profit st = do {
     let sv = mg_svid m;
     s \<leftarrow> add_fee sv profit (p_srv st);
     n \<leftarrow> node_at (srvs s) sv;
     let d = msg_save_undo \<lparr>mu_undo = p_undo st, mu_users = ousers, mu_csum = p_csum st, mu_weight = p_weight st,
       mu_fee = profit, mu_msha = n_msha n, mu_mtim = n_mtim n\<rparr> m (dsk s);
     let n = n\<lparr>n_weight := n_weight n + p_weight st, n_hash := xor4 (n_hash n) (p_csum st)\<rparr>;
     s \<leftarrow> on_srvs (save_undo sv (p_undo st) ousers) (s\<lparr>srvs := set_node sv n (srvs s), dsk := d\<rparr>);
     let d = dsk s;
     Some (s\<lparr>dsk := d\<lparr>d_usr := (d_usr d)(sv := put_changes (p_changes st) (d_usr d sv))\<rparr>\<rparr>)
   }"

text \<open>The deposits for other nodes and the transactions that wait for the end of the block.\<close>

definition pm_queue :: "keydir \<Rightarrow> pm \<Rightarrow> server \<Rightarrow> server option" where
  "pm_queue kd st s = do {
     let s = fold (\<lambda>(k, x). deposit_add k x) (p_deposit st) s;
     s \<leftarrow> ofold (pm_bky_step kd) (p_bky st) s;
     let s = s\<lparr>blk_bnk := m_inserts (p_bnk st) (blk_bnk s), blk_get := m_inserts (p_get st) (blk_get s),
       blk_usr := m_inserts (p_usr st) (blk_usr s), blk_uok := m_inserts (p_uok st) (blk_uok s),
       blk_sbs := m_inserts (p_sbs st) (blk_sbs s), blk_ubs := m_inserts (p_ubs st) (blk_ubs s)\<rparr>;
     let x = srvs s;
     Some (if block_only s then s else s\<lparr>srvs := x\<lparr>s_msg := s_msg x + 1, s_txs := s_txs x + ucast (p_tmpos st)\<rparr>\<rparr>)
   }"

definition pm_commit :: "crypto \<Rightarrow> keydir \<Rightarrow> u32 \<Rightarrow> message \<Rightarrow> u32 \<Rightarrow> pm \<Rightarrow> server option" where
  "pm_commit c kd tm m ousers st = do {
     st \<leftarrow> ofold (dsu_step (c_sha c) (mg_svid m)) (p_dsu st) st;
     let mfee = MESSAGE_FEE (mg_len m);
     let profit = BANK_PROFIT (p_local_fee st + p_lodiv_fee st) - mfee;
     s \<leftarrow> pm_store m ousers profit st;
     let lg = (if mg_svid m = my_svid s then m_upd 0 (fee_log tm m profit mfee st) (p_log st) else p_log st);
     s \<leftarrow> pm_queue kd st s;
     Some (s\<lparr>dsk := put_msglog (s_now (srvs s)) (mg_svid m) (mg_msid m) lg (dsk s)\<rparr>)
   }"

text \<open>\<open>process_message\<close> returns whether the message is accepted.\<close>

definition process_message :: "crypto \<Rightarrow> keydir \<Rightarrow> u32 \<Rightarrow> message \<Rightarrow> server \<Rightarrow> (bool \<times> server) option" where
  "process_message c kd tm m s = do {
     d \<leftarrow> mg_data m;
     if mg_now m < s_now (last_srvs s) then Some (False, s)
     else do {
       let sv = mg_svid m;
       let check_sig = (mg_status m AND MSGSTAT_VAL = 0 \<and> \<not> do_sync s \<and> sv \<noteq> my_svid s);
       tp \<leftarrow> rdw (unat (mg_len m) + 32 + 4 + 4) 4 d;
       if tp = 0 then None
       else do {
         u0 \<leftarrow> fget (d_usr (dsk s) sv) 0;
         if slt64 (u_weight u0) (MESSAGE_FEE (mg_len m)) then Some (False, s)
         else do {
           n \<leftarrow> node_at (srvs s) sv;
           o1 \<leftarrow> node_at (last_srvs s) sv;
           (ok, st) \<leftarrow> pm_loop c tm m (n_msid o1) check_sig (if check_sig then tp else 1) d data_offset (pm0 s (n_users n));
           if \<not> ok \<or> check_sig \<and> \<not> c_batch2 c (p_sign st) then Some (False, p_srv st)
           else do { s \<leftarrow> pm_commit c kd tm m (n_users n) st; Some (True, s) }
         }
       }
     }
   }"

text \<open>What \<open>validator\<close> records in the node of an accepted message.\<close>

definition commit_mark :: "message \<Rightarrow> server \<Rightarrow> server option" where
  "commit_mark m s = do {
     n \<leftarrow> node_at (srvs s) (mg_svid m);
     Some (s\<lparr>srvs := set_node (mg_svid m) (n\<lparr>n_msid := mg_msid m, n_mtim := mg_now m, n_msha := mg_sigh m\<rparr>) (srvs s)\<rparr>)
   }"

section \<open>Undoing a message\<close>

record um =
  v_srv :: server
  v_deposit :: "(u64, i64) amap"
  v_bky :: "(u16, unit) amap"
  v_tmpos :: u32

definition um_ppi :: "message \<Rightarrow> u32 \<Rightarrow> u16 \<Rightarrow> um \<Rightarrow> u64" where
  "um_ppi m omsid bb v = make_ppi (ucast (v_tmpos v)) omsid (mg_msid m) (mg_svid m) bb"

definition un_pay :: "u16 \<Rightarrow> u16 \<Rightarrow> u32 \<Rightarrow> i64 \<Rightarrow> um \<Rightarrow> um" where
  "un_pay ab bb bu x v = (if bb \<noteq> ab then v\<lparr>v_deposit := m_add (dep_key bu (ucast bb)) x (v_deposit v)\<rparr> else v)"

definition un_mpt_step :: "usertxs \<Rightarrow> bytes \<Rightarrow> nat \<Rightarrow> um \<Rightarrow> um option" where
  "un_mpt_step t buf i v = do {
     let off = toaddresses_off + i * (6+8);
     tbank \<leftarrow> rdw off 2 buf;
     tuser \<leftarrow> rdw (off + 2) 4 buf;
     mass \<leftarrow> rdw (off + 6) 8 buf;
     Some (un_pay (abank t) tbank tuser mass v)
   }"

text \<open>The key a node had before the first change in the message; \<open>old_bky\<close> has the nodes that are done.\<close>

definition un_key :: "keydir \<Rightarrow> u16 \<Rightarrow> usertxs \<Rightarrow> bytes \<Rightarrow> um \<Rightarrow> um option" where
  "un_key kd node t buf v =
    (if map_of (v_bky v) node \<noteq> None then Some v
     else do {
       let s = v_srv v;
       k \<leftarrow> rd opkey_off 32 buf;
       n \<leftarrow> node_at (srvs s) node;
       let s = s\<lparr>srvs := set_node node (n\<lparr>n_pk := k\<rparr>) (srvs s)\<rparr>;
       s \<leftarrow> (if node = my_svid s \<and> bbank t \<noteq> 0
         then do { s \<leftarrow> own_key kd k s; if has_office s then Some (event (Ofip_change_pkey k) s) else None }
         else Some s);
       Some (v\<lparr>v_srv := s, v_bky := set_add node (v_bky v)\<rparr>)
     })"

definition un_bky :: "keydir \<Rightarrow> message \<Rightarrow> u32 \<Rightarrow> usertxs \<Rightarrow> bytes \<Rightarrow> um \<Rightarrow> um option" where
  "un_bky kd m omsid t buf v = do {
     node \<leftarrow> bky_node (mg_svid m) (bbank t) (v_srv v);
     if node = 0 then Some v
     else do {
       v \<leftarrow> un_key kd node t buf v;
       let s = v_srv v;
       Some (v\<lparr>v_srv := s\<lparr>blk_bky := m_del (um_ppi m omsid node v) (blk_bky s)\<rparr>\<rparr>)
     }
   }"

definition un_effect :: "keydir \<Rightarrow> message \<Rightarrow> u32 \<Rightarrow> usertxs \<Rightarrow> bytes \<Rightarrow> um \<Rightarrow> um option" where
  "un_effect kd m omsid t buf v =
    (let ty = ttype t; s = v_srv v; own = um_ppi m omsid (mg_svid m) v; far = um_ppi m omsid (bbank t) v in
     if ty = TXSTYPE_PUT then Some (un_pay (abank t) (bbank t) (buser t) (tmass t) v)
     else if ty = TXSTYPE_MPT then ofold (un_mpt_step t buf) [0..<unat (bbank t)] v
     else if ty = TXSTYPE_BKY then un_bky kd m omsid t buf v
     else if ty = TXSTYPE_BNK then Some (v\<lparr>v_srv := s\<lparr>blk_bnk := m_del own (blk_bnk s)\<rparr>\<rparr>)
     else if ty = TXSTYPE_GET then Some (v\<lparr>v_srv := s\<lparr>blk_get := m_del far (blk_get s)\<rparr>\<rparr>)
     else if ty = TXSTYPE_USR then Some (v\<lparr>v_srv := s\<lparr>blk_usr := m_del own (blk_usr s)\<rparr>\<rparr>)
     else if ty = TXSTYPE_UOK then Some (v\<lparr>v_srv := s\<lparr>blk_uok := m_del own (blk_uok s)\<rparr>\<rparr>)
     else if ty = TXSTYPE_SBS then Some (v\<lparr>v_srv := s\<lparr>blk_sbs := m_del far (blk_sbs s)\<rparr>\<rparr>)
     else if ty = TXSTYPE_UBS then Some (v\<lparr>v_srv := s\<lparr>blk_ubs := m_del far (blk_ubs s)\<rparr>\<rparr>)
     else Some v)"

definition parsed_types :: "u8 list" where
  "parsed_types = [TXSTYPE_PUT, TXSTYPE_MPT, TXSTYPE_BKY, TXSTYPE_BNK, TXSTYPE_GET, TXSTYPE_USR, TXSTYPE_UOK,
     TXSTYPE_SBS, TXSTYPE_UBS]"

text \<open>The body of the loop; the \<open>assert\<close> compares a signed \<open>char\<close>.\<close>

definition un_tx :: "keydir \<Rightarrow> message \<Rightarrow> u32 \<Rightarrow> bytes \<Rightarrow> um \<Rightarrow> (nat \<times> um) option" where
  "un_tx kd m omsid buf v = do {
     let v = v\<lparr>v_tmpos := v_tmpos v + 1\<rparr>;
     ch \<leftarrow> schar buf;
     ty \<leftarrow> rdw 0 1 buf;
     if 16 \<le> ch then None
     else if ty \<in> set parsed_types then do {
       (ok, t) \<leftarrow> parse (usertxs0 0) buf;
       v \<leftarrow> un_effect kd m omsid t buf v;
       Some (nat (txsize t), v)
     }
     else do { sz \<leftarrow> get_size buf; Some (unat sz, v) }
   }"

lemma parse_known:
  assumes "parse t buf = Some (ok, t')" "rdw 0 1 buf = Some ty" "ty \<in> set parsed_types"
  shows "ok" "ttype t' = ty"
proof -
  have "ty < 28" using assms(3) by (auto simp: parsed_types_def)
  then have ok: "ok" using assms(1,2) by (auto simp: parse_def Let_def split: if_splits)
  then show "ok" "ttype t' = ty" using parse_size(5) [of t buf t'] assms(1,2) by auto
qed

lemma un_tx_size: "un_tx kd m omsid buf v = Some (sz, v') \<Longrightarrow> 0 < sz"
proof -
  assume a: "un_tx kd m omsid buf v = Some (sz, v')"
  then obtain ty :: u8 where ty: "rdw 0 1 buf = Some ty" by (auto simp: un_tx_def Let_def bind_eq_Some_conv)
  show ?thesis
  proof (cases "ty \<in> set parsed_types")
    case True
    then obtain ok t where t: "parse (usertxs0 0) buf = Some (ok, t)" "sz = nat (txsize t)"
      using a ty by (auto simp: un_tx_def Let_def bind_eq_Some_conv split: if_splits)
    with parse_known(1) [OF t(1) ty True] parse_size(2) [of "usertxs0 0" buf t] show ?thesis by simp
  next
    case False
    then show ?thesis using a ty
      by (auto simp: un_tx_def Let_def bind_eq_Some_conv dest: get_size_pos split: if_splits)
  qed
qed

function un_loop :: "keydir \<Rightarrow> message \<Rightarrow> u32 \<Rightarrow> bytes \<Rightarrow> nat \<Rightarrow> um \<Rightarrow> um option" where
  "un_loop kd m omsid d p v =
    (if unat (mg_len m) \<le> p then Some v
     else do {
       (sz, v) \<leftarrow> un_tx kd m omsid (drop p d) v;
       un_loop kd m omsid d (p + sz) v
     })"
  by pat_completeness auto

termination un_loop
  by (relation "measure (\<lambda>(kd, m, omsid, d, p, v). unat (mg_len m) - p)") (auto dest!: un_tx_size)

declare un_loop.simps [simp del]

definition un_store :: "message \<Rightarrow> msg_undo \<Rightarrow> server \<Rightarrow> server option" where
  "un_store m u s = do {
     let sv = mg_svid m;
     n \<leftarrow> node_at (srvs s) sv;
     s \<leftarrow> add_fee sv (- mu_fee u) s;
     let n = n\<lparr>n_weight := n_weight n - mu_weight u, n_hash := xor4 (n_hash n) (mu_csum u), n_msid := mg_msid m - 1,
       n_msha := mu_msha u, n_mtim := mu_mtim u, n_users := (if mu_users u \<noteq> 0 then mu_users u else n_users n)\<rparr>;
     let d = dsk s;
     let d = d\<lparr>d_usr := (d_usr d)(sv := put_changes (mu_undo u) (d_usr d sv))\<rparr>;
     Some (s\<lparr>srvs := set_node sv n (srvs s), dsk := del_msglog (s_now (srvs s)) sv (mg_msid m) d\<rparr>)
   }"

definition undo_message :: "keydir \<Rightarrow> message \<Rightarrow> server \<Rightarrow> (message \<times> server) option" where
  "undo_message kd m s = do {
     (r, m) \<leftarrow> load (my_svid s) (dsk s) m;
     if r = 0 \<or> mg_status m AND MSGSTAT_COM = 0 then None
     else do {
       d \<leftarrow> mg_data m;
       o1 \<leftarrow> node_at (last_srvs s) (mg_svid m);
       v \<leftarrow> un_loop kd m (n_msid o1) d data_offset \<lparr>v_srv = s, v_deposit = [], v_bky = [], v_tmpos = 0\<rparr>;
       let s = fold (\<lambda>(k, x). deposit_add k (- x)) (v_deposit v) (v_srv v);
       u \<leftarrow> load_undo m (dsk s);
       s \<leftarrow> un_store m u s;
       let m = unload (my_svid s) m;
       Some (m\<lparr>mg_status := mg_status m AND NOT MSGSTAT_COM\<rparr>, s)
     }
   }"

end
