(* ===== verification/Message_Effects.thy ===== *)
theory Message_Effects
  imports Server_Process
begin

text \<open>
  What one transaction of a message does to the accounts of its node.  While a message is in process
  the accounts are those of the file with the changed accounts on top (\<open>overlay\<close>), and their sums are
  the node's totals plus the running differences (\<open>core\<close>).  The effect of each transaction type
  leaves the accounts alone and pays only existing ones (\<open>eff_ok\<close>).
\<close>

section \<open>The accounts while a message is in process\<close>

definition overlay :: "ufile \<Rightarrow> (u32, user_t) amap \<Rightarrow> nat \<Rightarrow> user_t" where
  "overlay f ch i = (case map_of ch (of_nat i) of Some u \<Rightarrow> u | None \<Rightarrow> f ! i)"

text \<open>\<open>r\<close> bounds how many more transactions the message can have.\<close>

definition core ::
  "u32 \<Rightarrow> i64 \<Rightarrow> csum4 \<Rightarrow> ufile \<Rightarrow> (u32, user_t) amap \<Rightarrow> u32 \<Rightarrow> i64 \<Rightarrow> csum4 \<Rightarrow> nat \<Rightarrow> bool" where
  "core ps w h f ch k dw dc r \<longleftrightarrow>
     unat k \<le> length f \<and> keys_ok ch \<and> (\<forall>j \<in> fst ` set ch. j < k) \<and> unat k + r < 2 ^ 32 \<and>
     wsum (unat k) (overlay f ch) = w + dw \<and> csum (unat k) (overlay f ch) = xor4 h dc \<and>
     (\<forall>i < unat k. acc_ok ps (overlay f ch i) \<and> unat (u_msid (overlay f ch i)) + r < 2 ^ 32)"

lemma overlay_upd:
  "i < 2 ^ 32 \<Longrightarrow> overlay f (m_upd uid u ch) i = ((overlay f ch)(unat uid := u)) i"
proof -
  assume "i < 2 ^ 32"
  then have "(of_nat i :: u32) = uid \<longleftrightarrow> i = unat uid"
    by (auto simp: unat_of_nat take_bit_nat_eq_self)
  then show ?thesis by (simp add: overlay_def map_of_m_upd)
qed

lemma overlay_at: "overlay f ch (unat uid) = (case map_of ch uid of Some u \<Rightarrow> u | None \<Rightarrow> f ! unat uid)"
  by (simp add: overlay_def)

lemma core_account:
  assumes "core ps w h f ch k dw dc r" and "uid < k"
  shows "acc_ok ps (overlay f ch (unat uid))" "unat (u_msid (overlay f ch (unat uid))) + r < 2 ^ 32"
    "fget f uid = Some (f ! unat uid)"
  using assms by (auto simp: core_def fget_def word_less_nat_alt)

lemma core_less: "core ps w h f ch k dw dc r \<Longrightarrow> r' \<le> r \<Longrightarrow> core ps w h f ch k dw dc r'"
  unfolding core_def by (meson add_left_mono le_less_trans)

text \<open>Changing an account.\<close>

lemma core_set:
  assumes c: "core ps w h f ch k dw dc r" and uid: "uid < k"
    and w: "u_weight u = u_weight (overlay f ch (unat uid)) + d"
    and dc': "dc' = xor4 (xor4 dc (u_csum (overlay f ch (unat uid)))) (u_csum u)"
    and a: "acc_ok ps u" "unat (u_msid u) + r' < 2 ^ 32" "r' \<le> r"
  shows "core ps w h f (m_upd uid u ch) k (dw + d) dc' r'"
proof -
  let ?k = "unat k" and ?v = "(overlay f ch)(unat uid := u)"
  have lt: "unat uid < ?k" using uid by (simp add: word_less_nat_alt)
  have k: "?k < 2 ^ 32" using unsigned_less [of k, where ?'a = nat] by simp
  have eq: "overlay f (m_upd uid u ch) i = ?v i" if "i < ?k" for i using overlay_upd that k by simp
  have "wsum ?k (overlay f (m_upd uid u ch)) = wsum ?k ?v" by (rule wt.total_cong) (simp add: eq)
  also have "\<dots> = wsum ?k (overlay f ch) + d" by (rule wt.total_write [OF lt refl]) (simp add: w)
  finally have 1: "wsum ?k (overlay f (m_upd uid u ch)) = w + (dw + d)" using c by (simp add: core_def)
  have "csum ?k (overlay f (m_upd uid u ch)) = csum ?k ?v" by (rule cs.total_cong) (simp add: eq)
  also have "\<dots> = xor4 (csum ?k (overlay f ch)) (xor4 (u_csum (overlay f ch (unat uid))) (u_csum u))"
    by (rule cs.total_write [OF lt refl]) (metis cs.cancel xor4_laws(1,2))
  finally have 2: "csum ?k (overlay f (m_upd uid u ch)) = xor4 h dc'"
    using c by (simp add: core_def dc' xor4_laws(1))
  have 3: "acc_ok ps (overlay f (m_upd uid u ch) i) \<and> unat (u_msid (overlay f (m_upd uid u ch) i)) + r' < 2 ^ 32"
    if "i < ?k" for i
    using eq [OF that] c a that by (auto simp: core_def intro: le_less_trans [OF add_left_mono])
  show ?thesis using c 1 2 3 uid a(3)
    by (auto simp: core_def keys_ok_m_upd set_m_upd intro: le_less_trans [OF add_left_mono])
qed

text \<open>Taking an account from the file into the changed ones.\<close>

lemma core_load:
  assumes c: "core ps w h f ch k dw dc r" and uid: "uid < k" and n: "map_of ch uid = None"
  shows "core ps w h f (m_upd uid (f ! unat uid) ch) k dw dc r"
proof -
  have o: "overlay f ch (unat uid) = f ! unat uid" by (simp add: overlay_at n)
  have "core ps w h f (m_upd uid (f ! unat uid) ch) k (dw + 0) dc r"
    by (rule core_set [OF c uid]) (use core_account [OF c uid] in \<open>simp_all add: o xor4_laws(1,3,4)\<close>)
  then show ?thesis by simp
qed

text \<open>Writing to the file what the changed accounts have.\<close>

lemma core_put:
  assumes c: "core ps w h f ch k dw dc r" and uid: "uid < k" and m: "map_of ch uid = Some u"
  shows "core ps w h (fput uid u f) ch k dw dc r"
proof -
  have "overlay (fput uid u f) ch i = overlay f ch i" if "i < unat k" for i
  proof -
    have "i < length f" using that c by (simp add: core_def)
    then show ?thesis using m nth_fput [of i uid u f] by (auto simp: overlay_def length_fput split: option.split)
  qed
  moreover have "unat k \<le> length (fput uid u f)" using c by (auto simp: core_def length_fput)
  ultimately show ?thesis using c wt.total_cong [of "unat k" "overlay (fput uid u f) ch" "overlay f ch"]
      cs.total_cong [of "unat k" "overlay (fput uid u f) ch" "overlay f ch"]
    by (simp add: core_def)
qed

text \<open>A new account at the end.\<close>

lemma core_new:
  assumes c: "core ps w h f ch k dw dc r" and r: "0 < r" and a: "acc_ok ps u" "unat (u_msid u) + (r - 1) < 2 ^ 32"
  shows "core ps w h (fput k u f) (m_upd k u ch) (k + 1) (dw + u_weight u) (xor4 dc (u_csum u)) (r - 1)"
proof -
  let ?v = "overlay (fput k u f) (m_upd k u ch)"
  have k: "unat k + r < 2 ^ 32" using c by (simp add: core_def)
  then have k1: "unat (k + 1) = Suc (unat k)" using r by (simp add: unat_word_ariths)
  have old: "?v i = overlay f ch i" if "i < unat k" for i
  proof -
    have "i < length f" using that c by (simp add: core_def)
    then show ?thesis using that overlay_upd [of i "fput k u f" k u ch] k nth_fput [of i k u f]
      by (auto simp: overlay_def length_fput split: option.split)
  qed
  have new: "?v (unat k) = u" by (simp add: overlay_def map_of_m_upd)
  have "wsum (unat k) ?v = w + dw" "csum (unat k) ?v = xor4 h dc"
    using c wt.total_cong [of "unat k" ?v "overlay f ch"] cs.total_cong [of "unat k" ?v "overlay f ch"] old
    by (simp_all add: core_def)
  then have s: "wsum (unat (k + 1)) ?v = w + (dw + u_weight u)" "csum (unat (k + 1)) ?v = xor4 h (xor4 dc (u_csum u))"
    by (simp_all add: k1 new xor4_laws(1))
  have "acc_ok ps (?v i) \<and> unat (u_msid (?v i)) + (r - 1) < 2 ^ 32" if "i < unat (k + 1)" for i
  proof (cases "i = unat k")
    case False
    then have "i < unat k" using that k1 by simp
    then show ?thesis using old c by (auto simp: core_def)
  qed (use a new in simp)
  moreover have "j < k + 1" if "j < k \<or> j = k" for j
    using that k1 by (auto simp: word_less_nat_alt)
  ultimately show ?thesis using c s k r k1
    by (auto simp: core_def keys_ok_m_upd set_m_upd length_fput)
qed

text \<open>The file after the message.\<close>

lemma put_changes_file:
  assumes "keys_ok ch" and "\<forall>j \<in> fst ` set ch. unat j < length f"
  shows "length (put_changes ch f) = length f"
    and "i < length f \<Longrightarrow> i < 2 ^ 32 \<Longrightarrow> put_changes ch f ! i = overlay f ch i"
proof -
  have "length (put_changes ch f) = length f \<and>
    (\<forall>i < length f. i < 2 ^ 32 \<longrightarrow> put_changes ch f ! i = overlay f ch i)" using assms
  proof (induction ch arbitrary: f)
    case Nil
    then show ?case by (simp add: put_changes_def overlay_def)
  next
    case (Cons e ch)
    obtain j u where e: "e = (j, u)" by force
    have l: "length (fput j u f) = length f" using Cons.prems(2) e by (auto simp: length_fput)
    have n: "map_of ch j = None" using Cons.prems(1) e by (auto simp: keys_ok_Cons map_of_eq_None_iff)
    have "overlay (fput j u f) ch i = overlay f (e # ch) i" if "i < length f" "i < 2 ^ 32" for i
    proof -
      have "(of_nat i :: u32) = j \<longleftrightarrow> i = unat j" using that(2) by (auto simp: unat_of_nat take_bit_nat_eq_self)
      then show ?thesis using that l n nth_fput [of i j u f] by (auto simp: overlay_def e split: option.split)
    qed
    with Cons l show ?case by (simp add: put_changes_def e keys_ok_Cons)
  qed
  then show "length (put_changes ch f) = length f"
    and "i < length f \<Longrightarrow> i < 2 ^ 32 \<Longrightarrow> put_changes ch f ! i = overlay f ch i" by blast+
qed

lemma core_file:
  assumes c: "core ps w h f ch k dw dc r" and "k \<noteq> 0" and "n_users n = k" "n_weight n = w + dw" "n_hash n = xor4 h dc"
    and "(unat k - 1) div 64 < length (n_changed n)"
  shows "bank_inv ps n (put_changes ch f)"
proof -
  have k: "unat k < 2 ^ 32" "unat k \<le> length f" using unsigned_less [of k, where ?'a = nat] c by (simp_all add: core_def)
  have j: "keys_ok ch" "\<forall>j \<in> fst ` set ch. unat j < length f"
    using c by (auto simp: core_def word_less_nat_alt intro: less_le_trans)
  have eq: "put_changes ch f ! i = overlay f ch i" if "i < unat k" for i
    using put_changes_file(2) [OF j] that k by simp
  show ?thesis using c assms(2-) eq k put_changes_file(1) [OF j]
      wt.total_cong [of "unat k" "nth (put_changes ch f)" "overlay f ch"]
      cs.total_cong [of "unat k" "nth (put_changes ch f)" "overlay f ch"]
    by (simp add: bank_inv_def core_def)
qed

section \<open>The parts of the state that a transaction leaves alone\<close>

text \<open>Broadcast logs and calls into the office are the only effects on the server.\<close>

definition quiet :: "server \<Rightarrow> server \<Rightarrow> bool" where
  "quiet s t \<longleftrightarrow> (\<exists>b e. t = s\<lparr>dsk := (dsk s)\<lparr>d_bro := b\<rparr>, events := e\<rparr>)"

lemma quiet_refl [simp]: "quiet s s"
proof -
  have "s = s\<lparr>dsk := (dsk s)\<lparr>d_bro := d_bro (dsk s)\<rparr>, events := events s\<rparr>" by simp
  then show ?thesis unfolding quiet_def by blast
qed

lemma quiet_trans: "quiet s t \<Longrightarrow> quiet t u \<Longrightarrow> quiet s u"
  by (auto simp: quiet_def) blast

lemma quiet_event [simp]: "quiet s (event e s)"
proof -
  have "event e s = s\<lparr>dsk := (dsk s)\<lparr>d_bro := d_bro (dsk s)\<rparr>, events := events s @ [e]\<rparr>" by (simp add: event_def)
  then show ?thesis unfolding quiet_def by blast
qed

lemma quiet_simps:
  assumes "quiet s t"
  shows "srvs t = srvs s" "d_usr (dsk t) = d_usr (dsk s)" "last_srvs t = last_srvs s" "period_start t = period_start s"
    "my_svid t = my_svid s" "dividend t = dividend s"
  using assms by (auto simp: quiet_def dividend_def [abs_def] div_due_def div_gross_def cong: if_cong)

definition eff :: "pm \<Rightarrow> pm \<Rightarrow> bool" where
  "eff st st' \<longleftrightarrow> quiet (p_srv st) (p_srv st') \<and> p_changes st' = p_changes st \<and> p_undo st' = p_undo st \<and>
     p_users st' = p_users st \<and> p_csum st' = p_csum st \<and> p_weight st' = p_weight st \<and>
     p_lodiv_fee st' = p_lodiv_fee st \<and> p_local_fee st' = p_local_fee st \<and> p_tmpos st' = p_tmpos st"

lemma eff_refl [simp]: "eff st st"
  by (simp add: eff_def)

lemma eff_trans: "eff st st' \<Longrightarrow> eff st' st'' \<Longrightarrow> eff st st''"
  using quiet_trans by (auto simp: eff_def)

text \<open>What the message pays goes to existing accounts; \<open>sv\<close> is the node of the message.\<close>

definition pays_ok :: "u16 \<Rightarrow> pm \<Rightarrow> bool" where
  "pays_ok sv st \<longleftrightarrow> sv \<noteq> 0 \<and> unat sv < length (s_nodes (srvs (p_srv st))) \<and>
     n_users (s_nodes (srvs (p_srv st)) ! unat sv) = p_users st \<and> n_users (s_nodes (srvs (p_srv st)) ! 0) = 0 \<and>
     (\<forall>k \<in> fst ` set (p_dsu st). k < p_users st) \<and> deposits_ok (srvs (p_srv st)) (p_deposit st)"

lemma pays_ok_eff:
  "eff st st' \<Longrightarrow> p_dsu st' = p_dsu st \<Longrightarrow> p_deposit st' = p_deposit st \<Longrightarrow> pays_ok sv st' = pays_ok sv st"
  using quiet_simps [of "p_srv st" "p_srv st'"] by (auto simp: eff_def pays_ok_def)

lemma check_user_valid:
  "n_users (s_nodes x ! 0) = 0 \<Longrightarrow> check_user x b u \<Longrightarrow> valid_acc x b u"
  by (cases "b = 0") (auto simp: valid_acc_def check_user_def node_at_def split: if_splits)

lemma pays_ok_dsu:
  "pays_ok sv st \<Longrightarrow> check_user (srvs (p_srv st)) sv bu \<Longrightarrow> pays_ok sv (set_dsu bu d st)"
  by (auto simp: pays_ok_def set_dsu_def set_m_upd check_user_def node_at_def not_le)

lemma pay_to_ok:
  assumes "pays_ok sv st" and "check_user (srvs (p_srv st)) bb bu"
  shows "pays_ok sv (pay_to sv bb bu x st) \<and> eff st (pay_to sv bb bu x st)"
proof (cases "bb = sv")
  case True
  then show ?thesis using pays_ok_dsu [OF assms(1)] assms(2)
    by (simp add: pay_to_def Let_def eff_def) (simp add: set_dsu_def)
next
  case False
  have "valid_acc (srvs (p_srv st)) bb bu" using assms by (auto simp: pays_ok_def intro: check_user_valid)
  then have "deposits_ok (srvs (p_srv st)) (m_add (dep_key bu (ucast bb)) x (p_deposit st))"
    using assms(1) by (intro deposits_ok_add) (simp_all add: pays_ok_def)
  then show ?thesis using assms(1) False by (simp add: pay_to_def eff_def pays_ok_def)
qed

text \<open>The relation between a transaction before and after its effect.\<close>

definition eff_ok :: "u16 \<Rightarrow> user_t \<Rightarrow> pm \<Rightarrow> txe \<Rightarrow> bool" where
  "eff_ok sv u st x \<longleftrightarrow> eff st (x_st x) \<and> pays_ok sv (x_st x) \<and> (\<exists>k. x_user x = u\<lparr>u_pkey := k\<rparr>)"

lemma user_pkey_same: "\<exists>k. u = u\<lparr>u_pkey := k\<rparr>"
proof
  show "u = u\<lparr>u_pkey := u_pkey u\<rparr>" by simp
qed

lemma tx_put_ok:
  assumes "pays_ok (abank t) st" and "tx_put t u st = (True, x)"
  shows "eff_ok (abank t) u st x"
proof -
  define mass where "mass = (if slt64 (tmass t) 0 then 0 else tmass t)"
  have c: "check_user (srvs (p_srv st)) (bbank t) (buser t)"
    using assms(2) by (auto simp: tx_put_def Let_def split: if_splits)
  define st1 where "st1 = pay_to (abank t) (bbank t) (buser t) mass st"
  have 1: "pays_ok (abank t) st1" "eff st st1" using pay_to_ok [OF assms(1) c] by (simp_all add: st1_def)
  have x: "eff st1 (x_st x)" "p_dsu (x_st x) = p_dsu st1" "p_deposit (x_st x) = p_deposit st1" "x_user x = u"
    using assms(2) c unfolding tx_put_def Let_def mass_def [symmetric] st1_def [symmetric]
    by (auto simp: txe0_def eff_def)
  show ?thesis unfolding eff_ok_def using eff_trans [OF 1(2) x(1)] pays_ok_eff [OF x(1-3)] 1(1) user_pkey_same x(4) by simp
qed

lemma mpt_step_ok:
  assumes "pays_ok (abank t) (x_st x)" and "mpt_step t buf i (out, ok, x) = Some (out', True, x')"
  shows "ok \<and> eff_ok (abank t) (x_user x) (x_st x) x'"
proof -
  obtain tb tu mass where r: "rdw (toaddresses_off + i * (6+8)) 2 buf = Some (tb :: u16)"
    "rdw (toaddresses_off + i * (6+8) + 2) 4 buf = Some (tu :: u32)"
    "rdw (toaddresses_off + i * (6+8) + 6) 8 buf = Some (mass :: i64)" and ok: "ok"
    using assms(2) by (auto simp: mpt_step_def Let_def bind_eq_Some_conv split: if_splits)
  have c: "check_user (srvs (p_srv (x_st x))) tb tu"
    using assms(2) unfolding mpt_step_def Let_def r by (auto simp: r ok split: if_splits)
  define st1 where "st1 = pay_to (abank t) tb tu mass (x_st x)"
  have 1: "pays_ok (abank t) st1" "eff (x_st x) st1" using pay_to_ok [OF assms(1) c] by (simp_all add: st1_def)
  have x: "eff st1 (x_st x')" "p_dsu (x_st x') = p_dsu st1" "p_deposit (x_st x') = p_deposit st1" "x_user x' = x_user x"
    using assms(2) c unfolding mpt_step_def Let_def r
    by (auto simp: r eff_def ok st1_def split: if_splits)
  show ?thesis unfolding eff_ok_def using eff_trans [OF 1(2) x(1)] pays_ok_eff [OF x(1-3)] 1(1) user_pkey_same x(4) ok by simp
qed

lemma mpt_loop_ok:
  assumes "pays_ok (abank t) (x_st x)" and "ofold (mpt_step t buf) is (out, ok, x) = Some (out', True, x')"
  shows "eff_ok (abank t) (x_user x) (x_st x) x'"
  using assms
proof (induction "is" arbitrary: out ok x)
  case Nil
  then show ?case using user_pkey_same by (simp add: eff_ok_def)
next
  case (Cons i "is")
  obtain o1 ok1 x1 where s: "mpt_step t buf i (out, ok, x) = Some (o1, ok1, x1)"
    and l: "ofold (mpt_step t buf) is (o1, ok1, x1) = Some (out', True, x')"
    using Cons.prems(2) by (auto simp: bind_eq_Some_conv)
  have stuck: "ofold (mpt_step t buf) js (o1, False, x1) = Some (o1, False, x1)" for js
    by (induction js) (simp_all add: mpt_step_def)
  have ok1: "ok1" using l stuck by (cases ok1) simp_all
  from mpt_step_ok [OF Cons.prems(1)] s ok1 have 1: "eff_ok (abank t) (x_user x) (x_st x) x1" by simp
  then have "pays_ok (abank t) (x_st x1)" by (simp add: eff_ok_def)
  from Cons.IH [OF this l] 1 show ?case using eff_trans by (auto simp: eff_ok_def)
qed

lemma tx_mpt_ok:
  assumes "pays_ok (abank t) st" and "tx_mpt t buf u st = Some (True, x)"
  shows "eff_ok (abank t) u st x"
proof -
  let ?st = "st\<lparr>p_mpt := []\<rparr>" and ?x0 = "(txe0 t u (st\<lparr>p_mpt := []\<rparr>))\<lparr>x_tmass := 0\<rparr>"
  obtain out x1 where l: "ofold (mpt_step t buf) [0..<unat (bbank t)] ([], True, ?x0) = Some (out, True, x1)"
    and x: "x_st x = x_st x1" "x_user x = x_user x1"
    using assms(2) by (auto simp: tx_mpt_def Let_def bind_eq_Some_conv)
  have e: "eff st ?st" by (simp add: eff_def)
  then have "pays_ok (abank t) (x_st ?x0)" using assms(1) pays_ok_eff [of st ?st] by (simp add: txe0_def)
  from mpt_loop_ok [OF this l] x eff_trans [OF e] show ?thesis by (simp add: eff_ok_def txe0_def)
qed

lemma office_quiet:
  "(if b then if has_office s then Some (event e s) else None else Some s) = Some t \<Longrightarrow> quiet s t"
  by (auto split: if_splits)

lemma eff_okI:
  "pays_ok sv st \<Longrightarrow> eff st (x_st x) \<Longrightarrow> p_dsu (x_st x) = p_dsu st \<Longrightarrow> p_deposit (x_st x) = p_deposit st \<Longrightarrow>
   x_user x = u\<lparr>u_pkey := k\<rparr> \<Longrightarrow> eff_ok sv u st x"
  using pays_ok_eff by (auto simp: eff_ok_def)

lemma eff_okS:
  "pays_ok sv st \<Longrightarrow> eff st (x_st x) \<Longrightarrow> p_dsu (x_st x) = p_dsu st \<Longrightarrow> p_deposit (x_st x) = p_deposit st \<Longrightarrow>
   x_user x = u \<Longrightarrow> eff_ok sv u st x"
  using pays_ok_eff user_pkey_same by (auto simp: eff_ok_def)

lemma tx_usr_ok:
  assumes "pays_ok sv st" and "tx_usr m omsid t buf u st = Some (True, x)"
  shows "eff_ok sv u st x"
  using assms(2) by (intro eff_okS [OF assms(1)])
    (auto simp: tx_usr_def Let_def txe0_def bind_eq_Some_conv eff_def split: if_split_asm)

lemma tx_bky_ok:
  assumes "pays_ok sv st" and "tx_bky m omsid t buf u st = Some (True, x)"
  shows "eff_ok sv u st x"
  using assms(2) by (intro eff_okS [OF assms(1)])
    (auto simp: tx_bky_def Let_def txe0_def bind_eq_Some_conv eff_def split: if_split_asm)

lemma tx_ustat_ok:
  assumes "pays_ok (abank t) st" and "tx_ustat on t u st = (True, x)"
  shows "eff_ok (abank t) u st x"
proof (cases "bbank t = abank t")
  case True
  then obtain d where x: "x_st x = set_dsu (buser t) d st" "x_user x = u" and c: "check_user (srvs (p_srv st)) (abank t) (buser t)"
    using assms(2) by (auto simp: tx_ustat_def Let_def txe0_def split: if_splits)
  show ?thesis using pays_ok_dsu [OF assms(1) c] user_pkey_same x by (simp add: eff_ok_def eff_def) (simp add: set_dsu_def)
next
  case False
  then show ?thesis using assms(2)
    by (intro eff_okS [OF assms(1)]) (auto simp: tx_ustat_def txe0_def Let_def split: if_splits)
qed

lemma quiet_broadcast: "quiet s (s\<lparr>dsk := log_broadcast path p h k ms pos (dsk s)\<rparr>)"
  unfolding quiet_def log_broadcast_def
  by (rule exI [of _ "(d_bro (dsk s))(path := d_bro (dsk s) path @ p @ h @ k @ le_bytes 4 ms @ le_bytes 4 pos)"],
    rule exI [of _ "events s"]) simp

lemma tx_bro_ok:
  assumes "pays_ok sv st" and "tx_bro m t buf u st = Some (True, x)"
  shows "eff_ok sv u st x"
proof -
  obtain p where x: "x = (txe0 t u st)\<lparr>x_fee := TXS_BRO_FEE (bbank t), x_st := st\<lparr>p_srv := (p_srv st)
      \<lparr>dsk := log_broadcast (s_now (srvs (p_srv st))) p (u_hash u) (u_pkey u) (mg_msid m) (p_tmpos st) (dsk (p_srv st))\<rparr>\<rparr>\<rparr>"
    using assms(2) by (simp add: tx_bro_def Let_def bind_eq_Some_conv split: if_split_asm) metis
  show ?thesis using quiet_broadcast by (intro eff_okS [OF assms(1)]) (simp_all add: x eff_def txe0_def)
qed

lemma tx_bits_ok:
  assumes "pays_ok sv st" and "tx_bits on m omsid t u st = Some (True, x)"
  shows "eff_ok sv u st x"
proof -
  have c: "\<not> (auser t \<noteq> 0 \<or> length (s_nodes (last_srvs (p_srv st))) \<le> unat (bbank t))"
    using assms(2) by (rule contrapos_pn) (simp add: tx_bits_def)
  then obtain n where n: "node_at (last_srvs (p_srv st)) (mg_svid m) = Some n"
    using assms(2) by (cases "node_at (last_srvs (p_srv st)) (mg_svid m)") (simp_all add: tx_bits_def Let_def)
  note e = assms(2) [unfolded tx_bits_def Let_def if_not_P [OF c] n bind.bind_lunit option.inject prod.inject]
  show ?thesis
    by (rule eff_okS [OF assms(1)]) (simp_all add: e [THEN conjunct2, symmetric] txe0_def eff_def)
qed

lemma tx_get_ok:
  assumes "pays_ok sv st" and "tx_get m omsid t u st = (True, x)"
  shows "eff_ok sv u st x"
  using assms(2) by (intro eff_okS [OF assms(1)]) (auto simp: tx_get_def Let_def txe0_def eff_def split: if_split_asm)

lemma tx_sav_ok:
  assumes "pays_ok sv st" and "tx_sav m t buf u st = Some (True, x)"
  shows "eff_ok sv u st x"
  using assms(2) by (intro eff_okS [OF assms(1)])
    (auto simp: tx_sav_def Let_def txe0_def bind_eq_Some_conv split_beta split: if_split_asm)

lemma tx_bnk_ok:
  fixes u :: user_t and t :: usertxs
  assumes "pays_ok sv st"
  shows "eff_ok sv u st ((txe0 t u st)\<lparr>x_deduct := a, x_fee := b, x_st := st\<lparr>p_bnk := c\<rparr>\<rparr>)"
  using assms by (rule eff_okS) (simp_all add: txe0_def eff_def)

lemma tx_key_ok:
  fixes u :: user_t and t :: usertxs
  assumes "pays_ok sv st"
  shows "eff_ok sv u st ((txe0 t u st)\<lparr>x_user := u\<lparr>u_pkey := k\<rparr>, x_fee := b\<rparr>)"
  using assms by (rule eff_okI) (simp_all add: txe0_def)

lemma tx_none_ok: "pays_ok sv st \<Longrightarrow> eff_ok sv u st (txe0 t u st)"
  by (rule eff_okS) (simp_all add: txe0_def)

lemmas tx_ok = tx_bro_ok tx_put_ok tx_mpt_ok tx_usr_ok tx_get_ok tx_bky_ok tx_bits_ok tx_ustat_ok tx_sav_ok

lemma tx_effect_ok:
  assumes p: "pays_ok (abank t) st" and e: "tx_effect m omsid buf t u st = Some (True, x)"
  shows "eff_ok (abank t) u st x"
  using e tx_none_ok [OF p] tx_bnk_ok [OF p] tx_key_ok [OF p]
  unfolding tx_effect_def Let_def
  by (simp only: split: if_split_asm) (auto simp: bind_eq_Some_conv dest: tx_ok [OF p])

end
