(* ===== verification/Server_Commit.thy ===== *)
theory Server_Commit
  imports Ledger
begin

text \<open>
  The end of a block in \<open>escd/server.cpp\<close>: \<open>commit_block\<close> (queued requests of the block),
  \<open>commit_dividends\<close>, \<open>commit_deposit\<close>, \<open>commit_bankfee\<close> and \<open>finish_block\<close>.  \<open>None\<close> is the end of the
  process or an access without a defined result, such as the use of an account record that was
  declared but not read because the account file is too short.
\<close>

section \<open>Remote accounts\<close>

text \<open>\<open>uin_t\<close>, ordered by \<open>memcmp\<close>\<close>

datatype uin_t = Uin (ui_bbank: u16) (ui_abank: u16) (ui_auser: u32) (ui_pkey: bytes)

definition uin_bytes :: "uin_t \<Rightarrow> bytes" where
  "uin_bytes u = le_bytes 2 (ui_bbank u) @ le_bytes 2 (ui_abank u) @ le_bytes 4 (ui_auser u) @ ui_pkey u"

lemma uin_bytes_inj: "uin_bytes u = uin_bytes v \<Longrightarrow> u = v"
proof (cases u; cases v)
  fix a b c p a' b' c' p'
  assume eq: "uin_bytes u = uin_bytes v" and u: "u = Uin a b c p" and v: "v = Uin a' b' c' p'"
  have "le_bytes 2 a = le_bytes 2 a'" "le_bytes 2 b = le_bytes 2 b'" "le_bytes 4 c = le_bytes 4 c'" "p = p'"
    using eq by (simp_all add: uin_bytes_def u v)
  then have "le_word (le_bytes 2 a) = (le_word (le_bytes 2 a') :: u16)"
    "le_word (le_bytes 2 b) = (le_word (le_bytes 2 b') :: u16)"
    "le_word (le_bytes 4 c) = (le_word (le_bytes 4 c') :: u32)" by simp_all
  then show "u = v" using \<open>p = p'\<close> by (simp add: u v)
qed

instantiation uin_t :: linorder
begin

definition less_eq_uin_t :: "uin_t \<Rightarrow> uin_t \<Rightarrow> bool" where
  "less_eq_uin_t u v \<longleftrightarrow> uin_bytes u \<le> uin_bytes v"

definition less_uin_t :: "uin_t \<Rightarrow> uin_t \<Rightarrow> bool" where
  "less_uin_t u v \<longleftrightarrow> uin_bytes u < uin_bytes v"

instance
  by standard (auto simp: less_eq_uin_t_def less_uin_t_def uin_bytes_inj)

end

text \<open>
  The local variables of \<open>commit_block\<close>: the position in the log, the log, the bytes of the history
  log and the set of nodes to check.
\<close>

record cblk =
  k_lpos :: u32
  k_log :: "(u64, log_t) amap"
  k_hl :: bytes
  k_upd :: "(u16, unit) amap"

definition add_log :: "u32 \<Rightarrow> log_t \<Rightarrow> cblk \<Rightarrow> cblk" where
  "add_log user l c = c\<lparr>k_log := m_upd (log_key user (k_lpos c)) l (k_log c), k_lpos := k_lpos c + 1\<rparr>"

definition blk_log :: "u32 \<Rightarrow> u8 \<Rightarrow> u16 \<Rightarrow> u32 \<Rightarrow> u32 \<Rightarrow> u32 \<Rightarrow> i64 \<Rightarrow> bytes \<Rightarrow> log_t" where
  "blk_log tm ty node user umid mpos weight info =
     \<lparr>lg_time = tm, lg_type = ucast ty OR 0x8000, lg_node = node, lg_nmid = 0, lg_mpos = mpos,
      lg_user = user, lg_umid = umid, lg_weight = weight, lg_info = info\<rparr>"

definition usr_step :: "server \<Rightarrow> u64 \<times> usr_t \<Rightarrow> (uin_t, u64 list) amap \<Rightarrow> (uin_t, u64 list) amap option" where
  "usr_step s kt uin = (case kt of (k, tx) \<Rightarrow> do {
     txid \<leftarrow> ppi_txid s k;
     let nuin = Uin (us_bbank tx) (ppi_abank k) (us_auser tx) (us_pkey tx);
     Some (m_upd nuin (m_at [] uin nuin @ [txid]) uin)
   })"

definition uok_step ::
  "u32 \<Rightarrow> u64 \<times> uok_t \<Rightarrow> server \<times> cblk \<times> (uin_t, u64 list) amap \<Rightarrow> (server \<times> cblk \<times> (uin_t, u64 list) amap) option" where
  "uok_step tm kt st = (case kt of (k, tx) \<Rightarrow> case st of (s, c, uin) \<Rightarrow>
    (let ab = ppi_abank k; nuin = Uin ab (uo_bbank tx) (uo_buser tx) (uo_pkey tx); now = s_now (srvs s) in
     case m_at [] uin nuin of
       usr_txid # txids \<Rightarrow> do {
         let s = deposit_add (dep_key (uo_auser tx) (ucast ab OR 0x10000)) USER_MIN_MASS s;
         s \<leftarrow> add_fee ab (BANK_PROFIT TXS_RUS_FEE) s;
         let s = (if ab = my_svid s then s\<lparr>myusr_fee := myusr_fee s + BANK_PROFIT TXS_RUS_FEE\<rparr> else s);
         let c = (if ab = my_svid s
           then add_log (uo_auser tx) (blk_log tm TXSTYPE_USR (uo_bbank tx) (uo_buser tx) 0 now USER_MIN_MASS (uo_pkey tx)) c
           else c);
         let c = (if uo_bbank tx = my_svid s
           then add_log (uo_buser tx) (blk_log tm TXSTYPE_UOK ab (uo_auser tx) 1 now 0 (uo_pkey tx)) c else c);
         txid \<leftarrow> ppi_txid s k;
         Some (s, c\<lparr>k_hl := save_uso (uo_buser tx) (uo_auser tx) usr_txid txid (k_hl c)\<rparr>, m_upd nuin txids uin)
       }
     | [] \<Rightarrow> do {
         let c = (if uo_bbank tx = my_svid s
           then add_log (uo_buser tx) (blk_log tm TXSTYPE_UOK ab (uo_auser tx) 0 now 0 (uo_pkey tx)) c else c);
         txid \<leftarrow> ppi_txid s k;
         Some (s, c\<lparr>k_hl := save_uok (uo_bbank tx) (uo_buser tx) (uo_auser tx) txid (k_hl c)\<rparr>, uin)
       }))"

text \<open>One turn of the inner loop that sends back the funds of an unmatched request.\<close>

definition uin_back :: "u32 \<Rightarrow> uin_t \<times> u64 \<Rightarrow> server \<times> cblk \<Rightarrow> server \<times> cblk" where
  "uin_back tm ux st = (case ux of (u, usr_txid) \<Rightarrow> case st of (s, c) \<Rightarrow>
    (let s' = deposit_add (dep_key (ui_auser u) (ucast (ui_abank u) OR 0x10000)) USER_MIN_MASS s;
         c = (if ui_abank u = my_svid s
           then add_log (ui_auser u)
             (blk_log tm TXSTYPE_UOK (ui_bbank u) 0 0 (s_now (srvs s)) USER_MIN_MASS (ui_pkey u)) c else c)
     in (s', c\<lparr>k_hl := save_usr (ui_auser u) (ui_bbank u) usr_txid (k_hl c)\<rparr>)))"

definition commit_users :: "u32 \<Rightarrow> server \<times> cblk \<Rightarrow> (server \<times> cblk) option" where
  "commit_users tm st = (case st of (s, c) \<Rightarrow> do {
     uin \<leftarrow> ofold (usr_step s) (blk_usr s) [];
     (s, c, uin) \<leftarrow> ofold (uok_step tm) (blk_uok s) (s\<lparr>blk_usr := []\<rparr>, c, uin);
     let rest = concat (map (\<lambda>(u, txids). map (Pair u) txids) uin);
     Some (fold (uin_back tm) rest (s\<lparr>blk_uok := []\<rparr>, c))
   })"

section \<open>Node status\<close>

definition set_status :: "u16 \<Rightarrow> (u32 \<Rightarrow> u32) \<Rightarrow> server \<Rightarrow> server option" where
  "set_status i f s = do {
     n \<leftarrow> node_at (srvs s) i;
     Some (s\<lparr>srvs := set_node i (n\<lparr>n_status := f (n_status n)\<rparr>) (srvs s)\<rparr>)
   }"

definition bky_step :: "u64 \<times> u16 \<Rightarrow> server \<times> cblk \<Rightarrow> (server \<times> cblk) option" where
  "bky_step kn st = (case kn of (k, node) \<Rightarrow> case st of (s, c) \<Rightarrow> do {
     n \<leftarrow> node_at (srvs s) node;
     c \<leftarrow> (if n_status n AND SERVER_DBL \<noteq> 0
       then do { txid \<leftarrow> ppi_txid s k; Some (c\<lparr>k_hl := save_bky node txid (k_hl c)\<rparr>) } else Some c);
     s \<leftarrow> set_status node (\<lambda>st. st AND NOT SERVER_DBL) s;
     Some (s, c)
   })"

definition commit_bky :: "server \<times> cblk \<Rightarrow> (server \<times> cblk) option" where
  "commit_bky st = (case st of (s, c) \<Rightarrow> do {
     (s, c) \<leftarrow> ofold bky_step (blk_bky s) (s, c);
     Some (s\<lparr>blk_bky := []\<rparr>, c)
   })"

text \<open>The two vote loops differ in the operation on the status: \<open>|= bits\<close> or \<open>&= ~bits\<close>.\<close>

definition status_op :: "bool \<Rightarrow> u32 \<Rightarrow> u32 \<Rightarrow> u32" where
  "status_op on b st = (if on then st OR b else st AND NOT b)"

record votes =
  v_labank :: u16
  v_lbbank :: u16
  v_bits :: "u8 list"

definition vote_flush :: "bool \<Rightarrow> votes \<Rightarrow> server \<Rightarrow> server option" where
  "vote_flush on v s =
     set_status (v_lbbank v)
       (status_op on (push_bit 24 (ucast (bitcount (v_bits v) (ucast (s_vtot (srvs s) div 2)))))) s"

definition vote_step :: "bool \<Rightarrow> u64 \<times> u32 \<Rightarrow> server \<times> cblk \<times> votes \<Rightarrow> (server \<times> cblk \<times> votes) option" where
  "vote_step on ks st = (case ks of (k, status) \<Rightarrow> case st of (s, c, v) \<Rightarrow> do {
     let ab = ppi_abank k; let bb = ppi_bbank k;
     txid \<leftarrow> ppi_txid s k;
     let c = c\<lparr>k_hl := (if on then save_sbs else save_ubs) bb status txid (k_hl c)\<rparr>;
     (s, v) \<leftarrow> (if v_lbbank v \<noteq> bb
       then do { s \<leftarrow> vote_flush on v s; Some (s, v\<lparr>v_labank := 0, v_bits := []\<rparr>) } else Some (s, v));
     s \<leftarrow> (if ab = bb then set_status bb (status_op on (status AND 0xFFF8)) s else Some s);
     an \<leftarrow> node_at (last_srvs s) ab;
     (s, v) \<leftarrow> (if n_status an AND SERVER_VIP \<noteq> 0 then do {
         s \<leftarrow> set_status bb (status_op on (status AND 0xFF0000)) s;
         let b = ucast (drop_bit 24 status);
         if ab = v_labank v
         then (if v_bits v = [] then None
               else Some (s, v\<lparr>v_bits := butlast (v_bits v) @ [last (v_bits v) OR b]\<rparr>))
         else Some (s, v\<lparr>v_bits := v_bits v @ [b]\<rparr>)
       } else Some (s, v));
     Some (s, c, v\<lparr>v_labank := ab, v_lbbank := bb\<rparr>)
   })"

definition vote_end :: "bool \<Rightarrow> server \<times> cblk \<times> votes \<Rightarrow> (server \<times> cblk \<times> votes) option" where
  "vote_end on st = (case st of (s, c, v) \<Rightarrow>
     if v_lbbank v \<noteq> 0 then do { s \<leftarrow> vote_flush on v s; Some (s, c, v\<lparr>v_lbbank := 0, v_bits := []\<rparr>) }
     else Some (s, c, v))"

definition commit_status :: "server \<times> cblk \<Rightarrow> (server \<times> cblk) option" where
  "commit_status st = (case st of (s, c) \<Rightarrow>
     if blk_sbs s = [] \<and> blk_ubs s = [] then Some (s, c)
     else do {
       r \<leftarrow> ofold (vote_step True) (rev (blk_sbs s)) (s, c, \<lparr>v_labank = 0, v_lbbank = 0, v_bits = []\<rparr>);
       r \<leftarrow> vote_end True r;
       r \<leftarrow> ofold (vote_step False) (rev (blk_ubs s)) r;
       (s, c, v) \<leftarrow> vote_end False r;
       Some (s\<lparr>blk_sbs := [], blk_ubs := []\<rparr>, c)
     })"

section \<open>New nodes\<close>

text \<open>
  The nodes that can be taken over, ordered by weight.  \<open>peer\<close> starts from 0 while the iterator
  starts from the second node.
\<close>

definition new_bnk :: "servers \<Rightarrow> (u64, unit) amap" where
  "new_bnk s = fold (\<lambda>i a. let n = s_nodes s ! i in
       if uint (n_mtim n) + BANK_MIN_MTIME < uint (s_now s) \<and> sle64 (n_weight n) BANK_MIN_TMASS
       then set_add (push_bit 16 (n_weight n) OR ucast (of_nat (i - 1) :: u16)) a else a)
     [1..<length (s_nodes s)] []"

definition bnk_step ::
  "(bytes \<Rightarrow> bytes) \<Rightarrow> u32 \<Rightarrow> u64 \<times> u32 \<Rightarrow> server \<times> cblk \<times> (u64, unit) amap \<Rightarrow>
   (server \<times> cblk \<times> (u64, unit) amap) option" where
  "bnk_step sha tm ku st = (case ku of (k, au) \<Rightarrow> case st of (s, c, free) \<Rightarrow> do {
     let ab = ppi_abank k;
     u \<leftarrow> fget (d_usr (dsk s) ab) au;
     txid \<leftarrow> ppi_txid s k;
     let blog = (\<lambda>peer weight. if ab = my_svid s
       then add_log au (blk_log tm TXSTYPE_BNK peer 0 0 (s_now (srvs s)) weight (u_pkey u)) else id);
     case free of
       (b, _) # free \<Rightarrow> do {
         let peer = ucast b;
         s \<leftarrow> on_srvs (put_node sha u peer) s;
         let c = blog peer 0 (c\<lparr>k_upd := set_add peer (k_upd c)\<rparr>);
         Some (s, c\<lparr>k_hl := save_bnk au peer txid (k_hl c)\<rparr>, free)
       }
     | [] \<Rightarrow>
         if length (s_nodes (srvs s)) < BANK_MAX - 1 then do {
           (peer, x, d) \<leftarrow> add_node sha u (srvs s, dsk s);
           let s = s\<lparr>srvs := x, dsk := d, bank_fee := vec_resize (length (s_nodes x)) 0 (bank_fee s)\<rparr>;
           let c = blog peer 0 (c\<lparr>k_upd := set_add peer (k_upd c)\<rparr>);
           Some (s, c\<lparr>k_hl := save_bnk au peer txid (k_hl c)\<rparr>, [])
         }
         else do {
           let s = deposit_add (dep_key au (ucast ab OR 0x10000)) (BANK_MIN_UMASS + BANK_MIN_TMASS) s;
           let c = blog 0 (BANK_MIN_UMASS + BANK_MIN_TMASS) c;
           Some (s, c\<lparr>k_hl := save_bnk au 0 txid (k_hl c)\<rparr>, [])
         }
   })"

definition commit_bnk :: "(bytes \<Rightarrow> bytes) \<Rightarrow> u32 \<Rightarrow> server \<times> cblk \<Rightarrow> (server \<times> cblk) option" where
  "commit_bnk sha tm st = (case st of (s, c) \<Rightarrow>
     if blk_bnk s = [] then Some (s, c)
     else do {
       (s, c, free) \<leftarrow> ofold (bnk_step sha tm) (blk_bnk s) (s, c, new_bnk (srvs s));
       Some (s\<lparr>blk_bnk := []\<rparr>, c)
     })"

section \<open>Withdrawals\<close>

text \<open>The part of a withdrawal that moves funds: the new account, the change of the node weight, the
  amount withdrawn and the fee.\<close>

definition get_funds :: "u16 \<Rightarrow> get_t \<Rightarrow> user_t \<Rightarrow> server \<Rightarrow> (server \<times> user_t \<times> i64 \<times> i64) option" where
  "get_funds ab tx u s =
    (if u_node u \<noteq> ab \<or> u_user u \<noteq> g_auser tx
     then Some (s, u\<lparr>u_node := ab, u_user := g_auser tx\<rparr>, 0, 0)
     else do {
       let delta = u_weight u; let gok = u_weight u - TXS_GOK_FEE delta;
       let s = (if ab = my_svid s then s\<lparr>myget_fee := myget_fee s + BANK_PROFIT (TXS_LNG_FEE gok)\<rparr> else s);
       s \<leftarrow> add_fee ab (BANK_PROFIT (TXS_LNG_FEE gok)) s;
       let s = deposit_add (dep_key (g_auser tx) (ucast ab OR 0x10000)) (gok - TXS_LNG_FEE gok) s;
       Some (s, u\<lparr>u_weight := 0\<rparr>, delta, TXS_GOK_FEE delta + TXS_LNG_FEE gok)
     })"

definition get_log :: "u32 \<Rightarrow> u16 \<Rightarrow> u16 \<Rightarrow> u32 \<Rightarrow> u32 \<Rightarrow> i64 \<Rightarrow> bytes \<Rightarrow> log_t" where
  "get_log tm ty node user mpos weight info = \<lparr>lg_time = tm, lg_type = ty, lg_node = node, lg_nmid = 0,
     lg_mpos = mpos, lg_user = user, lg_umid = 0, lg_weight = weight, lg_info = info\<rparr>"

type_synonym get_state = "server \<times> cblk \<times> u16 \<times> (u32, user_t) amap"

definition get_account ::
  "(bytes \<Rightarrow> bytes) \<Rightarrow> u32 \<Rightarrow> u64 \<times> get_t \<Rightarrow> user_t \<Rightarrow> get_state \<Rightarrow> get_state option" where
  "get_account sha tm kt u st = (case kt of (k, tx) \<Rightarrow> case st of (s, c, sv, undo) \<Rightarrow> do {
     let ab = ppi_abank k; let bb = ppi_bbank k; let now = s_now (srvs s);
     let undo = m_ins (g_buser tx) u undo;
     let (dv, u, fee) = dividend s u 0;
     if sle64 (u_weight u - TXS_GOK_FEE (u_weight u)) 0 then Some (s, c, sv, undo)
     else do {
       s \<leftarrow> add_fee sv (BANK_PROFIT fee) s;
       let s = my_div_fee sv (BANK_PROFIT fee) s;
       let w0 = u_weight u;
       (s, u, delta, fee) \<leftarrow> get_funds ab tx u s;
       let u = u\<lparr>u_time := now\<rparr>;
       s \<leftarrow> store_user sha bb (g_buser tx) u ((if dv = NO_DIV then 0 else dv) - delta) s;
       let info = le_bytes 8 w0 @ le_bytes 8 delta @ le_bytes 8 fee @ le_bytes 2 (u_stat u) @ take 6 (u_pkey u);
       let c = (if ab = my_svid s then add_log (g_auser tx)
         (get_log tm (ucast TXSTYPE_GET OR 0x8000) bb (g_buser tx) now (delta - fee) info) c else c);
       let c = (if bb = my_svid s then add_log (g_buser tx)
         (get_log tm (ucast TXSTYPE_GET) ab (g_auser tx) now (- (delta - fee)) info) c else c);
       let s = (if bb = my_svid s \<and> \<not> do_sync s \<and> has_office s
         then event (Ofip_gup_push \<lparr>gu_auser = g_buser tx, gu_node = u_node u, gu_user = u_user u,
           gu_time = u_time u, gu_delta = delta\<rparr>) s else s);
       txid \<leftarrow> ppi_txid s k;
       Some (s, c\<lparr>k_hl := save_get (g_auser tx) bb (g_buser tx) txid (k_hl c)\<rparr>, sv, undo)
     }
   })"

definition get_step :: "(bytes \<Rightarrow> bytes) \<Rightarrow> u32 \<Rightarrow> u64 \<times> get_t \<Rightarrow> get_state \<Rightarrow> get_state option" where
  "get_step sha tm kt st = (case kt of (k, tx) \<Rightarrow> case st of (s, c, sv, undo) \<Rightarrow>
    (let ab = ppi_abank k; bb = ppi_bbank k; nn = length (s_nodes (srvs s)) in
     if ab = 0 \<or> bb = 0 \<or> nn \<le> unat ab \<or> nn \<le> unat bb then Some (s, c, sv, undo)
     else do {
       let c = c\<lparr>k_upd := set_add bb (set_add ab (k_upd c))\<rparr>;
       (s, sv, undo) \<leftarrow> (if bb \<noteq> sv
         then do { s \<leftarrow> on_srvs (save_undo sv undo 0) s; Some (s, bb, []) } else Some (s, sv, undo));
       u \<leftarrow> fget (d_usr (dsk s) bb) (g_buser tx);
       if u_pkey u \<noteq> g_pkey tx \<or> u_time u + LOCK_TIME > s_now (srvs s) then Some (s, c, sv, undo)
       else get_account sha tm (k, tx) u (s, c, sv, undo)
     }))"

definition commit_get :: "(bytes \<Rightarrow> bytes) \<Rightarrow> u32 \<Rightarrow> server \<times> cblk \<Rightarrow> (server \<times> cblk) option" where
  "commit_get sha tm st = (case st of (s, c) \<Rightarrow> do {
     (s, c, sv, undo) \<leftarrow> ofold (get_step sha tm) (blk_get s) (s, c, 0, []);
     let s = s\<lparr>blk_get := []\<rparr>;
     s \<leftarrow> (if sv \<noteq> 0 then on_srvs (save_undo sv undo 0) s else Some s);
     Some (s, c)
   })"

section \<open>The queued requests of a block\<close>

definition commit_hlog :: "(bytes \<Rightarrow> bytes) \<Rightarrow> server \<times> cblk \<Rightarrow> server option" where
  "commit_hlog sha st = (case st of (s, c) \<Rightarrow> do {
     n \<leftarrow> node_at (srvs s) 0;
     let now = s_now (srvs s); let hl = k_hl c;
     let d = (if hl = [] then dsk s else (dsk s)\<lparr>d_hlg := (d_hlg (dsk s))(now := Some hl)\<rparr>);
     let h = (if hl = [] then (0, 0, 0, 0) else csum_of (sha hl));
     Some (s\<lparr>srvs := set_node 0 (n\<lparr>n_hash := h\<rparr>) (srvs s),
             dsk := put_msglog now 0 0 (k_log c) (del_msglog now 0 0 d)\<rparr>)
   })"

definition commit_block ::
  "(bytes \<Rightarrow> bytes) \<Rightarrow> u32 \<Rightarrow> (u16, unit) amap \<Rightarrow> server \<Rightarrow> (server \<times> (u16, unit) amap) option" where
  "commit_block sha tm upd s = do {
     let s = s\<lparr>mydiv_fee := 0, myusr_fee := 0, myget_fee := 0\<rparr>;
     r \<leftarrow> commit_users tm (s, \<lparr>k_lpos = 1, k_log = [], k_hl = [], k_upd = upd\<rparr>);
     r \<leftarrow> commit_bky r;
     r \<leftarrow> commit_status r;
     r \<leftarrow> commit_bnk sha tm r;
     (s, c) \<leftarrow> commit_get sha tm r;
     s \<leftarrow> commit_hlog sha (s, c);
     Some (s, k_upd c)
   }"

section \<open>Dividends, deposits and fees\<close>

text \<open>
  The accounts of one node that a block of the second half of a period visits, 32 in a row out of
  \<open>32 * 1024\<close>.  Account numbers are natural numbers here: the \<open>uint32_t\<close> of the code does not wrap
  for a node with fewer than \<open>2^32 - 2^15\<close> accounts.
\<close>

function div_users :: "nat \<Rightarrow> nat \<Rightarrow> nat list" where
  "div_users user uend =
    (if user < uend then [user..<min (user + 32) uend] @ div_users (user + 32 * 1024) uend else [])"
  by pat_completeness auto
termination
  by (relation "measure (\<lambda>(user, uend). uend - user)") auto

declare div_users.simps [simp del]

definition div_first :: "u32 \<Rightarrow> u16 \<Rightarrow> nat" where
  "div_first now sv = 32 * ((unat (now div BLOCKSEC) + unat sv) mod 1024)"

type_synonym div_state = "server \<times> u64 \<times> (u32, user_t) amap"

text \<open>The deposit that waits for the account is paid with the dividend and set to 0.\<close>

definition take_deposit :: "u16 \<Rightarrow> u32 \<Rightarrow> user_t \<Rightarrow> i64 \<Rightarrow> server \<times> u64 \<Rightarrow> (server \<times> u64 \<times> user_t \<times> i64) option" where
  "take_deposit sv uid u dv st = (case st of (s, myput) \<Rightarrow>
     case map_of (deposit s) (dep_key uid (ucast sv)) of
       None \<Rightarrow> Some (s, myput, u, dv)
     | Some x \<Rightarrow> do {
         s \<leftarrow> add_fee sv (BANK_PROFIT (TXS_LNG_FEE x)) s;
         let myput = (if sv = my_svid s then myput + BANK_PROFIT (TXS_LNG_FEE x) else myput);
         let s = (if sv = my_svid s \<and> \<not> do_sync s \<and> has_office s then event (Ofip_add_remote_deposit uid x) s else s);
         Some (s\<lparr>deposit := m_upd (dep_key uid (ucast sv)) 0 (deposit s)\<rparr>, myput,
               u\<lparr>u_weight := u_weight u + x\<rparr>, dv + x)
       })"

text \<open>The payment to an account that is due or empty; \<open>ou\<close> is the record before the dividend.\<close>

definition div_pay ::
  "(bytes \<Rightarrow> bytes) \<Rightarrow> u16 \<Rightarrow> u32 \<Rightarrow> user_t \<Rightarrow> user_t \<Rightarrow> i64 \<Rightarrow> div_state \<Rightarrow> div_state option" where
  "div_pay sha sv uid ou u dv st = (case st of (s, myput, undo) \<Rightarrow> do {
     (s, myput, u, dv) \<leftarrow> take_deposit sv uid u dv (s, myput);
     let del = (slt64 (u_weight u) TXS_DIV_FEE \<and> uint (s_now (srvs s)) - USER_MIN_AGE > uint (u_lpath u));
     let u = (if del then u\<lparr>u_stat := u_stat u OR USER_STAT_DELETED\<rparr> else u);
     let s = (if del \<and> sv = my_svid s \<and> \<not> do_sync s \<and> has_office s then event (Ofip_delete_user uid) s else s);
     s \<leftarrow> store_user sha sv uid u dv s;
     Some (s, myput, m_ins uid ou undo)
   })"

definition div_step :: "(bytes \<Rightarrow> bytes) \<Rightarrow> u16 \<Rightarrow> nat \<Rightarrow> div_state \<Rightarrow> div_state option" where
  "div_step sha sv user st = (case st of (s, myput, undo) \<Rightarrow> do {
     let uid = of_nat user;
     ou \<leftarrow> fget (d_usr (dsk s) sv) uid;
     if u_msid ou = 0 then None
     else do {
       let (dv, u, fee) = dividend s ou 0;
       s \<leftarrow> add_fee sv (BANK_PROFIT fee) s;
       let s = my_div_fee sv (BANK_PROFIT fee) s;
       if dv \<noteq> NO_DIV \<or> u_weight u = 0
       then div_pay sha sv uid ou u (if dv = NO_DIV then 0 else dv) (s, myput, undo)
       else Some (s, myput, undo)
     }
   })"

definition div_bank ::
  "(bytes \<Rightarrow> bytes) \<Rightarrow> u16 \<Rightarrow> server \<times> u64 \<times> (u16, unit) amap \<Rightarrow> (server \<times> u64 \<times> (u16, unit) amap) option" where
  "div_bank sha sv st = (case st of (s, myput, upd) \<Rightarrow> do {
     n \<leftarrow> node_at (srvs s) sv;
     let user = div_first (s_now (srvs s)) sv; let uend = unat (n_users n);
     if uend \<le> user then Some (s, myput, upd)
     else do {
       (s, myput, undo) \<leftarrow> ofold (div_step sha sv) (div_users user uend) (s, myput, []);
       s \<leftarrow> on_srvs (save_undo sv undo 0) s;
       Some (s, myput, set_add sv upd)
     }
   })"

definition bank_ids :: "servers \<Rightarrow> u16 list" where
  "bank_ids x = map of_nat [1..<length (s_nodes x)]"

definition commit_dividends ::
  "(bytes \<Rightarrow> bytes) \<Rightarrow> server \<times> u64 \<times> (u16, unit) amap \<Rightarrow> (server \<times> u64 \<times> (u16, unit) amap) option" where
  "commit_dividends sha st = (case st of (s, myput, upd) \<Rightarrow>
     if (s_now (srvs s) div BLOCKSEC) mod BLOCKDIV < BLOCKDIV div 2 then Some st
     else ofold (div_bank sha) (bank_ids (srvs s)) st)"

type_synonym dep_state = "server \<times> u64 \<times> (u16, unit) amap \<times> u16 \<times> (u32, user_t) amap"

definition dep_pay :: "(bytes \<Rightarrow> bytes) \<Rightarrow> u64 \<times> i64 \<Rightarrow> user_t \<Rightarrow> server \<times> u64 \<Rightarrow> (server \<times> u64) option" where
  "dep_pay sha kx u st = (case kx of (k, x) \<Rightarrow> case st of (s, myput) \<Rightarrow> do {
     let uid = dep_user k; let sv = ucast (dep_bank k);
     let (dv, u, fee) = dividend s u 0;
     s \<leftarrow> add_fee sv (BANK_PROFIT fee) s;
     let s = my_div_fee sv (BANK_PROFIT fee) s;
     let dv = (if dv = NO_DIV then 0 else dv);
     (s, myput) \<leftarrow> (if dep_bank k AND 0x10000 = 0 then do {
         s \<leftarrow> add_fee sv (BANK_PROFIT (TXS_LNG_FEE x)) s;
         Some (s, if sv = my_svid s then myput + BANK_PROFIT (TXS_LNG_FEE x) else myput)
       } else Some (s, myput));
     let u = u\<lparr>u_weight := u_weight u + x, u_rpath := s_now (srvs s)\<rparr>;
     let s = (if sv = my_svid s \<and> \<not> do_sync s \<and> has_office s then event (Ofip_add_remote_deposit uid x) s else s);
     s \<leftarrow> store_user sha sv uid u (x + dv) s;
     Some (s, myput)
   })"

definition dep_step :: "(bytes \<Rightarrow> bytes) \<Rightarrow> u64 \<times> i64 \<Rightarrow> dep_state \<Rightarrow> dep_state option" where
  "dep_step sha kx st = (case kx of (k, x) \<Rightarrow> case st of (s, myput, upd, lsv, undo) \<Rightarrow>
     if x = 0 then Some st
     else do {
       let uid = dep_user k; let sv = ucast (dep_bank k);
       if sv = 0 then None
       else do {
         (s, upd, undo) \<leftarrow> (if sv \<noteq> lsv
           then do { s \<leftarrow> on_srvs (save_undo lsv undo 0) s; Some (s, set_add sv upd, []) }
           else Some (s, upd, undo));
         u \<leftarrow> fget (d_usr (dsk s) sv) uid;
         (s, myput) \<leftarrow> dep_pay sha (k, x) u (s, myput);
         Some (s, myput, upd, sv, m_ins uid u undo)
       }
     })"

definition commit_deposit ::
  "(bytes \<Rightarrow> bytes) \<Rightarrow> server \<times> u64 \<times> (u16, unit) amap \<Rightarrow> (server \<times> u64 \<times> (u16, unit) amap) option" where
  "commit_deposit sha st = (case st of (s, myput, upd) \<Rightarrow> do {
     (s, myput, upd, lsv, undo) \<leftarrow> ofold (dep_step sha) (deposit s) (s, myput, upd, 0, []);
     s \<leftarrow> (if lsv \<noteq> 0 then on_srvs (save_undo lsv undo 0) s else Some s);
     Some (s\<lparr>deposit := []\<rparr>, myput, upd)
   })"

text \<open>
  \<open>commit_bankfee\<close> shares a part of the fees: the nodes with the largest fees pay, the VIP nodes and
  the active ones among those that pay receive.  With no receiver the code divides by zero;
  a \<open>bank_fee\<close> shorter than the node vector is read out of range.
\<close>

definition sharing_nodes :: "server \<Rightarrow> u16 list" where
  "sharing_nodes s = take SHARED_PROFIT_NODES
     (sort_key (\<lambda>i. - sint (bank_fee s ! unat i)) (bank_ids (srvs s)))"

definition receiving_nodes :: "server \<Rightarrow> u16 list" where
  "receiving_nodes s =
    (let ns = s_nodes (srvs s) in
     filter (\<lambda>i. n_status (ns ! unat i) AND SERVER_VIP \<noteq> 0) (bank_ids (srvs s)) @
     filter (\<lambda>i. vip_candidate (srvs s) (ns ! unat i)) (sharing_nodes s))"

definition fee_share :: "server \<Rightarrow> i64 option" where
  "fee_share s =
    (let share = fold (\<lambda>i a. a + bank_fee s ! unat i) (sharing_nodes s) 0;
         share = (if slt64 share 0 then 0 else share); k = length (receiving_nodes s)
     in if k = 0 \<or> length (bank_fee s) < length (s_nodes (srvs s)) then None
        else Some (SHARED_PROFIT (share div of_nat k)))"

definition bankfee_log :: "u32 \<Rightarrow> server \<Rightarrow> u16 \<Rightarrow> i64 \<Rightarrow> i64 \<Rightarrow> u64 \<Rightarrow> log_t" where
  "bankfee_log tm s sv net bfee myput = \<lparr>lg_time = tm, lg_type = TXSTYPE_FEE OR 0x8000, lg_node = sv, lg_nmid = 0,
     lg_mpos = s_now (srvs s), lg_user = ucast (drop_bit 32 net), lg_umid = ucast net, lg_weight = bfee,
     lg_info = le_bytes 8 (mydiv_fee s) @ le_bytes 8 (myusr_fee s) @ le_bytes 8 (myget_fee s) @ le_bytes 8 myput\<rparr>"

definition fee_step ::
  "(bytes \<Rightarrow> bytes) \<Rightarrow> u32 \<Rightarrow> u64 \<Rightarrow> u16 list \<Rightarrow> u16 list \<Rightarrow> i64 \<Rightarrow> u16 \<Rightarrow>
   server \<times> (u64, log_t) amap \<Rightarrow> (server \<times> (u64, log_t) amap) option" where
  "fee_step sha tm myput sharing receiving share sv st = (case st of (s, lg) \<Rightarrow> do {
       let net = (if sv \<in> set sharing then - SHARED_PROFIT (bank_fee s ! unat sv) else 0)
                 + share * of_nat (count_list receiving sv);
       s \<leftarrow> add_fee sv net s;
       u \<leftarrow> fget (d_usr (dsk s) sv) 0;
       let undo = [(0, u)];
       let (dv, u, fee) = dividend s u 0;
       s \<leftarrow> add_fee sv (BANK_PROFIT fee) s;
       let s = (if dv = NO_DIV then s else my_div_fee sv (BANK_PROFIT fee) s);
       let dv = (if dv = NO_DIV then 0 else dv);
       n \<leftarrow> node_at (srvs s) sv;
       let buser_fee = BANK_USER_FEE (n_users n);
       let profit = bank_fee s ! unat sv - buser_fee;
       let profit = (if slt64 profit (- u_weight u) then - u_weight u else profit);
       let u = u\<lparr>u_weight := u_weight u + profit, u_rpath := s_now (srvs s)\<rparr>;
       let s = (if sv = my_svid s \<and> \<not> do_sync s \<and> has_office s then event (Ofip_add_remote_deposit 0 profit) s else s);
       s \<leftarrow> store_user sha sv 0 u (profit + dv) s;
       s \<leftarrow> on_srvs (save_undo sv undo 0) s;
       let bfee = buser_fee - profit + (bank_fee s ! unat sv - buser_fee);
       Some (s, if sv = my_svid s then m_upd 0 (bankfee_log tm s sv net bfee myput) lg else lg)
     })"

definition commit_bankfee :: "(bytes \<Rightarrow> bytes) \<Rightarrow> u32 \<Rightarrow> u64 \<Rightarrow> server \<Rightarrow> server option" where
  "commit_bankfee sha tm myput s = do {
     share \<leftarrow> fee_share s;
     (s, lg) \<leftarrow> ofold (fee_step sha tm myput (sharing_nodes s) (receiving_nodes s) share) (bank_ids (srvs s)) (s, []);
     Some (s\<lparr>bank_fee := map (\<lambda>_. 0) (bank_fee s), dsk := put_msglog (s_now (srvs s)) 0 0 lg (dsk s)\<rparr>)
   }"

section \<open>The end of a block\<close>

text \<open>The commits and the check of the changed nodes; a node that fails the check ends the process.\<close>

definition commit_all :: "(bytes \<Rightarrow> bytes) \<Rightarrow> u32 \<Rightarrow> server \<Rightarrow> (server \<times> (u16, unit) amap) option" where
  "commit_all sha tm s = do {
     (s, upd) \<leftarrow> commit_block sha tm [] s;
     (s, myput, upd) \<leftarrow> commit_dividends sha (s, 0, upd);
     (s, myput, upd) \<leftarrow> commit_deposit sha (s, myput, upd);
     s \<leftarrow> commit_bankfee sha tm myput s;
     Some (s, upd)
   }"

definition check_accounts :: "server \<Rightarrow> (u16, unit) amap \<Rightarrow> server option" where
  "check_accounts s upd =
     (if \<forall>(i, _) \<in> set upd. check_nodehash (srvs s, dsk s) i = Some True then Some s else None)"

text \<open>
  \<open>finish_block\<close> without the message queues, the archive threads and the resigning of own messages,
  which belong to other parts of the program.
\<close>

definition finish_block :: "(bytes \<Rightarrow> bytes) \<Rightarrow> u32 \<Rightarrow> server \<Rightarrow> server option" where
  "finish_block sha tm s = do {
     (s, upd) \<leftarrow> commit_all sha tm s;
     s \<leftarrow> check_accounts s upd;
     s \<leftarrow> on_srvs (finish_servers sha) s;
     let s = s\<lparr>last_srvs := srvs s\<rparr>;
     (ps, x, d) \<leftarrow> nextblock sha ((srvs s)\<lparr>s_oldhash := s_nowhash (last_srvs s)\<rparr>, dsk s);
     n \<leftarrow> node_at x (my_svid s);
     let s = s\<lparr>srvs := x, dsk := d, period_start := ps, iamvip := (n_status n AND SERVER_VIP \<noteq> 0)\<rparr>;
     if do_sync s then Some s
     else if has_office s
       then Some ((event (Ofip_update_block ps (s_now x) (s_div x)) s)\<lparr>dbl_srvs := []\<rparr>)
       else None
   }"

end
