(* ===== verification/Block_Ledger.thy ===== *)
theory Block_Ledger
  imports Server_Commit
begin

text \<open>
  The end of a block keeps the ledger: on a state with the invariant and with queues that refer to
  existing accounts, \<open>commit_block\<close>, \<open>commit_dividends\<close>, \<open>commit_deposit\<close> and \<open>commit_bankfee\<close> are
  defined, keep the invariant, and the final check of the nodes succeeds.  Every loop is an
  instance of \<open>safe_loop\<close>.
\<close>

section \<open>Storing accounts and undo data\<close>

lemma store_block_ok:
  assumes "block_ok s" and "valid_acc (srvs s) sv uid"
    and "fget (d_usr (dsk s) sv) uid = Some u0" and "u_csum u = u_csum u0"
    and "u_weight u = u_weight u0 + delta" and "acc_ok (period_start s) u"
  shows "\<exists>t. store_user sha sv uid u delta s = Some t \<and> block_ok t \<and> ext s t"
proof -
  obtain x d where r: "store_user sha sv uid u delta s = Some (s\<lparr>srvs := x, dsk := d\<rparr>)"
    and l: "ledger x (d_usr d) (length (bank_fee s)) (period_start s)" and g: "grows (srvs s) x"
    using store_user_runs [OF conjunct1 [OF assms(1)] assms(2-)] by blast
  moreover have "deposits_ok x (deposit s)" using assms(1) g deposits_ok_grows by blast
  ultimately show ?thesis by (auto simp: ext_def queues_def)
qed


lemma dividend_good:
  assumes "ledger_ok s" and "acc_ok (period_start s) u" and "dividend s u fee = (dv, u', fee')"
  shows "u_csum u' = u_csum u" "u_weight u' = u_weight u + (if dv = NO_DIV then 0 else dv)"
    "acc_ok (period_start s) u'" "\<not> (u_rpath u' < period_start s \<and> u_lpath u' < period_start s)" "u_msid u' \<noteq> 0"
  using dividend_cases [OF assms(3,2)] assms(1) by (auto simp: ledger_def div_due_def acc_ok_def)

lemma take_deposit_runs:
  assumes "block_ok s" and "valid_acc (srvs s) sv uid"
  shows "\<exists>t myput' x. take_deposit sv uid u dv (s, myput) = Some (t, myput', u\<lparr>u_weight := u_weight u + x\<rparr>, dv + x) \<and>
    block_ok t \<and> ext s t \<and> srvs t = srvs s \<and> dsk t = dsk s \<and> period_start t = period_start s"
proof (cases "map_of (deposit s) (dep_key uid (ucast sv))")
  case None
  then have "take_deposit sv uid u dv (s, myput) = Some (s, myput, u\<lparr>u_weight := u_weight u + 0\<rparr>, dv + 0)"
    by (simp add: take_deposit_def)
  with assms show ?thesis by (metis ext_refl)
next
  case (Some x)
  obtain t where t: "add_fee sv (BANK_PROFIT (TXS_LNG_FEE x)) s = Some t" "same s t"  "dsk t = dsk s"
    using assms by (auto elim: account_at)
  let ?t = "(if sv = my_svid t \<and> \<not> do_sync t \<and> has_office t then event (Ofip_add_remote_deposit uid x) t else t)
    \<lparr>deposit := m_upd (dep_key uid (ucast sv)) 0 (deposit t)\<rparr>"
  have "block_ok ?t" using same_block_ok [OF t(2) assms(1)] by (simp add: event_def deposits_ok_upd)
  moreover have "ext s ?t" "srvs ?t = srvs s" "dsk ?t = dsk s" "period_start ?t = period_start s"
    using t(2,3) by (simp_all add: same_def ext_def queues_def event_def)
  moreover have "\<exists>m. take_deposit sv uid u dv (s, myput) = Some (?t, m, u\<lparr>u_weight := u_weight u + x\<rparr>, dv + x)"
    using t(1,2) Some by (simp add: take_deposit_def Let_def same_def event_def)
  ultimately show ?thesis by blast
qed

section \<open>Dividends\<close>

definition div_good :: "u16 \<Rightarrow> div_state \<Rightarrow> bool" where
  "div_good sv st \<longleftrightarrow> (case st of (s, myput, undo) \<Rightarrow> block_ok s \<and> undo_ok (srvs s) sv undo)"

lemma undo_ok_ext: "ext s t \<Longrightarrow> undo_ok (srvs s) sv undo \<Longrightarrow> undo_ok (srvs t) sv undo"
  using undo_ok_grows by (auto simp: ext_def)

lemma div_pay_runs:
  assumes "div_good sv (s, myput, undo)" and "valid_acc (srvs s) sv uid"
    and "fget (d_usr (dsk s) sv) uid = Some ou" and "u_csum u = u_csum ou" and "u_weight u = u_weight ou + dv"
    and "u_msid u \<noteq> 0" and "\<not> (u_rpath u < period_start s \<and> u_lpath u < period_start s)"
  shows "\<exists>t myput' undo'. div_pay sha sv uid ou u dv (s, myput, undo) = Some (t, myput', undo') \<and>
    div_good sv (t, myput', undo') \<and> ext s t"
proof -
  have ok: "block_ok s" and un: "undo_ok (srvs s) sv undo" using assms(1) by (simp_all add: div_good_def)
  obtain t m x where td: "take_deposit sv uid u dv (s, myput) = Some (t, m, u\<lparr>u_weight := u_weight u + x\<rparr>, dv + x)"
    and t: "block_ok t" "ext s t" "srvs t = srvs s" "dsk t = dsk s" "period_start t = period_start s"
    using take_deposit_runs [OF ok assms(2), of u dv myput] by blast
  define u1 where "u1 = u\<lparr>u_weight := u_weight u + x\<rparr>"
  define del where "del = (slt64 (u_weight u1) TXS_DIV_FEE \<and> uint (s_now (srvs t)) - USER_MIN_AGE > uint (u_lpath u1))"
  define u2 where "u2 = (if del then u1\<lparr>u_stat := u_stat u1 OR USER_STAT_DELETED\<rparr> else u1)"
  define t1 where "t1 = (if del \<and> sv = my_svid t \<and> \<not> do_sync t \<and> has_office t then event (Ofip_delete_user uid) t else t)"
  have sm: "same t t1" "dsk t1 = dsk t" by (simp_all add: t1_def event_def same_def queues_def)
  have "acc_ok (period_start t1) u2"
    using assms(6,7) t(5) sm(1) by (intro acc_ok_not_due) (auto simp: u2_def u1_def same_def)
  moreover have "u_csum u2 = u_csum ou" "u_weight u2 = u_weight ou + (dv + x)"
    using assms(4,5) by (simp_all add: u2_def u1_def)
  moreover have "fget (d_usr (dsk t1) sv) uid = Some ou" using assms(3) t(4) sm(2) by simp
  moreover have "valid_acc (srvs t1) sv uid" using assms(2) t(3) sm(1) by (simp add: same_def)
  ultimately obtain t2 where t2: "store_user sha sv uid u2 (dv + x) t1 = Some t2" "block_ok t2" "ext t1 t2"
    using store_block_ok [OF same_block_ok [OF sm(1) t(1)]] by blast
  have e: "ext s t2" using t(2) sm(1) t2(3) ext_trans same_ext by blast
  then have "undo_ok (srvs t2) sv (m_ins uid ou undo)"
    using un assms(2) by (intro undo_ok_m_ins) (auto intro: undo_ok_ext valid_acc_ext)
  moreover have "div_pay sha sv uid ou u dv (s, myput, undo) = Some (t2, m, m_ins uid ou undo)"
    by (simp only: div_pay_def prod.case td bind.bind_lunit Let_def t2(1) flip: u1_def del_def u2_def t1_def)
  ultimately show ?thesis using t2(2) e by (simp add: div_good_def)
qed

lemma div_step_runs:
  assumes "div_good sv (s, myput, undo)" and "valid_acc (srvs s) sv (of_nat user)"
  shows "\<exists>t myput' undo'. div_step sha sv user (s, myput, undo) = Some (t, myput', undo') \<and>
    div_good sv (t, myput', undo') \<and> ext s t"
proof -
  let ?id = "of_nat user :: u32"
  have ok: "block_ok s" and un: "undo_ok (srvs s) sv undo" using assms(1) by (simp_all add: div_good_def)
  obtain ou where ou: "fget (d_usr (dsk s) sv) ?id = Some ou" "acc_ok (period_start s) ou"
    "unat sv < length (bank_fee s)" using account_at [OF conjunct1 [OF ok] assms(2)] .
  obtain dv u fee where d: "dividend s ou 0 = (dv, u, fee)" using prod_cases3 by blast
  note dg = dividend_good [OF conjunct1 [OF ok] ou(2) d]
  obtain t0 where t0: "add_fee sv (BANK_PROFIT fee) s = Some t0" "same s t0" "dsk t0 = dsk s" using ou(3) by auto
  define t where "t = my_div_fee sv (BANK_PROFIT fee) t0"
  have t: "same s t" "dsk t = dsk s"
    using same_trans [OF t0(2)] t0(3) by (simp_all add: t_def my_div_fee_def)
  have step: "div_step sha sv user (s, myput, undo) =
    (if dv \<noteq> NO_DIV \<or> u_weight u = 0 then div_pay sha sv ?id ou u (if dv = NO_DIV then 0 else dv) (t, myput, undo)
     else Some (t, myput, undo))"
    using ou(1,2) d t0(1) by (simp add: div_step_def acc_ok_def t_def Let_def)
  have good: "div_good sv (t, myput, undo)"
    using same_block_ok [OF t(1) ok] un t(1) by (simp add: div_good_def same_def)
  have "\<exists>t' m undo'. div_pay sha sv ?id ou u (if dv = NO_DIV then 0 else dv) (t, myput, undo) = Some (t', m, undo') \<and>
    div_good sv (t', m, undo') \<and> ext t t'"
    using assms(2) ou(1) dg t by (intro div_pay_runs good) (simp_all add: same_def)
  then obtain t' m undo' where p: "div_pay sha sv ?id ou u (if dv = NO_DIV then 0 else dv) (t, myput, undo) = Some (t', m, undo')"
    "div_good sv (t', m, undo')" "ext t t'" by blast
  show ?thesis
  proof (cases "dv \<noteq> NO_DIV \<or> u_weight u = 0")
    case True
    then have "div_step sha sv user (s, myput, undo) = Some (t', m, undo')" using step p(1) by (simp only: if_True)
    then show ?thesis using p(2,3) same_ext [OF t(1)] ext_trans by blast
  next
    case False
    then have "div_step sha sv user (s, myput, undo) = Some (t, myput, undo)" using step by (simp only: if_False)
    then show ?thesis using good same_ext [OF t(1)] by blast
  qed
qed

interpretation dv: safe_loop "div_step sha sv" "div_good sv"
  "\<lambda>user st. valid_acc (srvs (fst st)) sv (of_nat user)" "\<lambda>st st'. ext (fst st) (fst st')" for sha sv
proof unfold_locales
  show "\<exists>s'. div_step sha sv x s = Some s' \<and> div_good sv s' \<and> ext (fst s) (fst s')"
    if "div_good sv s" "valid_acc (srvs (fst s)) sv (of_nat x)" for s x
    using div_step_runs [of sv "fst s" "fst (snd s)" "snd (snd s)" x sha] that by auto
qed (auto intro: ext_trans valid_acc_ext)













section \<open>Deposits\<close>








section \<open>Fees\<close>






section \<open>Remote accounts\<close>

definition ppi_ok :: "server \<Rightarrow> u64 \<Rightarrow> bool" where
  "ppi_ok s k \<longleftrightarrow> unat (ppi_v16 0 k) < length (s_nodes (last_srvs s))"









lemma k_upd_simps [simp]: "k_upd (add_log u l c) = k_upd c"
  by (simp add: add_log_def)


lemma ext_deposit_add [simp]: "ext s (deposit_add k x s)" "srvs (deposit_add k x s) = srvs s"
  "bank_fee (deposit_add k x s) = bank_fee s" "last_srvs (deposit_add k x s) = last_srvs s"
  by (simp_all add: deposit_add_def ext_def)





section \<open>Node status\<close>












definition vote_item :: "u64 \<Rightarrow> server \<Rightarrow> bool" where
  "vote_item k s \<longleftrightarrow> ppi_ok s k \<and> ppi_abank k \<noteq> 0 \<and> unat (ppi_abank k) < length (s_nodes (last_srvs s)) \<and>
     ppi_bbank k \<noteq> 0 \<and> unat (ppi_bbank k) < length (s_nodes (srvs s))"









section \<open>New nodes\<close>

lemma length_vec_resize [simp]: "length (vec_resize k x xs) = k"
  by (simp add: vec_resize_def)









section \<open>Withdrawals\<close>


definition get_item :: "server \<Rightarrow> u64 \<times> get_t \<Rightarrow> bool" where
  "get_item s kt \<longleftrightarrow> (case kt of (k, tx) \<Rightarrow> ppi_abank k = 0 \<or> ppi_bbank k = 0 \<or>
     ppi_ok s k \<and> valid_acc (srvs s) (ppi_abank k) (g_auser tx) \<and> valid_acc (srvs s) (ppi_bbank k) (g_buser tx))"








section \<open>The whole block\<close>



lemma item_upd [simp]:
  "ppi_ok (s\<lparr>blk_usr := a, blk_uok := b\<rparr>) k = ppi_ok s k" "vote_item k (s\<lparr>blk_usr := a, blk_uok := b\<rparr>) = vote_item k s"
  "get_item (s\<lparr>blk_usr := a, blk_uok := b\<rparr>) kt = get_item s kt"
  "ppi_ok (s\<lparr>blk_bky := c\<rparr>) k = ppi_ok s k" "vote_item k (s\<lparr>blk_bky := c\<rparr>) = vote_item k s"
  "get_item (s\<lparr>blk_bky := c\<rparr>) kt = get_item s kt"
  "ppi_ok (s\<lparr>blk_sbs := d, blk_ubs := e\<rparr>) k = ppi_ok s k" "vote_item k (s\<lparr>blk_sbs := d, blk_ubs := e\<rparr>) = vote_item k s"
  "get_item (s\<lparr>blk_sbs := d, blk_ubs := e\<rparr>) kt = get_item s kt"
  "ppi_ok (s\<lparr>blk_bnk := f\<rparr>) k = ppi_ok s k" "vote_item k (s\<lparr>blk_bnk := f\<rparr>) = vote_item k s"
  "get_item (s\<lparr>blk_bnk := f\<rparr>) kt = get_item s kt"
  "ppi_ok (s\<lparr>mydiv_fee := g, myusr_fee := h, myget_fee := i\<rparr>) k = ppi_ok s k"
  "vote_item k (s\<lparr>mydiv_fee := g, myusr_fee := h, myget_fee := i\<rparr>) = vote_item k s"
  "get_item (s\<lparr>mydiv_fee := g, myusr_fee := h, myget_fee := i\<rparr>) kt = get_item s kt"
  by (simp_all add: ppi_ok_def vote_item_def get_item_def)






section \<open>The accounts a period visits\<close>










section \<open>Properties\<close>






end
