(* ===== verification/Message_Ledger.thy ===== *)
theory Message_Ledger
  imports Message_Effects Block_Ledger
begin

text \<open>
  Processing a message keeps the ledger.  \<open>pm_inv\<close> is the invariant of the loop over the
  transactions: the changed accounts laid over the account file have the totals of the node plus
  the pending differences, and the accounts collected for undo are those of the start.  It holds at
  the start, is kept by every transaction and gives the ledger again when the message is stored.
\<close>

section \<open>The invariant of the loop\<close>

text \<open>
  The server while the node \<open>sv\<close> has a message in process: of the state \<open>s\<close> at the start only the
  account file of the node, its number of accounts, its address and the logs have changed.
\<close>

definition aside :: "u16 \<Rightarrow> server \<Rightarrow> server \<Rightarrow> bool" where
  "aside sv s t \<longleftrightarrow> (\<exists>a b c d f bro ev.
     t = s\<lparr>srvs := set_node sv ((s_nodes (srvs s) ! unat sv)\<lparr>n_users := a, n_changed := b, n_port := c, n_ipv4 := d\<rparr>) (srvs s),
           dsk := (dsk s)\<lparr>d_usr := (d_usr (dsk s))(sv := f), d_bro := bro\<rparr>, events := ev\<rparr>)"

text \<open>
  The accounts collected for undo are those of the file at the start, and every account of the start
  that is not among them is unchanged.
\<close>

definition undo_inv ::
  "ufile \<Rightarrow> u32 \<Rightarrow> ufile \<Rightarrow> (u32, user_t) amap \<Rightarrow> u32 \<Rightarrow> (u32, user_t) amap \<Rightarrow> bool" where
  "undo_inv f0 ou f ch k un \<longleftrightarrow> keys_ok un \<and>
     (\<forall>i u. map_of un i = Some u \<longrightarrow> i < ou \<and> fget f0 i = Some u \<and> map_of ch i \<noteq> None) \<and>
     (\<forall>i < ou. map_of un i = None \<longrightarrow> map_of ch i = None \<and> fget f i = fget f0 i) \<and>
     (\<forall>i. ou \<le> i \<and> i < k \<longrightarrow> map_of ch i \<noteq> None)"

definition pm_inv :: "u16 \<Rightarrow> server \<Rightarrow> nat \<Rightarrow> pm \<Rightarrow> bool" where
  "pm_inv sv s r st \<longleftrightarrow>
    (let t = p_srv st; n0 = s_nodes (srvs s) ! unat sv; n = s_nodes (srvs t) ! unat sv; f = d_usr (dsk t) sv in
     aside sv s t \<and> pays_ok sv st \<and> unat sv < length (s_nodes (srvs s)) \<and> n_users n0 \<le> p_users st \<and> n_users n0 \<noteq> 0 \<and>
     core (period_start s) (n_weight n0) (n_hash n0) f (p_changes st) (p_users st) (p_weight st) (p_csum st) r \<and>
     (unat (p_users st) - 1) div 64 < length (n_changed n) \<and>
     undo_inv (d_usr (dsk s) sv) (n_users n0) f (p_changes st) (p_users st) (p_undo st))"

lemma aside_quiet: "aside sv s t \<Longrightarrow> quiet t u \<Longrightarrow> aside sv s u"
  by (clarsimp simp: aside_def quiet_def) blast

lemma aside_simps:
  assumes "aside sv s t" and "unat sv < length (s_nodes (srvs s))"
  shows "period_start t = period_start s" "s_now (srvs t) = s_now (srvs s)" "last_srvs t = last_srvs s"
    "length (s_nodes (srvs t)) = length (s_nodes (srvs s))" "my_svid t = my_svid s" "bank_fee t = bank_fee s"
    "deposit t = deposit s" "queues t = queues s"
  using assms by (auto simp: aside_def queues_def)

lemma pm_inv_eff:
  assumes "pm_inv sv s r st" and "eff st st'" and "pays_ok sv st'"
  shows "pm_inv sv s r st'"
  using assms quiet_simps [of "p_srv st" "p_srv st'"] aside_quiet [of sv s "p_srv st" "p_srv st'"]
  by (simp add: pm_inv_def Let_def eff_def)

text \<open>Taking an account into the changed ones.\<close>

lemma undo_inv_load:
  assumes "undo_inv f0 ou f ch k un" and "uid < k" and "map_of ch uid = None" and "fget f uid = Some u"
  shows "undo_inv f0 ou f (m_upd uid u ch) k (m_upd uid u un)"
proof -
  have "uid < ou" using assms(1-3) by (auto simp: undo_inv_def not_less)
  moreover have "map_of un uid = None"
  proof (rule ccontr)
    assume "map_of un uid \<noteq> None"
    then have "map_of ch uid \<noteq> None" using assms(1) unfolding undo_inv_def by blast
    then show False using assms(3) by simp
  qed
  ultimately have "uid < ou" "fget f0 uid = Some u" using assms by (auto simp: undo_inv_def)
  then show ?thesis using assms(1) by (auto simp: undo_inv_def map_of_m_upd keys_ok_m_upd)
qed

lemma undo_inv_change:
  "undo_inv f0 ou f ch k un \<Longrightarrow> map_of ch uid \<noteq> None \<Longrightarrow> undo_inv f0 ou f (m_upd uid u ch) k un"
  by (auto simp: undo_inv_def map_of_m_upd)

lemma load_account_inv:
  assumes i: "pm_inv sv s r st" and k: "uid < p_users st" and l: "load_account sv uid st = (u, st')"
  shows "pm_inv sv s r st' \<and> map_of (p_changes st') uid = Some u \<and> p_users st' = p_users st \<and> p_srv st' = p_srv st \<and>
    p_weight st' = p_weight st \<and> p_csum st' = p_csum st"
proof (cases "map_of (p_changes st) uid")
  case None
  let ?f = "d_usr (dsk (p_srv st)) sv"
  let ?n0 = "s_nodes (srvs s) ! unat sv"
  have c: "core (period_start s) (n_weight ?n0) (n_hash ?n0) ?f (p_changes st) (p_users st) (p_weight st) (p_csum st) r"
    and un: "undo_inv (d_usr (dsk s) sv) (n_users ?n0) ?f (p_changes st) (p_users st) (p_undo st)"
    using i by (simp_all add: pm_inv_def Let_def)
  have g: "fget ?f uid = Some (?f ! unat uid)" using core_account(3) [OF c k] .
  then have l': "u = ?f ! unat uid" "st' = st\<lparr>p_changes := m_upd uid (?f ! unat uid) (p_changes st),
      p_undo := m_upd uid (?f ! unat uid) (p_undo st)\<rparr>"
    using l None by (auto simp: load_account_def Let_def)
  have "pays_ok sv st'" using i by (simp add: l' pm_inv_def Let_def pays_ok_def)
  then show ?thesis using i core_load [OF c k None] undo_inv_load [OF un k None g]
    by (simp add: l' pm_inv_def Let_def map_of_m_upd)
next
  case (Some v)
  then show ?thesis using l i by (simp add: load_account_def)
qed

section \<open>New accounts\<close>

lemma init_user_fields:
  "init_user sha x sv uid w pk tm = Some u \<Longrightarrow> u_weight u = w \<and> u_msid u = 1"
  by (auto simp: init_user_def init_user_hash_def user_csum_def bind_eq_Some_conv)

lemma acc_ok_new: "u_msid u = 1 \<Longrightarrow> u_weight u = 0 \<or> u_weight u = USER_MIN_MASS \<Longrightarrow> acc_ok ps u"
  by (auto simp: acc_ok_def USER_MIN_MASS_def)

lemma undo_inv_put:
  assumes "undo_inv f0 ou f ch k un" and "map_of ch uid \<noteq> None" and "unat uid < length f"
  shows "undo_inv f0 ou (fput uid u f) ch k un"
  using assms by (auto simp: undo_inv_def fget_fput) (auto simp: fget_def split: if_splits)

lemma undo_inv_new:
  assumes "undo_inv f0 ou f ch k un" and "ou \<le> k" and "unat k \<le> length f" and "unat k + 1 < 2 ^ 32"
  shows "undo_inv f0 ou (fput k u f) (m_upd k u ch) (k + 1) un"
proof -
  have k: "i < k + 1 \<longleftrightarrow> i < k \<or> i = k" for i
    using assms(4) by (auto simp: word_less_nat_alt unat_word_ariths word_unat_eq_iff)
  have "i \<noteq> k \<and> fget (fput k u f) i = fget f i" if "i < ou" for i
    using that assms(2,3) by (auto simp: fget_fput word_less_nat_alt word_le_nat_alt)
  then show ?thesis using assms(1) by (auto simp: undo_inv_def map_of_m_upd k)
qed

lemma aside_node:
  assumes "aside sv s t" and "unat sv < length (s_nodes (srvs s))"
  shows "aside sv s (t\<lparr>srvs := set_node sv ((s_nodes (srvs t) ! unat sv)\<lparr>n_users := a, n_changed := b, n_port := c, n_ipv4 := d\<rparr>) (srvs t),
    dsk := (dsk t)\<lparr>d_usr := (d_usr (dsk t))(sv := f)\<rparr>\<rparr>)"
proof -
  obtain a' b' c' d' f' bro ev where t: "t = s\<lparr>srvs := set_node sv ((s_nodes (srvs s) ! unat sv)\<lparr>n_users := a', n_changed := b', n_port := c', n_ipv4 := d'\<rparr>) (srvs s),
           dsk := (dsk s)\<lparr>d_usr := (d_usr (dsk s))(sv := f'), d_bro := bro\<rparr>, events := ev\<rparr>"
    using assms(1) unfolding aside_def by blast
  show ?thesis unfolding aside_def t using assms(2)
    by (intro exI [of _ a] exI [of _ b] exI [of _ c] exI [of _ d] exI [of _ f] exI [of _ bro] exI [of _ ev]) (simp add: set_node_def)
qed

lemma set_node_same: "unat sv < length (s_nodes x) \<Longrightarrow> set_node sv (s_nodes x ! unat sv) x = x"
  by (simp add: set_node_def)

lemma put_user_aside:
  assumes a: "aside sv s t" and sv: "unat sv < length (s_nodes (srvs s))" and p: "on_srvs (put_user u sv uid) t = Some t'"
  defines "n \<equiv> s_nodes (srvs t) ! unat sv" and "n' \<equiv> s_nodes (srvs t') ! unat sv"
  shows "aside sv s t'" "d_usr (dsk t') sv = fput uid u (d_usr (dsk t) sv)"
    "n_users n' = (if n_users n \<le> uid then uid + 1 else n_users n)"
    "length (n_changed n') = (if n_users n \<le> uid then 1 + unat uid div 64 else length (n_changed n))"
    "length (s_nodes (srvs t')) = length (s_nodes (srvs t))"
    "i \<noteq> unat sv \<Longrightarrow> s_nodes (srvs t') ! i = s_nodes (srvs t) ! i"
proof -
  have l: "length (s_nodes (srvs t)) = length (s_nodes (srvs s))" using aside_simps(4) [OF a sv] .
  then have n: "node_at (srvs t) sv = Some n" using sv by (simp add: n_def)
  define x where "x = (if n_users n \<le> uid then set_node sv (n\<lparr>n_users := uid + 1,
      n_changed := vec_resize (1 + unat uid div 64) 0 (n_changed n)\<rparr>) (srvs t) else srvs t)"
  have t': "t' = t\<lparr>srvs := x, dsk := (dsk t)\<lparr>d_usr := (d_usr (dsk t))(sv := fput uid u (d_usr (dsk t) sv))\<rparr>\<rparr>"
    using p by (simp add: on_srvs_def put_user_def Let_def n x_def)
  show "d_usr (dsk t') sv = fput uid u (d_usr (dsk t) sv)"
    "n_users n' = (if n_users n \<le> uid then uid + 1 else n_users n)"
    "length (n_changed n') = (if n_users n \<le> uid then 1 + unat uid div 64 else length (n_changed n))"
    "length (s_nodes (srvs t')) = length (s_nodes (srvs t))"
    "i \<noteq> unat sv \<Longrightarrow> s_nodes (srvs t') ! i = s_nodes (srvs t) ! i"
    using sv l by (simp_all add: t' n'_def n_def x_def)
  have "n = n\<lparr>n_users := n_users n, n_changed := n_changed n, n_port := n_port n, n_ipv4 := n_ipv4 n\<rparr>" by simp
  then show "aside sv s t'"
    using aside_node [OF a sv, where a = "uid + 1" and b = "vec_resize (1 + unat uid div 64) 0 (n_changed n)" and c = "n_port n" and d = "n_ipv4 n"
        and f = "fput uid u (d_usr (dsk t) sv)"]
      aside_node [OF a sv, where a = "n_users n" and b = "n_changed n" and c = "n_port n" and d = "n_ipv4 n"
        and f = "fput uid u (d_usr (dsk t) sv)"]
      set_node_same [of sv "srvs t"] sv l
    unfolding t' x_def n_def [symmetric] by (cases "n_users n \<le> uid") simp_all
qed

lemma deposits_ok_mono:
  "(\<And>i uid. valid_acc x i uid \<Longrightarrow> valid_acc y i uid) \<Longrightarrow> deposits_ok x dep \<Longrightarrow> deposits_ok y dep"
  by (fastforce simp: deposits_ok_def)

lemma pays_ok_put:
  assumes p: "pays_ok sv st" and a: "aside sv s (p_srv st)" and sv: "unat sv < length (s_nodes (srvs s))"
    and r: "on_srvs (put_user u sv uid) (p_srv st) = Some t'" and k: "uid < p_users st \<and> k = p_users st \<or> uid = p_users st \<and> k = uid + 1 \<and> uid < k"
  shows "pays_ok sv (st\<lparr>p_srv := t', p_users := k\<rparr>)"
proof -
  note x = put_user_aside [OF a sv r]
  have u: "n_users (s_nodes (srvs t') ! unat sv) = k" "p_users st \<le> k"
    using x(3) k p by (auto simp: pays_ok_def)
  have "valid_acc (srvs t') i j" if "valid_acc (srvs (p_srv st)) i j" for i j
  proof (cases "i = sv")
    case True
    then show ?thesis using that x(5) u p by (auto simp: valid_acc_iff pays_ok_def)
  next
    case False
    then have "unat i \<noteq> unat sv" by (simp add: word_unat_eq_iff)
    then show ?thesis using that x(5) x(6) [of "unat i"] by (simp add: valid_acc_iff)
  qed
  from deposits_ok_mono [OF this] show ?thesis
    using p x(5) x(6) [of 0] u by (auto simp: pays_ok_def unat_eq_0)
qed

lemma new_over:
  assumes i: "pm_inv sv s r st" and k: "uid < p_users st" and u: "map_of (p_changes st) uid = Some u"
    and p: "on_srvs (put_user v sv uid) (p_srv st) = Some t'" and v: "acc_ok (period_start s) v" "u_msid v = 1"
  shows "pm_inv sv s r (st\<lparr>p_srv := t', p_changes := m_upd uid v (p_changes st),
    p_csum := xor4 (xor4 (p_csum st) (u_csum u)) (u_csum v), p_weight := p_weight st + (u_weight v - u_weight u)\<rparr>)"
proof -
  let ?f = "d_usr (dsk (p_srv st)) sv" and ?n0 = "s_nodes (srvs s) ! unat sv"
  have c: "core (period_start s) (n_weight ?n0) (n_hash ?n0) ?f (p_changes st) (p_users st) (p_weight st) (p_csum st) r"
    and un: "undo_inv (d_usr (dsk s) sv) (n_users ?n0) ?f (p_changes st) (p_users st) (p_undo st)"
    and a: "aside sv s (p_srv st)" and sv: "unat sv < length (s_nodes (srvs s))" and py: "pays_ok sv st"
    using i by (simp_all add: pm_inv_def Let_def)
  note x = put_user_aside [OF a sv p]
  have o: "overlay ?f (p_changes st) (unat uid) = u" by (simp add: overlay_at u)
  have "0 < unat (p_users st)" using k by (simp add: word_less_nat_alt)
  then have "unat (u_msid v) + r < 2 ^ 32" using c v(2) by (simp add: core_def)
  then have c1: "core (period_start s) (n_weight ?n0) (n_hash ?n0) ?f (m_upd uid v (p_changes st)) (p_users st)
    (p_weight st + (u_weight v - u_weight u)) (xor4 (xor4 (p_csum st) (u_csum u)) (u_csum v)) r"
    using v(1) by (intro core_set [OF c k]) (simp_all add: o)
  have c2: "core (period_start s) (n_weight ?n0) (n_hash ?n0) (d_usr (dsk t') sv) (m_upd uid v (p_changes st)) (p_users st)
    (p_weight st + (u_weight v - u_weight u)) (xor4 (xor4 (p_csum st) (u_csum u)) (u_csum v)) r"
    unfolding x(2) by (rule core_put [OF c1 k]) (simp add: map_of_m_upd)
  have "unat uid < length ?f" using k c by (auto simp: core_def word_less_nat_alt)
  then have un1: "undo_inv (d_usr (dsk s) sv) (n_users ?n0) (d_usr (dsk t') sv) (m_upd uid v (p_changes st)) (p_users st) (p_undo st)"
    unfolding x(2) using undo_inv_put [OF undo_inv_change [OF un, of uid v], of uid v] u by (simp add: map_of_m_upd)
  have nu: "n_users (s_nodes (srvs (p_srv st)) ! unat sv) = p_users st" using py by (simp add: pays_ok_def)
  then have "length (n_changed (s_nodes (srvs t') ! unat sv)) = length (n_changed (s_nodes (srvs (p_srv st)) ! unat sv))"
    using x(4) k by (auto simp: not_le)
  moreover have "pays_ok sv (st\<lparr>p_srv := t', p_users := p_users st\<rparr>)" using pays_ok_put [OF py a sv p] k by blast
  ultimately show ?thesis using i x(1) c2 un1 by (simp add: pm_inv_def Let_def pays_ok_def)
qed

lemma new_end:
  assumes i: "pm_inv sv s r st" and r: "0 < r"
    and p: "on_srvs (put_user v sv (p_users st)) (p_srv st) = Some t'" and v: "acc_ok (period_start s) v" "u_msid v = 1"
  shows "pm_inv sv s (r - 1) (st\<lparr>p_srv := t', p_changes := m_upd (p_users st) v (p_changes st), p_users := p_users st + 1,
    p_csum := xor4 (p_csum st) (u_csum v), p_weight := p_weight st + u_weight v\<rparr>)"
proof -
  let ?f = "d_usr (dsk (p_srv st)) sv" and ?n0 = "s_nodes (srvs s) ! unat sv" and ?k = "p_users st"
  have c: "core (period_start s) (n_weight ?n0) (n_hash ?n0) ?f (p_changes st) ?k (p_weight st) (p_csum st) r"
    and un: "undo_inv (d_usr (dsk s) sv) (n_users ?n0) ?f (p_changes st) ?k (p_undo st)"
    and a: "aside sv s (p_srv st)" and sv: "unat sv < length (s_nodes (srvs s))" and py: "pays_ok sv st"
    and ou: "n_users ?n0 \<le> ?k" "n_users ?n0 \<noteq> 0"
    using i by (simp_all add: pm_inv_def Let_def)
  note x = put_user_aside [OF a sv p]
  have k: "unat ?k + r < 2 ^ 32" "unat ?k \<le> length ?f" using c by (simp_all add: core_def)
  then have k1: "unat (?k + 1) = Suc (unat ?k)" "?k < ?k + 1" using r by (simp_all add: unat_word_ariths word_less_nat_alt)
  have "0 < unat ?k" using ou by (auto simp: word_le_nat_alt unat_pos)
  then have "unat (u_msid v) + (r - 1) < 2 ^ 32" using v(2) k by simp
  from core_new [OF c r v(1) this]
  have c1: "core (period_start s) (n_weight ?n0) (n_hash ?n0) (d_usr (dsk t') sv) (m_upd ?k v (p_changes st)) (?k + 1)
    (p_weight st + u_weight v) (xor4 (p_csum st) (u_csum v)) (r - 1)" by (simp add: x(2))
  have un1: "undo_inv (d_usr (dsk s) sv) (n_users ?n0) (d_usr (dsk t') sv) (m_upd ?k v (p_changes st)) (?k + 1) (p_undo st)"
    unfolding x(2) using undo_inv_new [OF un ou(1) k(2)] k r by simp
  have "n_users (s_nodes (srvs (p_srv st)) ! unat sv) = ?k" using py by (simp add: pays_ok_def)
  then have ch: "(unat (?k + 1) - 1) div 64 < length (n_changed (s_nodes (srvs t') ! unat sv))" using x(4) k1 by simp
  have "pays_ok sv (st\<lparr>p_srv := t', p_users := ?k + 1\<rparr>)" using pays_ok_put [OF py a sv p] k1(2) by blast
  moreover have "n_users ?n0 \<le> ?k + 1" using ou(1) k1 by (simp add: word_le_nat_alt)
  ultimately show ?thesis using x(1) c1 un1 ch sv ou(2) by (simp add: pm_inv_def Let_def pays_ok_def)
qed

lemma pm_inv_less: "pm_inv sv s r st \<Longrightarrow> r' \<le> r \<Longrightarrow> pm_inv sv s r' st"
  unfolding pm_inv_def Let_def using core_less by blast

lemma new_account_inv:
  assumes i: "pm_inv (mg_svid m) s r st" and r: "0 < r" and a: "new_account sha m omsid buf t st = Some (True, st')"
  shows "pm_inv (mg_svid m) s (r - 1) st'"
proof -
  let ?usr = "ttype t = TXSTYPE_USR" and ?sv = "mg_svid m"
  obtain nuser npkey where h: "(if ?usr then rdw nuser_off 4 buf else Some (auser t)) = Some nuser"
    "rd (if ?usr then npkey_off else upkey_off) 32 buf = Some npkey" and le: "nuser \<le> p_users st"
    using a by (auto simp: new_account_def Let_def bind_eq_Some_conv split: if_splits)
  obtain ok u st1 where nt: "new_target ?sv nuser st = (ok, u, st1)" by (metis prod_cases3)
  obtain v t' where ok: "ok" and v: "init_user sha (srvs (p_srv st1)) ?sv nuser (if ?usr then USER_MIN_MASS else 0) npkey (ttime t) = Some v"
    and p: "on_srvs (put_user v ?sv nuser) (p_srv st1) = Some t'"
    and st': "st' = (let st = st1\<lparr>p_srv := t', p_changes := m_upd nuser v (p_changes st1), p_csum := xor4 (xor4 (p_csum st1) (u_csum u)) (u_csum v)\<rparr>
      in if ?usr then st\<lparr>p_weight := p_weight st + USER_MIN_MASS\<rparr> else st\<lparr>p_uok := m_upd (pm_ppi m omsid ?sv st)
             \<lparr>uo_auser = auser t, uo_bbank = bbank t, uo_buser = buser t, uo_pkey = npkey\<rparr> (p_uok st)\<rparr>)"
    using a le nt unfolding new_account_def Let_def h bind.bind_lunit
    by (auto simp: bind_eq_Some_conv not_less split: if_splits)
  note f = init_user_fields [OF v]
  have v1: "acc_ok (period_start s) v" "u_msid v = 1" using f by (auto intro: acc_ok_new split: if_splits)
  show ?thesis
  proof (cases "nuser < p_users st")
    case True
    obtain st0 where l: "load_account ?sv nuser st = (u, st0)"
      and st1: "st1 = st0\<lparr>p_local_fee := p_local_fee st0 + u_weight u, p_weight := p_weight st0 - u_weight u\<rparr>"
      using nt ok True by (auto simp: new_target_def Let_def split: prod.splits if_splits)
    from load_account_inv [OF i True l] have i0: "pm_inv ?sv s r st0" "map_of (p_changes st0) nuser = Some u" "nuser < p_users st0"
      using True by simp_all
    have p0: "on_srvs (put_user v ?sv nuser) (p_srv st0) = Some t'" using p by (simp add: st1)
    from new_over [OF i0(1,3,2) p0 v1] have "pm_inv ?sv s r st'"
      by (cases ?usr) (simp_all add: st' st1 f pm_inv_def Let_def pays_ok_def algebra_simps)
    then show ?thesis by (rule pm_inv_less) simp
  next
    case False
    then have n: "nuser = p_users st" using le by simp
    have st1: "u = zero_user" "st1 = st\<lparr>p_users := p_users st + 1\<rparr>" using nt False by (auto simp: new_target_def)
    have p0: "on_srvs (put_user v ?sv (p_users st)) (p_srv st) = Some t'" using p by (simp add: st1 n)
    from new_end [OF i r p0 v1] show ?thesis
      by (cases ?usr) (simp_all add: st' st1 f n pm_inv_def Let_def pays_ok_def zero_user_def xor4_laws(3))
  qed
qed

section \<open>The sender\<close>

lemma eff_sign: "tx_sign cs tp rest buf t u st = Some st' \<Longrightarrow> eff st st' \<and> p_dsu st' = p_dsu st \<and> p_deposit st' = p_deposit st"
  by (auto simp: tx_sign_def eff_def bind_eq_Some_conv split: if_splits)

lemma eff_pm_log: "eff st (pm_log k l st) \<and> p_dsu (pm_log k l st) = p_dsu st \<and> p_deposit (pm_log k l st) = p_deposit st"
  by (simp add: pm_log_def eff_def)

lemma eff_mpt_logs: "eff st (mpt_logs tm m t x st) \<and> p_dsu (mpt_logs tm m t x st) = p_dsu st \<and> p_deposit (mpt_logs tm m t x st) = p_deposit st"
proof -
  have "eff st (fold (\<lambda>(i, user, mass) st. pm_log user (g i mass st) st) l st) \<and>
    p_dsu (fold (\<lambda>(i, user, mass) st. pm_log user (g i mass st) st) l st) = p_dsu st \<and>
    p_deposit (fold (\<lambda>(i, user, mass) st. pm_log user (g i mass st) st) l st) = p_deposit st" for l g
  proof (induction l arbitrary: st)
    case (Cons a l)
    obtain i user mass where a: "a = (i, user, mass)" by (metis prod_cases3)
    show ?case using Cons [of "pm_log user (g i mass st) st"] eff_pm_log [of st user "g i mass st"] eff_trans by (auto simp: a)
  qed simp
  then show ?thesis by (simp add: mpt_logs_def)
qed

lemma eff_tx_logs: "eff st (tx_logs tm m t x st) \<and> p_dsu (tx_logs tm m t x st) = p_dsu st \<and> p_deposit (tx_logs tm m t x st) = p_deposit st"
  using eff_pm_log eff_mpt_logs by (simp add: tx_logs_def Let_def)

text \<open>The dividend and the payment of the sender, on a state where the account is among the changed ones.\<close>

lemma tx_sender_inv:
  assumes i: "pm_inv sv s r st" and r: "0 < r" and k: "uid < p_users st" "auser t = uid" and u: "map_of (p_changes st) uid = Some u"
    and x: "x_user x = u\<lparr>u_pkey := pk\<rparr>" "x_st x = st" and ps: "period_start s \<le> s_now (srvs s)"
    and l: "eff (x_st (tx_div x)) st2 \<and> p_dsu st2 = p_dsu (x_st (tx_div x)) \<and> p_deposit st2 = p_deposit (x_st (tx_div x))"
  shows "pm_inv sv s (r - 1) (tx_sender sha sig t (tx_div x) st2)"
proof -
  let ?f = "d_usr (dsk (p_srv st)) sv" and ?n0 = "s_nodes (srvs s) ! unat sv"
  have c: "core (period_start s) (n_weight ?n0) (n_hash ?n0) ?f (p_changes st) (p_users st) (p_weight st) (p_csum st) r"
    and un: "undo_inv (d_usr (dsk s) sv) (n_users ?n0) ?f (p_changes st) (p_users st) (p_undo st)"
    and a: "aside sv s (p_srv st)" and sv: "unat sv < length (s_nodes (srvs s))" and py: "pays_ok sv st"
    using i by (simp_all add: pm_inv_def Let_def)
  note as = aside_simps [OF a sv]
  obtain dv v fee where dv: "dividend (p_srv st) (u\<lparr>u_pkey := pk\<rparr>) (p_lodiv_fee st) = (dv, v, fee)" by (metis prod_cases3)
  have o: "overlay ?f (p_changes st) (unat uid) = u" by (simp add: overlay_at u)
  note ca = core_account [OF c k(1), unfolded o]
  have "acc_ok (period_start (p_srv st)) (u\<lparr>u_pkey := pk\<rparr>)" using ca(1) as(1) by (simp add: acc_ok_def)
  note d = dividend_cases [OF dv this, unfolded as(1,2), OF ps]
  have dm: "u_msid v = u_msid u" using dv by (auto simp: dividend_def Let_def split: if_splits)
  define e where "e = (if dv = NO_DIV then 0 else dv)"
  define st1 where "st1 = st\<lparr>p_lodiv_fee := fee, p_weight := p_weight st + e\<rparr>"
  have td: "x_user (tx_div x) = v" "x_st (tx_div x) = st1" by (simp_all add: tx_div_def Let_def x dv st1_def e_def)
  define delta where "delta = ds_deposit (dsu_at uid st2) - x_deduct (tx_div x) - x_fee (tx_div x)"
  let ?st' = "tx_sender sha sig t (tx_div x) st2"
  have q: "quiet (p_srv st) (p_srv st2)" using l by (simp add: td st1_def eff_def)
  note qs = quiet_simps [OF q]
  obtain u' where ch: "p_changes ?st' = m_upd uid u' (p_changes st)" and w: "p_weight ?st' = p_weight st + (e + delta)"
    and rest: "p_srv ?st' = p_srv st2" "p_csum ?st' = p_csum st" "p_users ?st' = p_users st" "p_undo ?st' = p_undo st"
      "p_dsu ?st' = m_upd uid dsu0 (p_dsu st)" "p_deposit ?st' = p_deposit st"
    and u': "u_weight u' = u_weight v + delta" "u_csum u' = u_csum v" "u_msid u' = u_msid v + 1" "u_lpath u' = s_now (srvs s)"
    using l by (auto simp: tx_sender_def Let_def k(2) td delta_def set_dsu_def eff_def st1_def algebra_simps qs as)
  have m: "unat (u_msid u') = Suc (unat (u_msid u))" using ca(2) r dm by (simp add: u' unat_word_ariths)
  then have "u_msid u' \<noteq> 0" by (auto simp: unat_pos)
  then have ok: "acc_ok (period_start s) u'" using u'(4) ps by (intro acc_ok_not_due) auto
  have "core (period_start s) (n_weight ?n0) (n_hash ?n0) ?f (m_upd uid u' (p_changes st)) (p_users st)
    (p_weight st + (e + delta)) (p_csum st) (r - 1)"
    using d(1,2) m ca(2) r ok
    by (intro core_set [OF c k(1)]) (simp_all add: o u' e_def xor4_laws(1,3,4))
  moreover have "undo_inv (d_usr (dsk s) sv) (n_users ?n0) ?f (m_upd uid u' (p_changes st)) (p_users st) (p_undo st)"
    using undo_inv_change [OF un] u by simp
  moreover have "pays_ok sv ?st'" using py rest qs k(1) by (auto simp: pays_ok_def set_m_upd)
  ultimately show ?thesis using i aside_quiet [OF a q] by (simp add: pm_inv_def Let_def ch w rest qs)
qed

lemma tx_account_inv:
  assumes i: "pm_inv (mg_svid m) s r st" and r: "0 < r" and t: "abank t = mg_svid m" and ps: "period_start s \<le> s_now (srvs s)"
    and a: "tx_account c tm m omsid cs tp rest buf t st = Some (True, st')"
  shows "pm_inv (mg_svid m) s (r - 1) st'"
proof -
  let ?sv = "mg_svid m"
  obtain u st1 where l: "load_account ?sv (auser t) st = (u, st1)" by fastforce
  have k: "auser t < p_users st" using a by (auto simp: tx_account_def not_le split: if_splits)
  obtain st2 x sig where sg: "tx_sign cs tp rest buf t u st1 = Some st2" and e: "tx_effect m omsid buf t u st2 = Some (True, x)"
    and st': "st' = tx_sender (c_sha c) sig t (tx_div x) (tx_logs tm m t (tx_div x) (x_st (tx_div x)))"
    using a k unfolding tx_account_def l prod.case Let_def
    by (auto simp: bind_eq_Some_conv not_le split: if_splits prod.splits)
  from load_account_inv [OF i k l] have i1: "pm_inv ?sv s r st1" "map_of (p_changes st1) (auser t) = Some u" "auser t < p_users st1"
    using k by simp_all
  have e2: "eff st1 st2" "pays_ok ?sv st2" using eff_sign [OF sg] i1(1) pays_ok_eff [of st1 st2 ?sv] by (auto simp: pm_inv_def Let_def)
  from tx_effect_ok [OF _ e] t e2(2) have e3: "eff st2 (x_st x)" "pays_ok ?sv (x_st x)" "\<exists>k. x_user x = u\<lparr>u_pkey := k\<rparr>"
    by (simp_all add: eff_ok_def)
  have e4: "eff st1 (x_st x)" using eff_trans [OF e2(1) e3(1)] .
  from pm_inv_eff [OF i1(1) e4 e3(2)] have i3: "pm_inv ?sv s r (x_st x)" .
  from e3(3) obtain pk where "x_user x = u\<lparr>u_pkey := pk\<rparr>" by blast
  from tx_sender_inv [OF i3 r _ refl _ this refl ps eff_tx_logs] i1 e4 show ?thesis by (simp add: st' eff_def)
qed

section \<open>The loop\<close>

lemma pm_con_inv:
  assumes i: "pm_inv sv s r st" and c: "pm_con sv t st = Some st'"
  shows "pm_inv sv s r st'"
proof -
  let ?t = "p_srv st" and ?n = "s_nodes (srvs (p_srv st)) ! unat sv"
  have a: "aside sv s ?t" and sv: "unat sv < length (s_nodes (srvs s))" and py: "pays_ok sv st"
    using i by (simp_all add: pm_inv_def Let_def)
  have l: "unat sv < length (s_nodes (srvs ?t))" using aside_simps(4) [OF a sv] sv by simp
  have st': "st' = st\<lparr>p_srv := ?t\<lparr>srvs := set_node sv (?n\<lparr>n_port := ucast (abank t), n_ipv4 := auser t\<rparr>) (srvs ?t)\<rparr>\<rparr>"
    using c l by (simp add: pm_con_def Let_def)
  have "aside sv s (p_srv st')"
    using aside_node [OF a sv, where a = "n_users ?n" and b = "n_changed ?n" and c = "ucast (abank t)" and d = "auser t"
      and f = "d_usr (dsk ?t) sv"] by (simp add: st')
  moreover have "pays_ok sv st'"
  proof -
    have "valid_acc (srvs (p_srv st')) i j" if "valid_acc (srvs ?t) i j" for i j
      using that l by (simp add: st' valid_acc_iff nth_list_update)
    from deposits_ok_mono [OF this] show ?thesis using py l by (auto simp: st' pays_ok_def nth_list_update unat_eq_0)
  qed
  ultimately show ?thesis using i l by (simp add: pm_inv_def Let_def st')
qed

lemma pm_tx_inv:
  assumes i: "pm_inv (mg_svid m) s r st" and r: "2 \<le> r" and ps: "period_start s \<le> s_now (srvs s)"
    and a: "pm_tx c tm m omsid cs tp rest buf st = Some (True, sz, st')"
  shows "pm_inv (mg_svid m) s (r - 2) st'" "4 \<le> sz"
proof -
  define st0 where "st0 = st\<lparr>p_tmpos := p_tmpos st + 1\<rparr>"
  have i0: "pm_inv (mg_svid m) s r st0" using i by (simp add: pm_inv_def Let_def pays_ok_def st0_def)
  obtain ok t where t: "parse (usertxs0 0) buf = Some (ok, t)"
    using a by (auto simp: pm_tx_def Let_def bind_eq_Some_conv)
  note d = a [unfolded pm_tx_def Let_def st0_def [symmetric] t bind.bind_lunit prod.case]
  have ok: "ok" and sz: "sz = nat (txsize t)" using d by (auto simp: bind_eq_Some_conv split: if_splits prod.splits)
  show "4 \<le> sz" using parse_size(2) [of "usertxs0 0" buf t] t ok sz by simp
  have w: "pm_inv (mg_svid m) s (r - 2) st'" if "pm_inv (mg_svid m) s r' st'" "r - 2 \<le> r'" for r' using pm_inv_less that .
  have acc: "pm_inv (mg_svid m) s (r - 2) st'" if "pm_inv (mg_svid m) s (r - 1) st1" "abank t = mg_svid m"
    "tx_account c tm m omsid cs tp rest buf t st1 = Some (True, st')" for st1
    using tx_account_inv [OF that(1) _ that(2) ps that(3)] r w [of "r - 1 - 1"] by auto
  show "pm_inv (mg_svid m) s (r - 2) st'"
    using d i0 r new_account_inv [of m s r st0 "c_sha c" omsid buf t] pm_con_inv [of "mg_svid m" s r st0 t st'] w [of "r - 1"] w [of r]
      pm_inv_less [of "mg_svid m" s r st0 "r - 1"] acc
    by (auto simp: ok bind_eq_Some_conv split: if_split_asm)
qed

lemma pm_loop_inv:
  assumes "pm_inv (mg_svid m) s (unat (mg_len m) + 4 - p) st" and "period_start s \<le> s_now (srvs s)"
    and "pm_loop c tm m omsid cs tp d p st = Some (True, st')"
  shows "pm_inv (mg_svid m) s 0 st'"
  using assms
proof (induction c tm m omsid cs tp d p st rule: pm_loop.induct)
  case (1 c tm m omsid cs tp d p st)
  show ?case
  proof (cases "unat (mg_len m) \<le> p")
    case True
    then show ?thesis using "1.prems" pm_inv_less [of "mg_svid m" s _ st 0] by (simp add: pm_loop.simps [of c tm m omsid cs tp d p])
  next
    case False
    let ?x = "pm_tx c tm m omsid cs tp (unat (mg_len m) - p) (drop p d) st"
    obtain sz st1 where x: "?x = Some (True, sz, st1)" and l: "pm_loop c tm m omsid cs tp d (p + sz) st1 = Some (True, st')"
      using "1.prems"(3) False by (auto simp: pm_loop.simps [of c tm m omsid cs tp d p] bind_eq_Some_conv split: if_splits)
    from pm_tx_inv [OF "1.prems"(1) _ "1.prems"(2) x] False
    have i: "pm_inv (mg_svid m) s (unat (mg_len m) + 4 - p - 2) st1" "4 \<le> sz" by simp_all
    from pm_inv_less [OF i(1), of "unat (mg_len m) + 4 - (p + sz)"] i(2)
    have "pm_inv (mg_svid m) s (unat (mg_len m) + 4 - (p + sz)) st1" by simp
    with "1.IH" [OF False x] show ?thesis using l "1.prems"(2) by simp
  qed
qed

section \<open>Accounts that were touched are not due\<close>

definition settled :: "u32 \<Rightarrow> pm \<Rightarrow> bool" where
  "settled ps st \<longleftrightarrow> (\<forall>k u. map_of (p_changes st) k = Some u \<longrightarrow> ps \<le> u_lpath u \<or> ps \<le> u_rpath u)"

lemma load_account_other: "load_account sv uid st = (u, st') \<Longrightarrow> k \<noteq> uid \<Longrightarrow> map_of (p_changes st') k = map_of (p_changes st) k"
  by (auto simp: load_account_def Let_def map_of_m_upd split: option.splits)

lemma settled_new:
  assumes "settled ps st" and "ps \<le> ttime t" and a: "new_account sha m omsid buf t st = Some (True, st')"
  shows "settled ps st'"
proof -
  let ?usr = "ttype t = TXSTYPE_USR" and ?sv = "mg_svid m"
  obtain nuser npkey where h: "(if ?usr then rdw nuser_off 4 buf else Some (auser t)) = Some nuser"
    "rd (if ?usr then npkey_off else upkey_off) 32 buf = Some npkey" and le: "\<not> p_users st < nuser"
    using a by (auto simp: new_account_def Let_def bind_eq_Some_conv split: if_splits)
  obtain ok u st1 where nt: "new_target ?sv nuser st = (ok, u, st1)" by (metis prod_cases3)
  obtain v where v: "init_user sha (srvs (p_srv st1)) ?sv nuser (if ?usr then USER_MIN_MASS else 0) npkey (ttime t) = Some v"
    and c: "p_changes st' = m_upd nuser v (p_changes st1)"
    using a le nt unfolding new_account_def Let_def h bind.bind_lunit
    by (auto simp: bind_eq_Some_conv split: if_splits)
  have "u_lpath v = ttime t" using v by (auto simp: init_user_def init_user_hash_def user_csum_def bind_eq_Some_conv)
  moreover have "map_of (p_changes st1) k = map_of (p_changes st) k" if "k \<noteq> nuser" for k
    using nt load_account_other [of ?sv nuser st _ _ k] that by (auto simp: new_target_def Let_def split: if_splits prod.splits)
  ultimately show ?thesis using assms(1,2) unfolding settled_def c map_of_m_upd_eq
    by (metis (no_types, lifting) option.inject)
qed

lemma settled_account:
  assumes "settled ps st" and ps: "ps \<le> s_now (srvs s)" and i: "pm_inv (mg_svid m) s r st" and t: "abank t = mg_svid m"
    and a: "tx_account c tm m omsid cs tp rest buf t st = Some (True, st')"
  shows "settled ps st'"
proof -
  let ?sv = "mg_svid m"
  obtain u st1 where l: "load_account ?sv (auser t) st = (u, st1)" by fastforce
  have k: "auser t < p_users st" using a by (auto simp: tx_account_def not_le split: if_splits)
  obtain st2 x sig where sg: "tx_sign cs tp rest buf t u st1 = Some st2" and e: "tx_effect m omsid buf t u st2 = Some (True, x)"
    and st': "st' = tx_sender (c_sha c) sig t (tx_div x) (tx_logs tm m t (tx_div x) (x_st (tx_div x)))"
    using a k unfolding tx_account_def l prod.case Let_def
    by (auto simp: bind_eq_Some_conv not_le split: if_splits prod.splits)
  from load_account_inv [OF i k l] have i1: "pm_inv ?sv s r st1" by simp
  have e2: "eff st1 st2" "pays_ok ?sv st2" using eff_sign [OF sg] i1(1) pays_ok_eff [of st1 st2 ?sv] by (auto simp: pm_inv_def Let_def)
  from tx_effect_ok [OF _ e] t e2(2) have e3: "eff st1 (x_st x)" using eff_trans [OF e2(1)] by (simp add: eff_ok_def)
  have "eff (x_st x) ((x_st (tx_div x))\<lparr>p_weight := p_weight (x_st x), p_lodiv_fee := p_lodiv_fee (x_st x)\<rparr>)"
    by (simp add: tx_div_def Let_def eff_def split: prod.split)
  then have d: "p_changes (x_st (tx_div x)) = p_changes st1" "srvs (p_srv (x_st (tx_div x))) = srvs (p_srv st1)"
    using e3 quiet_simps(1) [of "p_srv st1" "p_srv (x_st x)"] quiet_simps(1) [of "p_srv (x_st x)" "p_srv (x_st (tx_div x))"]
    by (simp_all add: eff_def)
  have g: "p_changes (tx_logs tm m t (tx_div x) (x_st (tx_div x))) = p_changes st1"
    "srvs (p_srv (tx_logs tm m t (tx_div x) (x_st (tx_div x)))) = srvs (p_srv st1)"
    using eff_tx_logs [of "x_st (tx_div x)" tm m t "tx_div x"] d quiet_simps(1)
    by (auto simp: eff_def)
  have "s_now (srvs (p_srv st1)) = s_now (srvs s)" using i1 aside_simps(2) [of ?sv s "p_srv st1"] by (simp add: pm_inv_def Let_def)
  then show ?thesis using assms(1) ps load_account_other [OF l] g
    by (auto simp: settled_def st' tx_sender_def Let_def map_of_m_upd_eq set_dsu_def)
qed

lemma settled_tx:
  assumes i: "pm_inv (mg_svid m) s r st" and r: "2 \<le> r" and ps: "ps \<le> s_now (srvs s)" and "settled ps st"
    and new: "\<And>t. parse (usertxs0 0) buf = Some (True, t) \<Longrightarrow> ttype t = TXSTYPE_USR \<or> ttype t = TXSTYPE_UOK \<Longrightarrow> ps \<le> ttime t"
    and a: "pm_tx c tm m omsid cs tp rest buf st = Some (True, sz, st')"
  shows "settled ps st'"
proof -
  define st0 where "st0 = st\<lparr>p_tmpos := p_tmpos st + 1\<rparr>"
  have i0: "pm_inv (mg_svid m) s r st0" "settled ps st0" using i assms(4) by (simp_all add: pm_inv_def Let_def pays_ok_def st0_def settled_def)
  obtain ok t where t: "parse (usertxs0 0) buf = Some (ok, t)"
    using a by (auto simp: pm_tx_def Let_def bind_eq_Some_conv)
  note d = a [unfolded pm_tx_def Let_def st0_def [symmetric] t bind.bind_lunit prod.case]
  have ok: "ok" using d by (auto split: if_splits)
  have con: "settled ps st'" if "pm_con (mg_svid m) t st0 = Some st'" for st'
  proof -
    have "p_changes st' = p_changes st0" using that by (auto simp: pm_con_def Let_def bind_eq_Some_conv)
    then show ?thesis using i0(2) by (simp add: settled_def)
  qed
  have acc: "settled ps st'" if "pm_inv (mg_svid m) s r' st1" "settled ps st1" "abank t = mg_svid m"
    "tx_account c tm m omsid cs tp rest buf t st1 = Some (True, st')" for st1 r'
    using settled_account [OF that(2) ps that(1,3,4)] .
  show "settled ps st'"
    using d i0 r new [of t] t new_account_inv [of m s r st0 "c_sha c" omsid buf t] settled_new [of ps st0 t "c_sha c" m omsid buf] con acc
    by (auto simp: ok bind_eq_Some_conv split: if_split_asm)
qed

text \<open>The positions of the transactions in a message.\<close>

inductive tx_pos :: "bytes \<Rightarrow> nat \<Rightarrow> nat \<Rightarrow> bool" for d len where
  tx_start: "tx_pos d len data_offset"
| tx_next: "tx_pos d len p \<Longrightarrow> p < len \<Longrightarrow> parse (usertxs0 0) (drop p d) = Some (True, t) \<Longrightarrow>
    tx_pos d len (p + nat (txsize t))"

text \<open>New accounts are dated in the dividend period.\<close>

definition new_recent :: "u32 \<Rightarrow> bytes \<Rightarrow> nat \<Rightarrow> bool" where
  "new_recent ps d len \<longleftrightarrow> (\<forall>p t. tx_pos d len p \<and> p < len \<and> parse (usertxs0 0) (drop p d) = Some (True, t) \<and>
     (ttype t = TXSTYPE_USR \<or> ttype t = TXSTYPE_UOK) \<longrightarrow> ps \<le> ttime t)"

lemma new_recentD:
  "new_recent ps d len \<Longrightarrow> tx_pos d len p \<Longrightarrow> p < len \<Longrightarrow> parse (usertxs0 0) (drop p d) = Some (True, t) \<Longrightarrow>
   ttype t = TXSTYPE_USR \<or> ttype t = TXSTYPE_UOK \<Longrightarrow> ps \<le> ttime t"
  unfolding new_recent_def by blast

lemma pm_tx_parse:
  "pm_tx c tm m omsid cs tp rest buf st = Some (True, sz, st') \<Longrightarrow> \<exists>t. parse (usertxs0 0) buf = Some (True, t) \<and> sz = nat (txsize t)"
  by (auto simp: pm_tx_def Let_def bind_eq_Some_conv split: if_splits)

lemma pm_loop_settled:
  assumes "pm_inv (mg_svid m) s (unat (mg_len m) + 4 - p) st" and "period_start s \<le> s_now (srvs s)" and "ps \<le> s_now (srvs s)"
    and "settled ps st" and "new_recent ps d (unat (mg_len m))" and "tx_pos d (unat (mg_len m)) p"
    and "pm_loop c tm m omsid cs tp d p st = Some (True, st')"
  shows "settled ps st'"
  using assms
proof (induction c tm m omsid cs tp d p st rule: pm_loop.induct)
  case (1 c tm m omsid cs tp d p st)
  note simps = pm_loop.simps [of c tm m omsid cs tp d p]
  show ?case
  proof (cases "unat (mg_len m) \<le> p")
    case True
    then show ?thesis using "1.prems" by (simp add: simps)
  next
    case False
    let ?x = "pm_tx c tm m omsid cs tp (unat (mg_len m) - p) (drop p d) st"
    obtain sz st1 where x: "?x = Some (True, sz, st1)" and l: "pm_loop c tm m omsid cs tp d (p + sz) st1 = Some (True, st')"
      using "1.prems"(7) False by (auto simp: simps bind_eq_Some_conv split: if_splits)
    obtain t where t: "parse (usertxs0 0) (drop p d) = Some (True, t)" "sz = nat (txsize t)" using pm_tx_parse [OF x] by blast
    from pm_tx_inv [OF "1.prems"(1) _ "1.prems"(2) x] False
    have i: "pm_inv (mg_svid m) s (unat (mg_len m) + 4 - p - 2) st1" "4 \<le> sz" by simp_all
    from pm_inv_less [OF i(1), of "unat (mg_len m) + 4 - (p + sz)"] i(2)
    have i1: "pm_inv (mg_svid m) s (unat (mg_len m) + 4 - (p + sz)) st1" by simp
    have "settled ps st1"
      by (rule settled_tx [OF "1.prems"(1) _ "1.prems"(3,4) _ x])
        (use False t new_recentD [OF "1.prems"(5,6)] in auto)
    moreover have "tx_pos d (unat (mg_len m)) (p + sz)" using tx_next [OF "1.prems"(6) _ t(1)] False t(2) by simp
    ultimately show ?thesis using "1.IH" [OF False x] i1 l "1.prems"(2,3,5) by simp
  qed
qed

section \<open>The end of the message\<close>

lemma dsu_user_simps [simp]:
  "u_weight (dsu_user d u) = u_weight u + ds_deposit d" "u_csum (dsu_user d u) = u_csum u" "u_msid (dsu_user d u) = u_msid u"
  "u_lpath (dsu_user d u) = u_lpath u" "u_rpath (dsu_user d u) = u_rpath u"
  by (simp_all add: dsu_user_def)

lemma dsu_step_inv:
  assumes i: "pm_inv sv s 0 st" and st: "settled (period_start s) st" and k: "uid < p_users st"
    and ps: "period_start s \<le> s_now (srvs s)" and d: "dsu_step sha sv (uid, d) st = Some st'"
  shows "pm_inv sv s 0 st' \<and> settled (period_start s) st' \<and> p_users st' = p_users st \<and> p_dsu st' = p_dsu st"
proof -
  let ?f = "d_usr (dsk (p_srv st)) sv" and ?n0 = "s_nodes (srvs s) ! unat sv"
  have c: "core (period_start s) (n_weight ?n0) (n_hash ?n0) ?f (p_changes st) (p_users st) (p_weight st) (p_csum st) 0"
    and un: "undo_inv (d_usr (dsk s) sv) (n_users ?n0) ?f (p_changes st) (p_users st) (p_undo st)"
    and a: "aside sv s (p_srv st)" and sv: "unat sv < length (s_nodes (srvs s))" and py: "pays_ok sv st"
    using i by (simp_all add: pm_inv_def Let_def)
  note as = aside_simps [OF a sv]
  have key: "pm_inv sv s 0 st' \<and> settled (period_start s) st' \<and> p_users st' = p_users st \<and> p_dsu st' = p_dsu st"
    if c': "core (period_start s) (n_weight ?n0) (n_hash ?n0) ?f ch (p_users st) w cs 0"
      and un': "undo_inv (d_usr (dsk s) sv) (n_users ?n0) ?f ch (p_users st) un'"
      and u: "overlay ?f ch (unat uid) = u" "map_of ch uid \<noteq> None" and v: "u_weight v = u_weight u + e" "u_csum v = u_csum u" "u_msid v = u_msid u"
      and due: "period_start s \<le> u_lpath v \<or> period_start s \<le> u_rpath v"
      and other: "\<And>j. j \<noteq> uid \<Longrightarrow> map_of ch j = map_of (p_changes st) j"
      and st': "p_srv st' = p_srv st" "p_users st' = p_users st" "p_dsu st' = p_dsu st" "p_deposit st' = p_deposit st"
        "p_undo st' = un'" "p_changes st' = m_upd uid (user_csum sha (dsu_user d v) sv uid) ch"
        "p_csum st' = xor4 (xor4 cs (u_csum u)) (u_csum (user_csum sha (dsu_user d v) sv uid))"
        "p_weight st' = w + (e + ds_deposit d)" for ch w cs un' u v e
  proof -
    have ca: "acc_ok (period_start s) u" "unat (u_msid u) + 0 < 2 ^ 32" using core_account [OF c' k] u(1) by simp_all
    have "core (period_start s) (n_weight ?n0) (n_hash ?n0) ?f (p_changes st') (p_users st) (p_weight st') (p_csum st') 0"
      unfolding st' using due ca v
      by (intro core_set [OF c' k]) (auto simp: u(1) acc_ok_def not_less)
    moreover have "undo_inv (d_usr (dsk s) sv) (n_users ?n0) ?f (p_changes st') (p_users st) un'"
      unfolding st' using undo_inv_change [OF un' u(2)] .
    moreover have "settled (period_start s) st'" using st other due by (auto simp: settled_def st' map_of_m_upd_eq)
    ultimately show ?thesis using i py st' by (simp add: pm_inv_def Let_def pays_ok_def)
  qed
  show ?thesis
  proof (cases "map_of (p_changes st) uid")
    case (Some u)
    then have "st' = st\<lparr>p_csum := xor4 (xor4 (p_csum st) (u_csum u)) (u_csum (user_csum sha (dsu_user d u) sv uid)), p_weight := p_weight st + ds_deposit d,
            p_changes := m_upd uid (user_csum sha (dsu_user d u) sv uid) (p_changes st)\<rparr>"
      using d by (simp add: dsu_step_def Let_def)
    then show ?thesis using Some st by (intro key [OF c un, of u u 0]) (auto simp: overlay_at settled_def)
  next
    case None
    note g = core_account(3) [OF c k]
    let ?u = "?f ! unat uid"
    obtain dv v fee where dv: "dividend (p_srv st) ?u (p_lodiv_fee st) = (dv, v, fee)" by (metis prod_cases3)
    have o: "overlay ?f (p_changes st) (unat uid) = ?u" by (simp add: overlay_at None)
    have "acc_ok (period_start (p_srv st)) ?u" using core_account(1) [OF c k] as(1) o by simp
    note dc = dividend_cases [OF dv this, unfolded as(1,2), OF ps]
    have dm: "u_msid v = u_msid ?u" using dv by (auto simp: dividend_def Let_def split: if_splits)
    have "st' = st\<lparr>p_undo := m_upd uid ?u (p_undo st), p_lodiv_fee := fee,
        p_csum := xor4 (xor4 (p_csum st) (u_csum ?u)) (u_csum (user_csum sha (dsu_user d v) sv uid)),
        p_weight := (if dv \<noteq> NO_DIV then p_weight st + dv else p_weight st) + ds_deposit d,
        p_changes := m_upd uid (user_csum sha (dsu_user d v) sv uid) (p_changes st)\<rparr>"
      using d None g by (simp add: dsu_step_def Let_def dv)
    then show ?thesis using dc dm
      by (intro key [OF core_load [OF c k None] undo_inv_load [OF un k None g], of ?u v "if dv = NO_DIV then 0 else dv"])
        (auto simp: overlay_at map_of_m_upd_eq div_due_def not_less as m_upd_twice)
  qed
qed

lemma dsu_loop_inv:
  assumes "pm_inv sv s 0 st" and "settled (period_start s) st" and "\<forall>k \<in> fst ` set l. k < p_users st"
    and "period_start s \<le> s_now (srvs s)" and "ofold (dsu_step sha sv) l st = Some st'"
  shows "pm_inv sv s 0 st'"
  using assms
proof (induction l arbitrary: st)
  case (Cons a l)
  obtain uid d where a: "a = (uid, d)" by force
  obtain st1 where s1: "dsu_step sha sv (uid, d) st = Some st1" "ofold (dsu_step sha sv) l st1 = Some st'"
    using Cons.prems(5) by (auto simp: a bind_eq_Some_conv)
  from dsu_step_inv [OF Cons.prems(1,2) _ Cons.prems(4) s1(1)] Cons.prems(3)
  have "pm_inv sv s 0 st1" "settled (period_start s) st1" "p_users st1 = p_users st" by (simp_all add: a)
  then show ?case using Cons.IH [OF _ _ _ Cons.prems(4) s1(2)] Cons.prems(3) by (simp add: a)
qed simp

text \<open>What remains of a message in the ledger: the account file and the totals of its node.\<close>

definition stored :: "message \<Rightarrow> i64 \<Rightarrow> server \<Rightarrow> pm \<Rightarrow> server \<Rightarrow> bool" where
  "stored m profit s st t \<longleftrightarrow> (let sv = mg_svid m; n0 = s_nodes (srvs s) ! unat sv in \<exists>n.
     srvs t = set_node sv n (srvs s) \<and> n_users n = p_users st \<and> n_weight n = n_weight n0 + p_weight st \<and>
     n_hash n = xor4 (n_hash n0) (p_csum st) \<and> n_status n = n_status n0 \<and>
     (unat (p_users st) - 1) div 64 < length (n_changed n) \<and>
     d_usr (dsk t) = (d_usr (dsk s))(sv := put_changes (p_changes st) (d_usr (dsk (p_srv st)) sv)) \<and>
     period_start t = period_start s \<and> last_srvs t = last_srvs s \<and>
     deposit t = deposit s \<and> queues t = queues s \<and> my_svid t = my_svid s \<and>
     unat sv < length (bank_fee s) \<and> bank_fee t = (bank_fee s)[unat sv := bank_fee s ! unat sv + profit] \<and>
     d_mun (dsk t) (makefilename m (mg_path m)) = Some (undo_bytes \<lparr>mu_undo = p_undo st, mu_users = n_users n0,
       mu_csum = p_csum st, mu_weight = p_weight st, mu_fee = profit, mu_msha = n_msha n0, mu_mtim = n_mtim n0\<rparr>))"

lemma save_undo_node:
  assumes "save_undo sv un ou (x, d) = Some (x', d')" and "unat sv < length (s_nodes x)"
  defines "n \<equiv> s_nodes x ! unat sv"
  obtains ch where "x' = set_node sv (n\<lparr>n_users := (if n_users n \<le> ou then ou else n_users n), n_changed := ch\<rparr>) x"
    "length ch = (if n_users n \<le> ou then 1 + unat ou div 64 else length (n_changed n))" "d_usr d' = d_usr d" "d_mun d' = d_mun d"
proof -
  define n1 where "n1 = (if n_users n \<le> ou then n\<lparr>n_users := ou, n_changed := vec_resize (1 + unat ou div 64) 0 (n_changed n)\<rparr> else n)"
  have len: "save_undo_loop un ch f = Some (ch', f') \<Longrightarrow> length ch' = length ch" for un ch f ch' f'
    by (induction un ch f rule: save_undo_loop.induct) (auto simp: Let_def split: if_splits)
  obtain ch f where r: "save_undo_loop un (n_changed n1) (d_und d (s_now x, sv)) = Some (ch, f)"
    "x' = set_node sv (n1\<lparr>n_changed := ch\<rparr>) x" "d' = d\<lparr>d_und := (d_und d)((s_now x, sv) := f)\<rparr>"
    using assms(1) node_at_Some [OF assms(2)] unfolding save_undo_def Let_def
    by (auto simp: bind_eq_Some_conv n_def [symmetric] n1_def [symmetric])
  show ?thesis
    by (rule that [of ch]) (use r len [OF r(1)] in \<open>auto simp: n1_def\<close>)
qed

lemma pm_store_stored:
  assumes i: "pm_inv (mg_svid m) s 0 st" and p: "pm_store m (n_users (s_nodes (srvs s) ! unat (mg_svid m))) profit st = Some t"
  shows "stored m profit s st t"
proof -
  let ?sv = "mg_svid m" and ?n0 = "s_nodes (srvs s) ! unat (mg_svid m)" and ?t = "p_srv st"
  have a: "aside ?sv s ?t" and sv: "unat ?sv < length (s_nodes (srvs s))" and py: "pays_ok ?sv st"
    and ou: "n_users ?n0 \<le> p_users st" and ch: "(unat (p_users st) - 1) div 64 < length (n_changed (s_nodes (srvs ?t) ! unat ?sv))"
    using i by (simp_all add: pm_inv_def Let_def)
  obtain a' b c d f bro ev where t: "?t = s\<lparr>srvs := set_node ?sv (?n0\<lparr>n_users := a', n_changed := b, n_port := c, n_ipv4 := d\<rparr>) (srvs s),
           dsk := (dsk s)\<lparr>d_usr := (d_usr (dsk s))(?sv := f), d_bro := bro\<rparr>, events := ev\<rparr>"
    using a unfolding aside_def by blast
  have ab: "a' = p_users st" "(unat (p_users st) - 1) div 64 < length b" using py ch sv by (simp_all add: pays_ok_def t)
  define n1 where "n1 = ?n0\<lparr>n_users := a', n_changed := b, n_port := c, n_ipv4 := d, n_weight := n_weight ?n0 + p_weight st,
    n_hash := xor4 (n_hash ?n0) (p_csum st)\<rparr>"
  obtain bf where bf: "add_fee ?sv profit ?t = Some (?t\<lparr>bank_fee := bf\<rparr>)" "unat ?sv < length (bank_fee s)"
      "bf = (bank_fee s)[unat ?sv := bank_fee s ! unat ?sv + profit]"
    using p by (auto simp: pm_store_def add_fee_def Let_def bind_eq_Some_conv t split: if_splits)
  obtain dk x' d' where su: "save_undo ?sv (p_undo st) (n_users ?n0) (set_node ?sv n1 (srvs s), dk) = Some (x', d')"
    "d_usr dk = d_usr (dsk ?t)" "d_mun dk (makefilename m (mg_path m)) = Some (undo_bytes \<lparr>mu_undo = p_undo st, mu_users = n_users ?n0,
       mu_csum = p_csum st, mu_weight = p_weight st, mu_fee = profit, mu_msha = n_msha ?n0, mu_mtim = n_mtim ?n0\<rparr>)"
    and t': "t = ?t\<lparr>bank_fee := bf, srvs := x', dsk := d'\<lparr>d_usr := (d_usr d')(?sv := put_changes (p_changes st) (d_usr d' ?sv))\<rparr>\<rparr>"
    using p sv unfolding pm_store_def Let_def bf bind.bind_lunit
    by (auto simp: bind_eq_Some_conv t on_srvs_def n1_def msg_save_undo_def set_node_def)
  have sv1: "unat ?sv < length (s_nodes (set_node ?sv n1 (srvs s)))" and nn: "s_nodes (set_node ?sv n1 (srvs s)) ! unat ?sv = n1"
    using sv by simp_all
  obtain ch' where "x' = set_node ?sv (n1\<lparr>n_users := (if n_users n1 \<le> n_users ?n0 then n_users ?n0 else n_users n1), n_changed := ch'\<rparr>)
      (set_node ?sv n1 (srvs s))"
    and l: "length ch' = (if n_users n1 \<le> n_users ?n0 then 1 + unat (n_users ?n0) div 64 else length (n_changed n1))" "d_usr d' = d_usr dk"
      "d_mun d' = d_mun dk"
    using save_undo_node [OF su(1) sv1, unfolded nn] by metis
  then have x': "x' = set_node ?sv (n1\<lparr>n_users := (if a' \<le> n_users ?n0 then n_users ?n0 else a'), n_changed := ch'\<rparr>) (srvs s)"
    "length ch' = (if a' \<le> n_users ?n0 then 1 + unat (n_users ?n0) div 64 else length b)" "d_usr d' = d_usr dk" "d_mun d' = d_mun dk"
    by (simp_all add: n1_def set_node_def)
  have "(unat (p_users st) - 1) div 64 < length ch'"
  proof (cases "a' \<le> n_users ?n0")
    case True
    then have "n_users ?n0 = p_users st" using ou ab(1) by simp
    moreover have "(unat (p_users st) - 1) div 64 \<le> unat (p_users st) div 64" by (rule div_le_mono) simp
    ultimately show ?thesis using x'(2) True by simp
  next
    case False
    then show ?thesis using x'(2) ab by simp
  qed
  moreover have "(if a' \<le> n_users ?n0 then n_users ?n0 else a') = p_users st" using ou ab(1) by auto
  ultimately show ?thesis unfolding stored_def Let_def
    by (intro exI [of _ "n1\<lparr>n_users := (if a' \<le> n_users ?n0 then n_users ?n0 else a'), n_changed := ch'\<rparr>"])
      (auto simp: t' x'(1,3,4) su(2,3) t n1_def bf queues_def fun_eq_iff)
qed

lemma valid_acc_node:
  assumes "y = set_node sv n x" and "unat sv < length (s_nodes x)" and "valid_acc x j k" and "j = sv \<Longrightarrow> k < n_users n"
  shows "valid_acc y j k"
proof (cases "j = sv")
  case True
  then show ?thesis using assms by (simp add: valid_acc_iff)
next
  case False
  then have "unat j \<noteq> unat sv" by (simp add: word_unat_eq_iff)
  then show ?thesis using assms by (simp add: valid_acc_iff)
qed

lemma stored_ledger:
  assumes l: "block_ok s" and i: "pm_inv (mg_svid m) s 0 st" and t: "stored m profit s st t"
  shows "block_ok t" and "deposits_ok (srvs t) (p_deposit st)"
proof -
  define sv where "sv = mg_svid m"
  let ?n0 = "s_nodes (srvs s) ! unat sv" and ?f = "d_usr (dsk (p_srv st)) sv"
  note i = i [folded sv_def]
  obtain n where n: "srvs t = set_node sv n (srvs s)" "n_users n = p_users st" "n_weight n = n_weight ?n0 + p_weight st"
    "n_hash n = xor4 (n_hash ?n0) (p_csum st)" "n_status n = n_status ?n0" "(unat (p_users st) - 1) div 64 < length (n_changed n)"
    "d_usr (dsk t) = (d_usr (dsk s))(sv := put_changes (p_changes st) ?f)" "period_start t = period_start s"
    "length (bank_fee t) = length (bank_fee s)" "deposit t = deposit s"
    using t by (auto simp: stored_def Let_def sv_def)
  have a: "aside sv s (p_srv st)" and sv: "unat sv < length (s_nodes (srvs s))" "sv \<noteq> 0" and py: "pays_ok sv st"
    and ou: "n_users ?n0 \<le> p_users st" "n_users ?n0 \<noteq> 0"
    and c: "core (period_start s) (n_weight ?n0) (n_hash ?n0) ?f (p_changes st) (p_users st) (p_weight st) (p_csum st) 0"
    using i by (simp_all add: pm_inv_def Let_def pays_ok_def)
  have "p_users st \<noteq> 0" using ou by auto
  from core_file [OF c this n(2-4,6)] have "bank_inv (period_start s) n (put_changes (p_changes st) ?f)" .
  with l n sv have "ledger_ok t" using ledger_set [of "srvs s" "d_usr (dsk s)" "length (bank_fee s)" "period_start s" sv n] by simp
  moreover have up: "valid_acc (srvs t) j k" if "valid_acc (srvs s) j k" for j k
    by (rule valid_acc_node [OF n(1) sv(1) that]) (use that ou(1) n(2) in \<open>auto simp: valid_acc_iff\<close>)
  have up2: "valid_acc (srvs t) j k" if "valid_acc (srvs (p_srv st)) j k" for j k
  proof (cases "j = sv")
    case True
    then show ?thesis using that py n(1,2) sv by (auto simp: valid_acc_iff pays_ok_def)
  next
    case False
    then have "unat j \<noteq> unat sv" by (simp add: word_unat_eq_iff)
    then show ?thesis using that n(1) a by (auto simp: valid_acc_iff aside_def)
  qed
  show "deposits_ok (srvs t) (p_deposit st)" using deposits_ok_mono [OF up2] py by (simp add: pays_ok_def)
  show "block_ok t" using \<open>ledger_ok t\<close> deposits_ok_mono [OF up] l n(10) by simp
qed

text \<open>The deposits, keys and queues at the end.\<close>

lemma deposits_ok_add0:
  assumes "deposits_ok x dep" and "v \<noteq> 0 \<Longrightarrow> valid_acc x (ucast (dep_bank k)) (dep_user k)"
  shows "deposits_ok x (m_add k v dep)"
  unfolding m_add_def
proof (rule deposits_ok_upd [OF assms(1)])
  assume "m_at 0 dep k + v \<noteq> 0"
  then have "v \<noteq> 0 \<or> m_at 0 dep k \<noteq> 0" by auto
  then show "valid_acc x (ucast (dep_bank k)) (dep_user k)"
    using assms by (fastforce simp: deposits_ok_def m_at_def split: option.splits dest: map_of_SomeD)
qed

lemma deposit_adds_ok:
  "block_ok s \<Longrightarrow> deposits_ok (srvs s) l \<Longrightarrow> block_ok (fold (\<lambda>(k, x). deposit_add k x) l s)"
proof (induction l arbitrary: s)
  case (Cons a l)
  obtain k x where a: "a = (k, x)" by force
  have "block_ok (deposit_add k x s)" "deposits_ok (srvs (deposit_add k x s)) l"
    using Cons.prems deposits_ok_add0 [of "srvs s" "deposit s" x k] by (auto simp: a deposit_add_def deposits_ok_def)
  from Cons.IH [OF this] show ?case by (simp add: a)
qed simp

lemma own_key_fields:
  "own_key kd k s = Some t \<Longrightarrow> \<exists>a b c. t = s\<lparr>my_pkey := a, my_skey := b, nkeys := c\<rparr>"
  by (auto simp: own_key_def bind_eq_Some_conv split: prod.splits if_splits)

lemma pm_bky_step_ok:
  assumes "block_ok s" and "pm_bky_step kd e s = Some t"
  shows "block_ok t"
proof -
  obtain ppb k where e: "e = (ppb, k)" by force
  let ?i = "ppi_bbank ppb"
  obtain n b where n: "node_at (srvs s) ?i = Some n"
    and t: "(if ?i = my_svid s then own_key kd k (s\<lparr>blk_bky := b, srvs := set_node ?i (n\<lparr>n_pk := k\<rparr>) (srvs s)\<rparr>)
      else Some (s\<lparr>blk_bky := b, srvs := set_node ?i (n\<lparr>n_pk := k\<rparr>) (srvs s)\<rparr>)) = Some t"
  proof -
    obtain o1 n where "node_at (last_srvs s) ?i = Some o1" "node_at (srvs s) ?i = Some n"
      using assms(2) by (auto simp: e pm_bky_step_def Let_def bind_eq_Some_conv split: if_splits)
    then show ?thesis using assms(2)
        that [of n "if n_status o1 AND SERVER_DBL \<noteq> 0 then m_upd ppb ?i (blk_bky s) else blk_bky s"]
      by (auto simp: e pm_bky_step_def Let_def split: if_splits)
  qed
  have i: "unat ?i < length (s_nodes (srvs s))" "n = s_nodes (srvs s) ! unat ?i"
    using n by (auto simp: node_at_def split: if_splits)
  let ?x = "set_node ?i (n\<lparr>n_pk := k\<rparr>) (srvs s)"
  have "srvs t = ?x" "dsk t = dsk s" "bank_fee t = bank_fee s" "period_start t = period_start s" "deposit t = deposit s"
    using t own_key_fields [of kd k "s\<lparr>blk_bky := b, srvs := ?x\<rparr>" t] by (auto split: if_splits)
  moreover have "ledger ?x ((d_usr (dsk s))(?i := d_usr (dsk s) ?i)) (length (bank_fee s)) (period_start s)"
    using assms(1) ledger_bank [of "srvs s" "d_usr (dsk s)" "length (bank_fee s)" "period_start s" ?i] i
    by (intro ledger_set) (auto simp: bank_inv_def ledger_def)
  moreover have "deposits_ok ?x (deposit s)"
    using deposits_ok_grows [OF grows_set_node] assms(1) i by simp
  ultimately show ?thesis by simp
qed

lemma pm_bky_ok: "block_ok s \<Longrightarrow> ofold (pm_bky_step kd) l s = Some t \<Longrightarrow> block_ok t"
proof (induction l arbitrary: s)
  case (Cons e l)
  then obtain s1 where "pm_bky_step kd e s = Some s1" "ofold (pm_bky_step kd) l s1 = Some t" by (auto simp: bind_eq_Some_conv)
  with Cons.IH pm_bky_step_ok [OF Cons.prems(1)] show ?case by blast
qed simp

lemma pm_queue_ok:
  assumes "block_ok s" and "deposits_ok (srvs s) (p_deposit st)" and "pm_queue kd st s = Some t"
  shows "block_ok t"
proof -
  let ?s = "fold (\<lambda>(k, x). deposit_add k x) (p_deposit st) s"
  obtain s1 where s1: "ofold (pm_bky_step kd) (p_bky st) ?s = Some s1"
    using assms(3) by (auto simp: pm_queue_def Let_def bind_eq_Some_conv)
  have "block_ok ?s" by (rule deposit_adds_ok [OF assms(1,2)])
  from pm_bky_ok [OF this s1] have b: "block_ok s1" .
  let ?x = "(srvs s1)\<lparr>s_msg := s_msg (srvs s1) + 1, s_txs := s_txs (srvs s1) + ucast (p_tmpos st)\<rparr>"
  have t: "srvs t = srvs s1 \<or> srvs t = ?x" "dsk t = dsk s1" "bank_fee t = bank_fee s1" "period_start t = period_start s1" "deposit t = deposit s1"
    using assms(3) s1 by (auto simp: pm_queue_def Let_def)
  moreover have "ledger ?x f nb ps = ledger (srvs s1) f nb ps" for f nb ps by (simp add: ledger_def)
  moreover have "deposits_ok ?x d = deposits_ok (srvs s1) d" for d by (simp add: deposits_ok_def valid_acc_iff)
  ultimately show ?thesis using b by auto
qed

section \<open>A message keeps the ledger\<close>

text \<open>
  What a message may rely on: it comes from a node, the counters of the node and of its accounts are
  not about to wrap, and new accounts are dated in the dividend period.
\<close>

definition msg_fits :: "server \<Rightarrow> message \<Rightarrow> bool" where
  "msg_fits s m \<longleftrightarrow> mg_svid m \<noteq> 0 \<and>
     (let n = s_nodes (srvs s) ! unat (mg_svid m); f = d_usr (dsk s) (mg_svid m); l = unat (mg_len m) in
      unat (n_users n) + l < 2 ^ 32 \<and> (\<forall>i < unat (n_users n). unat (u_msid (f ! i)) + l < 2 ^ 32) \<and>
      (\<forall>d. mg_data m = Some d \<longrightarrow> new_recent (period_start s) d l))"

lemma pm0_inv:
  assumes "ledger_ok s" and "msg_fits s m" and "unat (mg_svid m) < length (s_nodes (srvs s))"
  shows "pm_inv (mg_svid m) s (unat (mg_len m) + 4 - data_offset) (pm0 s (n_users (s_nodes (srvs s) ! unat (mg_svid m))))"
proof -
  let ?sv = "mg_svid m" and ?n = "s_nodes (srvs s) ! unat (mg_svid m)" and ?f = "d_usr (dsk s) (mg_svid m)"
  have sv: "?sv \<noteq> 0" "0 < unat ?sv" using assms(2) by (simp_all add: msg_fits_def Let_def unat_gt_0)
  with assms(1,3) have b: "bank_inv (period_start s) ?n ?f" and n0: "n_users (s_nodes (srvs s) ! 0) = 0"
    by (auto simp: ledger_def)
  have o: "overlay ?f [] = nth ?f" by (simp add: overlay_def fun_eq_iff)
  have "core (period_start s) (n_weight ?n) (n_hash ?n) ?f [] (n_users ?n) 0 (0, 0, 0, 0) (unat (mg_len m) + 4 - data_offset)"
    using b assms(2) by (auto simp: core_def o bank_inv_def msg_fits_def Let_def xor4_laws(3))
  moreover have "aside ?sv s s"
    unfolding aside_def
    by (rule exI [of _ "n_users ?n"], rule exI [of _ "n_changed ?n"], rule exI [of _ "n_port ?n"], rule exI [of _ "n_ipv4 ?n"],
      rule exI [of _ ?f], rule exI [of _ "d_bro (dsk s)"], rule exI [of _ "events s"]) (simp add: set_node_same assms(3))
  ultimately show ?thesis using b sv assms(3) n0
    by (auto simp: pm_inv_def Let_def pm0_def pays_ok_def deposits_ok_def undo_inv_def bank_inv_def)
qed

text \<open>The stages of an accepted message: the transactions, the accounts, the queues.\<close>

definition stages :: "keydir \<Rightarrow> message \<Rightarrow> server \<Rightarrow> pm \<Rightarrow> i64 \<Rightarrow> server \<Rightarrow> server \<Rightarrow> server \<Rightarrow> bool" where
  "stages kd m s st profit s1 s2 t \<longleftrightarrow> pm_inv (mg_svid m) s 0 st \<and> stored m profit s st s1 \<and> pm_queue kd st s1 = Some s2 \<and>
     (\<exists>lg. t = s2\<lparr>dsk := put_msglog (s_now (srvs s2)) (mg_svid m) (mg_msid m) lg (dsk s2)\<rparr>)"

lemma pm_commit_stages:
  assumes l: "ledger_ok s" and i: "pm_inv (mg_svid m) s 0 st" and e: "settled (period_start s) st"
    and c: "pm_commit c kd tm m (n_users (s_nodes (srvs s) ! unat (mg_svid m))) st = Some t"
  obtains st1 profit s1 s2 where "ofold (dsu_step (c_sha c) (mg_svid m)) (p_dsu st) st = Some st1" "stages kd m s st1 profit s1 s2 t"
proof -
  obtain st1 s1 s2 profit lg where d: "ofold (dsu_step (c_sha c) (mg_svid m)) (p_dsu st) st = Some st1"
    "pm_store m (n_users (s_nodes (srvs s) ! unat (mg_svid m))) profit st1 = Some s1" "pm_queue kd st1 s1 = Some s2"
    "t = s2\<lparr>dsk := put_msglog (s_now (srvs s2)) (mg_svid m) (mg_msid m) lg (dsk s2)\<rparr>"
    using c unfolding pm_commit_def Let_def by (auto simp: bind_eq_Some_conv)
  have "\<forall>k \<in> fst ` set (p_dsu st). k < p_users st" using i by (simp add: pm_inv_def Let_def pays_ok_def)
  from dsu_loop_inv [OF i e this _ d(1)] l have i1: "pm_inv (mg_svid m) s 0 st1" by (simp add: ledger_def)
  show ?thesis by (rule that [OF d(1)]) (use i1 pm_store_stored [OF i1 d(2)] d(3,4) in \<open>auto simp: stages_def\<close>)
qed

lemma process_message_stages:
  assumes "ledger_ok s" and "msg_fits s m" and "process_message c kd tm m s = Some (True, t)"
  obtains d n o1 cs tp st st1 profit s1 s2 where "mg_data m = Some d" "node_at (srvs s) (mg_svid m) = Some n"
    "node_at (last_srvs s) (mg_svid m) = Some o1"
    "pm_loop c tm m (n_msid o1) cs tp d data_offset (pm0 s (n_users n)) = Some (True, st)"
    "ofold (dsu_step (c_sha c) (mg_svid m)) (p_dsu st) st = Some st1" "stages kd m s st1 profit s1 s2 t"
proof -
  let ?n = "s_nodes (srvs s) ! unat (mg_svid m)"
  obtain d n o1 cs tp st where p: "mg_data m = Some d" "node_at (srvs s) (mg_svid m) = Some n"
    "node_at (last_srvs s) (mg_svid m) = Some o1"
    "pm_loop c tm m (n_msid o1) cs tp d data_offset (pm0 s (n_users n)) = Some (True, st)"
    "pm_commit c kd tm m (n_users n) st = Some t"
    using assms(3) unfolding process_message_def Let_def by (auto simp: bind_eq_Some_conv split: if_split_asm)
  have sv: "unat (mg_svid m) < length (s_nodes (srvs s))" and n: "n = ?n" using p(2) by (auto simp: node_at_def split: if_splits)
  note q = p(1,4,5) [unfolded n]
  from pm0_inv [OF assms(1,2) sv]
  have i: "pm_inv (mg_svid m) s (unat (mg_len m) + 4 - data_offset) (pm0 s (n_users ?n))" .
  have ps: "period_start s \<le> s_now (srvs s)" using assms(1) by (simp add: ledger_def)
  have "settled (period_start s) (pm0 s (n_users ?n))" by (simp add: settled_def pm0_def)
  with pm_loop_settled [OF i ps ps _ _ tx_start q(2)] assms(2) p(1)
  have "settled (period_start s) st" by (simp add: msg_fits_def Let_def)
  from pm_commit_stages [OF assms(1) pm_loop_inv [OF i ps q(2)] this q(3)] that [OF p(1-4)] show ?thesis by metis
qed

text \<open>
  C1: a message that \<open>process_message\<close> accepts keeps the ledger. If in every node the total weight
  and the checksum are those of its accounts, accounts are in order and deposits are owed to accounts
  that exist, all of this holds after the message: for all transaction types, payments to many
  accounts, new accounts, deposits, dividends and fees, in whatever order the message has them.
  The assumptions are that the message comes from a node other than 0, that the 32-bit counters of
  the node do not wrap within the length of the message and that the accounts it opens are dated in
  the dividend period.
\<close>

theorem process_message_keeps_ledger:
  assumes "block_ok s" and "msg_fits s m" and "process_message c kd tm m s = Some (True, t)"
  shows "block_ok t"
proof -
  obtain st profit s1 s2 where "stages kd m s st profit s1 s2 t"
    using process_message_stages [OF _ assms(2,3)] assms(1) by metis
  then obtain lg where g: "pm_inv (mg_svid m) s 0 st" "stored m profit s st s1" "pm_queue kd st s1 = Some s2"
    "t = s2\<lparr>dsk := put_msglog (s_now (srvs s2)) (mg_svid m) (mg_msid m) lg (dsk s2)\<rparr>"
    unfolding stages_def by blast
  have "block_ok s2" by (rule pm_queue_ok [OF stored_ledger [OF assms(1) g(1,2)] g(3)])
  then show ?thesis by (simp add: g(4) put_msglog_def)
qed

text \<open>A node with two accounts that sends a message with one transaction.\<close>

definition demo_rich :: user_t where
  "demo_rich = demo_user\<lparr>u_weight := 0x10000000000000\<rparr>"

definition demo_bank :: server where
  "demo_bank = demo_server\<lparr>srvs := demo_servers\<lparr>s_nodes := [node0, demo_node\<lparr>n_users := 2, n_weight := 0x20000000000000\<rparr>]\<rparr>,
     dsk := disk0\<lparr>d_usr := (\<lambda>_. [demo_rich, demo_rich])\<rparr>\<rparr>"

definition demo_tx :: bytes where
  "demo_tx = [TXSTYPE_PUT, 1, 0, 1, 0, 0, 0, 1, 0, 0, 0, 0, 2, 16, 0, 1, 0, 0, 0, 0, 0, 0xe8, 3, 0, 0, 0, 0, 0, 0]
     @ replicate 32 0 @ replicate 64 9"

definition demo_message :: message where
  "demo_message = \<lparr>mg_sigh = zero32, mg_len = 203, mg_msid = 1, mg_now = 1049088, mg_got = 0, mg_path = 0, mg_svid = 1,
     mg_peer = 1, mg_data = Some (replicate 78 0 @ demo_tx @ replicate 40 0 @ [1, 0, 0, 0]), mg_hash = replicate 8 0,
     mg_status = 0, mg_know = [], mg_busy = [], mg_sent = []\<rparr>"

definition demo_crypto :: crypto where
  "demo_crypto = \<lparr>c_sha = (\<lambda>_. replicate 32 1), c_sign = (\<lambda>_ _ _. replicate 64 2), c_sign2 = (\<lambda>_ _ _ _. replicate 64 2),
     c_open = (\<lambda>_ _ _. True), c_open2 = (\<lambda>_ _ _ _. True), c_batch = (\<lambda>_. True), c_batch2 = (\<lambda>_. True)\<rparr>"

definition demo_keys :: keydir where
  "demo_keys = \<lparr>kd_keys = None, kd_more = (\<lambda>_. None), kd_pub = (\<lambda>k. k)\<rparr>"

lemma demo_bank_ledger: "block_ok demo_bank"
proof -
  have two: "(\<forall>i < 2. P i) \<longleftrightarrow> P 0 \<and> P 1" for P :: "nat \<Rightarrow> bool" by (auto simp: numeral_2_eq_2 less_Suc_eq)
  have tot: "acc_total g z h 2 v = acc_total g z h (Suc (Suc 0)) v" for g and z :: 'z and h v by (simp add: numeral_2_eq_2)
  have "bank_inv 1048576 (demo_node\<lparr>n_users := 2, n_weight := 0x20000000000000\<rparr>) [demo_rich, demo_rich]"
    by (simp add: bank_inv_def demo_node_def demo_rich_def demo_user_def acc_ok_def zero_user_def node0_def two tot xor4_def)
  moreover have "i = 1" if "0 < i" "i < 2" for i :: nat using that by simp
  ultimately show ?thesis
    by (auto simp: ledger_def demo_bank_def demo_server_def demo_servers_def deposits_ok_def node0_def demo_node_def)
qed

lemma one_tx:
  assumes "tx_pos d len p" and "parse (usertxs0 0) (drop data_offset d) = Some (True, t)" and "len \<le> data_offset + nat (txsize t)"
  shows "p = data_offset \<or> len \<le> p"
  using assms by induction auto

lemma one_tx_recent:
  assumes "parse (usertxs0 0) (drop data_offset d) = Some (True, x)" and "len \<le> data_offset + nat (txsize x)"
    and "ttype x \<noteq> TXSTYPE_USR" and "ttype x \<noteq> TXSTYPE_UOK"
  shows "new_recent ps d len"
  unfolding new_recent_def
proof (intro allI impI)
  fix p t
  assume t: "tx_pos d len p \<and> p < len \<and> parse (usertxs0 0) (drop p d) = Some (True, t) \<and> (ttype t = TXSTYPE_USR \<or> ttype t = TXSTYPE_UOK)"
  then have "p = data_offset" using one_tx [OF _ assms(1,2)] by (simp only: not_less [symmetric]) blast
  then show "ps \<le> ttime t" using t assms by simp
qed

lemma demo_tx_parse:
  obtains x where "parse (usertxs0 0) (drop data_offset (the (mg_data demo_message))) = Some (True, x)" "txsize x = 125"
    "ttype x = TXSTYPE_PUT" "tmass x = 1000"
proof -
  have "map_option (map_prod id (\<lambda>t. (txsize t, ttype t, tmass t))) (parse (usertxs0 0) (drop data_offset (the (mg_data demo_message)))) =
    Some (True, 125, TXSTYPE_PUT, 1000)" by code_simp
  then show ?thesis using that by auto
qed

lemma demo_fits: "msg_fits demo_bank demo_message"
proof -
  obtain x where x: "parse (usertxs0 0) (drop data_offset (the (mg_data demo_message))) = Some (True, x)" "txsize x = 125"
    "ttype x = TXSTYPE_PUT" "tmass x = 1000" by (rule demo_tx_parse)
  have "new_recent 1048576 (the (mg_data demo_message)) 203" by (intro one_tx_recent [OF x(1)]) (simp_all add: x)
  then show ?thesis
    by (auto simp: msg_fits_def Let_def demo_message_def demo_bank_def demo_servers_def demo_server_def demo_node_def demo_rich_def demo_user_def
      nth_Cons' node0_def)
qed

theorem process_message_keeps_ledger_witness:
  "\<exists>t. process_message demo_crypto demo_keys 7 demo_message demo_bank = Some (True, t) \<and> block_ok t"
proof -
  have "map_option fst (process_message demo_crypto demo_keys 7 demo_message demo_bank) = Some True" by code_simp
  then obtain t where t: "process_message demo_crypto demo_keys 7 demo_message demo_bank = Some (True, t)" by auto
  from process_message_keeps_ledger [OF demo_bank_ledger demo_fits t] t show ?thesis by blast
qed

end
