(* ===== verification/Message_Undo.thy ===== *)
theory Message_Undo
  imports Message_Ledger
begin

text \<open>
  Undoing a message.  The accounts and totals come back because the undo file of the message has the
  accounts of the start and the differences of the totals; the deposits and the queues come back
  because \<open>un_loop\<close> runs over the same transactions as \<open>pm_loop\<close> and takes back what each of them did.
\<close>

section \<open>The books\<close>

text \<open>
  What the network agrees on at the end of a block: for every node the number of accounts, their
  total, their checksum and the accounts themselves, and the fees the nodes have earned.
\<close>

definition book :: "server \<Rightarrow> nat \<Rightarrow> u32 \<times> i64 \<times> csum4 \<times> user_t list" where
  "book s j = (let n = s_nodes (srvs s) ! j in
     (n_users n, n_weight n, n_hash n, take (unat (n_users n)) (d_usr (dsk s) (of_nat j))))"

definition books :: "server \<Rightarrow> (u32 \<times> i64 \<times> csum4 \<times> user_t list) list \<times> i64 list" where
  "books s = (map (book s) [0..<length (s_nodes (srvs s))], bank_fee s)"

text \<open>Between two states nothing but keys and queues has changed.\<close>

abbreviation no_pk :: "node \<Rightarrow> node" where
  "no_pk n \<equiv> n\<lparr>n_pk := []\<rparr>"

definition pk_only :: "server \<Rightarrow> server \<Rightarrow> bool" where
  "pk_only s t \<longleftrightarrow> dsk t = dsk s \<and> bank_fee t = bank_fee s \<and> last_srvs t = last_srvs s \<and> my_svid t = my_svid s \<and>
     s_now (srvs t) = s_now (srvs s) \<and> map no_pk (s_nodes (srvs t)) = map no_pk (s_nodes (srvs s))"

lemma pk_only_refl [simp]: "pk_only s s"
  by (simp add: pk_only_def)

lemma pk_only_trans: "pk_only s t \<Longrightarrow> pk_only t u \<Longrightarrow> pk_only s u"
  by (simp add: pk_only_def)

lemma pk_only_node:
  assumes "pk_only s t"
  shows "length (s_nodes (srvs t)) = length (s_nodes (srvs s))"
    and "j < length (s_nodes (srvs s)) \<Longrightarrow> no_pk (s_nodes (srvs t) ! j) = no_pk (s_nodes (srvs s) ! j)"
proof -
  have m: "map no_pk (s_nodes (srvs t)) = map no_pk (s_nodes (srvs s))" using assms by (simp add: pk_only_def)
  from arg_cong [OF m, of length] show l: "length (s_nodes (srvs t)) = length (s_nodes (srvs s))" by simp
  show "j < length (s_nodes (srvs s)) \<Longrightarrow> no_pk (s_nodes (srvs t) ! j) = no_pk (s_nodes (srvs s) ! j)"
    using arg_cong [OF m, of "\<lambda>l. l ! j"] l by simp
qed

lemma pk_only_fields:
  assumes "pk_only s t" and "j < length (s_nodes (srvs s))"
  shows "n_users (s_nodes (srvs t) ! j) = n_users (s_nodes (srvs s) ! j)" "n_weight (s_nodes (srvs t) ! j) = n_weight (s_nodes (srvs s) ! j)"
    "n_hash (s_nodes (srvs t) ! j) = n_hash (s_nodes (srvs s) ! j)"
  using arg_cong [OF pk_only_node(2) [OF assms], of n_users] arg_cong [OF pk_only_node(2) [OF assms], of n_weight]
    arg_cong [OF pk_only_node(2) [OF assms], of n_hash] by simp_all

lemma pk_only_own:
  assumes "own_key kd k s = Some t"
  shows "pk_only s t"
  using own_key_fields [OF assms] by (auto simp: pk_only_def)

lemma pk_only_set:
  assumes "node_at (srvs s) i = Some n"
  shows "pk_only s (s\<lparr>srvs := set_node i (n\<lparr>n_pk := k\<rparr>) (srvs s)\<rparr>)"
proof -
  have n: "unat i < length (s_nodes (srvs s))" "n = s_nodes (srvs s) ! unat i" using assms by (auto simp: node_at_def split: if_splits)
  have "map no_pk ((s_nodes (srvs s))[unat i := n\<lparr>n_pk := k\<rparr>]) = map no_pk (s_nodes (srvs s))"
    by (rule nth_equalityI) (auto simp: nth_list_update n)
  then show ?thesis by (simp add: pk_only_def set_node_def)
qed

lemma pk_only_bky:
  assumes "pm_bky_step kd e s = Some t"
  shows "pk_only s t"
proof -
  obtain ppb k where e: "e = (ppb, k)" by force
  obtain o1 n where n: "node_at (last_srvs s) (ppi_bbank ppb) = Some o1" "node_at (srvs s) (ppi_bbank ppb) = Some n"
    using assms by (auto simp: e pm_bky_step_def Let_def bind_eq_Some_conv split: if_splits)
  define s1 where "s1 = (if n_status o1 AND SERVER_DBL \<noteq> 0 then s\<lparr>blk_bky := m_upd ppb (ppi_bbank ppb) (blk_bky s)\<rparr> else s)"
  have s1: "pk_only s s1" "node_at (srvs s1) (ppi_bbank ppb) = Some n" using n by (simp_all add: s1_def pk_only_def)
  let ?s2 = "s1\<lparr>srvs := set_node (ppi_bbank ppb) (n\<lparr>n_pk := k\<rparr>) (srvs s1)\<rparr>"
  have "(if ppi_bbank ppb = my_svid ?s2 then own_key kd k ?s2 else Some ?s2) = Some t"
    using assms unfolding e pm_bky_step_def Let_def prod.case n(1) bind.bind_lunit s1_def [symmetric] s1(2) .
  then have "pk_only ?s2 t" by (auto split: if_splits dest: pk_only_own)
  with pk_only_set [OF s1(2)] s1(1) show ?thesis by (blast intro: pk_only_trans)
qed

lemma pk_only_bkys: "ofold (pm_bky_step kd) l s = Some t \<Longrightarrow> pk_only s t"
proof (induction l arbitrary: s)
  case (Cons e l)
  then obtain s1 where "pm_bky_step kd e s = Some s1" "ofold (pm_bky_step kd) l s1 = Some t" by (auto simp: bind_eq_Some_conv)
  with Cons.IH pk_only_bky show ?case by (blast intro: pk_only_trans)
qed simp

lemma deposit_adds_fields:
  "\<exists>d. fold (\<lambda>(k, x). deposit_add k (f x)) l s = s\<lparr>deposit := d\<rparr>"
proof (induction l arbitrary: s)
  case (Cons a l)
  obtain k x where a: "a = (k, x)" by force
  from Cons [of "deposit_add k (f x) s"] show ?case by (auto simp: a deposit_add_def)
next
  case Nil
  show ?case by (rule exI [of _ "deposit s"]) simp
qed

lemma pk_only_deposits: "pk_only s (fold (\<lambda>(k, x). deposit_add k (f x)) l s)"
  using deposit_adds_fields [of f l s] by (auto simp: pk_only_def)

lemma pk_only_queue:
  assumes "pm_queue kd st s = Some t"
  shows "pk_only s t"
proof -
  let ?s = "fold (\<lambda>(k, x). deposit_add k x) (p_deposit st) s"
  obtain s1 where s1: "ofold (pm_bky_step kd) (p_bky st) ?s = Some s1"
    using assms by (auto simp: pm_queue_def Let_def bind_eq_Some_conv)
  have "pk_only s1 t" using assms s1 by (auto simp: pm_queue_def Let_def pk_only_def)
  with pk_only_bkys [OF s1] pk_only_deposits [of s "\<lambda>x. x" "p_deposit st"] show ?thesis by (auto intro: pk_only_trans)
qed

lemma pk_only_queues [simp]:
  "pk_only s (s\<lparr>blk_bnk := q1\<rparr>)" "pk_only s (s\<lparr>blk_get := q2\<rparr>)" "pk_only s (s\<lparr>blk_usr := q3\<rparr>)"
  "pk_only s (s\<lparr>blk_uok := q4\<rparr>)" "pk_only s (s\<lparr>blk_sbs := q5\<rparr>)" "pk_only s (s\<lparr>blk_ubs := q6\<rparr>)" "pk_only s (s\<lparr>blk_bky := q7\<rparr>)"
  by (simp_all add: pk_only_def)

section \<open>The loop of undo\<close>

lemma un_key_pk:
  assumes "un_key kd node t buf v = Some v'"
  shows "pk_only (v_srv v) (v_srv v') \<and> v_deposit v' = v_deposit v \<and> v_tmpos v' = v_tmpos v"
proof (cases "map_of (v_bky v) node")
  case None
  let ?s = "\<lambda>n k. (v_srv v)\<lparr>srvs := set_node node (n\<lparr>n_pk := k\<rparr>) (srvs (v_srv v))\<rparr>"
  have own: "(if c then do { s \<leftarrow> own_key kd k s; if has_office s then Some (event (Ofip_change_pkey k) s) else None } else Some s) = Some s1 \<Longrightarrow>
    pk_only s s1" for c k s s1
    using pk_only_own by (fastforce simp: bind_eq_Some_conv event_def pk_only_def split: if_splits)
  obtain k n s1 where k: "node_at (srvs (v_srv v)) node = Some n" "v' = v\<lparr>v_srv := s1, v_bky := set_add node (v_bky v)\<rparr>"
    "(if node = my_svid (?s n k) \<and> bbank t \<noteq> 0
      then do { s \<leftarrow> own_key kd k (?s n k); if has_office s then Some (event (Ofip_change_pkey k) s) else None } else Some (?s n k)) = Some s1"
    using assms None unfolding un_key_def Let_def by (auto simp only: bind_eq_Some_conv if_False simp_thms option.inject)
  from own [OF k(3)] pk_only_set [OF k(1)] show ?thesis by (auto simp: k(2) intro: pk_only_trans)
qed (use assms in \<open>simp add: un_key_def\<close>)

lemma ofold_un_mpt: "ofold (un_mpt_step t buf) l v = Some v' \<Longrightarrow> v_srv v' = v_srv v"
proof (induction l arbitrary: v)
  case (Cons i l)
  then obtain v1 where "un_mpt_step t buf i v = Some v1" "ofold (un_mpt_step t buf) l v1 = Some v'" by (auto simp: bind_eq_Some_conv)
  then show ?case using Cons.IH by (fastforce simp: un_mpt_step_def un_pay_def Let_def bind_eq_Some_conv)
qed simp

lemma un_effect_pk:
  assumes "un_effect kd m omsid t buf v = Some v'"
  shows "pk_only (v_srv v) (v_srv v')"
proof -
  have bky: "pk_only (v_srv v) (v_srv v')" if b: "un_bky kd m omsid t buf v = Some v'"
  proof -
    obtain node where n: "bky_node (mg_svid m) (bbank t) (v_srv v) = Some node"
      using b by (auto simp: un_bky_def bind_eq_Some_conv)
    show ?thesis
    proof (cases "node = 0")
      case False
      then obtain v1 where v1: "un_key kd node t buf v = Some v1" "v' = v1\<lparr>v_srv := (v_srv v1)\<lparr>blk_bky := m_del (um_ppi m omsid node v1) (blk_bky (v_srv v1))\<rparr>\<rparr>"
        using b n by (auto simp: un_bky_def bind_eq_Some_conv Let_def)
      then show ?thesis using pk_only_trans [OF un_key_pk [OF v1(1), THEN conjunct1] pk_only_queues(7)] by simp
    qed (use b n in \<open>simp add: un_bky_def\<close>)
  qed
  show ?thesis
  proof (cases "ttype t = TXSTYPE_PUT \<or> ttype t = TXSTYPE_MPT \<or> ttype t = TXSTYPE_BKY")
    case True
    then show ?thesis using assms bky ofold_un_mpt [of t buf "[0..<unat (bbank t)]" v v'] by (auto simp: un_effect_def un_pay_def)
  next
    case False
    then show ?thesis using assms unfolding un_effect_def Let_def by (auto split: if_split_asm)
  qed
qed

lemma un_loop_pk: "un_loop kd m omsid d p v = Some v' \<Longrightarrow> pk_only (v_srv v) (v_srv v')"
proof (induction kd m omsid d p v rule: un_loop.induct)
  case (1 kd m omsid d p v)
  show ?case
  proof (cases "unat (mg_len m) \<le> p")
    case True
    then show ?thesis using "1.prems" by (simp add: un_loop.simps [of kd m omsid d p])
  next
    case False
    then obtain sz v1 where v1: "un_tx kd m omsid (drop p d) v = Some (sz, v1)" "un_loop kd m omsid d (p + sz) v1 = Some v'"
      using "1.prems" by (auto simp: un_loop.simps [of kd m omsid d p] bind_eq_Some_conv)
    have "pk_only (v_srv v) (v_srv v1)"
      using v1(1) un_effect_pk by (fastforce simp: un_tx_def Let_def bind_eq_Some_conv split: if_splits)
    with "1.IH" [OF False v1(1) refl v1(2)] show ?thesis by (rule pk_only_trans [rotated])
  qed
qed

section \<open>Transactions and their undo in step\<close>

text \<open>What a message does to the deposits and the queues of the block.\<close>

definition pq where
  "pq st = (p_deposit st, p_tmpos st, p_bnk st, p_get st, p_usr st, p_uok st, p_sbs st, p_ubs st)"

definition cleared :: "('k \<Rightarrow> bool) \<Rightarrow> ('k, 'a) amap \<Rightarrow> ('k, 'b) amap \<Rightarrow> bool" where
  "cleared P p b \<longleftrightarrow> (\<forall>k. map_of p k \<noteq> None \<longrightarrow> P k \<and> map_of b k = None)"

lemma map_of_m_del: "map_of (m_del k m) j = (if j = k then None else map_of m j)"
  by (induction m) (auto simp: m_del_def)

lemma cleared_simps [simp]:
  "cleared P p b \<Longrightarrow> P k \<Longrightarrow> cleared P (m_upd k x p) (m_del k b)" "cleared P p b \<Longrightarrow> cleared P p (m_del k b)" "cleared P [] b"
  by (auto simp: cleared_def map_of_m_del map_of_m_upd)

text \<open>\<open>v\<close> has undone the transactions that led to \<open>st\<close>.\<close>

definition in_step :: "(u64 \<Rightarrow> bool) \<Rightarrow> pm \<Rightarrow> um \<Rightarrow> bool" where
  "in_step P st v \<longleftrightarrow> (let s = v_srv v in p_deposit st = v_deposit v \<and> p_tmpos st = v_tmpos v \<and>
     cleared P (p_bnk st) (blk_bnk s) \<and> cleared P (p_get st) (blk_get s) \<and> cleared P (p_usr st) (blk_usr s) \<and>
     cleared P (p_uok st) (blk_uok s) \<and> cleared P (p_sbs st) (blk_sbs s) \<and> cleared P (p_ubs st) (blk_ubs s))"

lemma in_step_pq: "pq st' = pq st \<Longrightarrow> in_step P st' v = in_step P st v"
  by (simp add: in_step_def pq_def)

lemma pq_load: "load_account sv uid st = (u, st') \<Longrightarrow> pq st' = pq st"
  by (auto simp: load_account_def Let_def pq_def split: option.splits)

lemma pq_sign: "tx_sign cs tp rest buf t u st = Some st' \<Longrightarrow> pq st' = pq st"
  by (auto simp: tx_sign_def Let_def pq_def bind_eq_Some_conv split: if_splits)

lemma pq_dsu [simp]: "pq (set_dsu k d st) = pq st"
  by (simp add: set_dsu_def pq_def)

lemma pq_log [simp]: "pq (pm_log k l st) = pq st"
  by (simp add: pm_log_def pq_def)

lemma pq_mpt_logs [simp]: "pq (mpt_logs tm m t x st) = pq st"
proof -
  have "pq (fold (\<lambda>(i, user, mass) st. pm_log user (in_log tm m t (p_tmpos st) mass (take 31 (in_info x) @ [if i = 0 then 1 else 0])) st) l st) = pq st" for l
    by (induction l arbitrary: st) auto
  then show ?thesis by (simp add: mpt_logs_def)
qed

lemma pq_logs [simp]: "pq (tx_logs tm m t x st) = pq st"
  by (simp add: tx_logs_def Let_def)

lemma pq_sender [simp]: "pq (tx_sender sha sig t x st) = pq st"
  by (simp add: tx_sender_def Let_def pq_def set_dsu_def)

lemma pq_div [simp]: "pq (x_st (tx_div x)) = pq (x_st x)"
  by (simp add: tx_div_def Let_def pq_def split: prod.split)

lemma pq_target: "new_target sv nuser st = (ok, u, st') \<Longrightarrow> pq st' = pq st"
proof -
  have "pq (snd (load_account sv nuser st)) = pq st" using pq_load [of sv nuser st] by (metis prod.collapse)
  then show "new_target sv nuser st = (ok, u, st') \<Longrightarrow> pq st' = pq st"
    by (auto simp: new_target_def Let_def pq_def split: if_splits prod.splits)
qed

lemma pq_new_usr:
  assumes "new_account sha m omsid buf t st = Some (True, st')" and "ttype t = TXSTYPE_USR"
  shows "pq st' = pq st"
  using assms pq_target [of "mg_svid m"] by (auto simp: new_account_def Let_def bind_eq_Some_conv pq_def split: if_splits prod.splits)

text \<open>The keys of the queue entries of a message.\<close>

definition msg_key :: "message \<Rightarrow> u32 \<Rightarrow> u64 \<Rightarrow> bool" where
  "msg_key m omsid k \<longleftrightarrow> (\<exists>tp bb. k = make_ppi tp omsid (mg_msid m) (mg_svid m) bb)"

lemma msg_key_simps [simp]: "msg_key m omsid (make_ppi tp omsid (mg_msid m) (mg_svid m) bb)"
  by (auto simp: msg_key_def)

lemma in_step_uok:
  assumes "new_account sha m omsid buf t st = Some (True, st')" and "ttype t \<noteq> TXSTYPE_USR" and "in_step (msg_key m omsid) st v"
    and "mg_svid ml = mg_svid m" "mg_msid ml = mg_msid m"
  shows "in_step (msg_key m omsid) st' (v\<lparr>v_srv := (v_srv v)\<lparr>blk_uok := m_del (um_ppi ml omsid (mg_svid m) v) (blk_uok (v_srv v))\<rparr>\<rparr>)"
proof -
  obtain st1 x where "pq st1 = pq st" "pq st' = pq (st1\<lparr>p_uok := m_upd (pm_ppi m omsid (mg_svid m) st1) x (p_uok st1)\<rparr>)"
    using assms(1,2) pq_target [of "mg_svid m"]
    by (fastforce simp: new_account_def Let_def bind_eq_Some_conv pq_def pm_ppi_def split: if_splits prod.splits)
  then have e: "in_step (msg_key m omsid) st' w = in_step (msg_key m omsid) (st\<lparr>p_uok := m_upd (pm_ppi m omsid (mg_svid m) st) x (p_uok st)\<rparr>) w" for w
    by (intro in_step_pq) (simp add: pq_def pm_ppi_def)
  show ?thesis unfolding e using assms(3-5) by (simp add: in_step_def Let_def pm_ppi_def um_ppi_def)
qed


text \<open>The targets of \<open>MPT\<close>.\<close>

lemma pay_in_step:
  assumes "in_step P st v"
  shows "in_step P (pay_to ab bb bu x st) (un_pay ab bb bu x v)"
  using assms by (auto simp: pay_to_def un_pay_def in_step_def Let_def set_dsu_def)

lemma mpt_step_in_step:
  assumes "mpt_step t buf i (out, ok, x) = Some (out', True, x')" and "in_step P (x_st x) v"
  shows "ok \<and> (\<exists>v'. un_mpt_step t buf i v = Some v' \<and> in_step P (x_st x') v')"
proof -
  have ok: "ok" using assms(1) by (auto simp: mpt_step_def split: if_splits)
  obtain tb :: u16 and tu :: u32 and mass :: i64 where r: "rdw (toaddresses_off + i * (6+8)) 2 buf = Some tb"
    "rdw (toaddresses_off + i * (6+8) + 2) 4 buf = Some tu" "rdw (toaddresses_off + i * (6+8) + 6) 8 buf = Some mass"
    using assms(1) ok by (auto simp: mpt_step_def Let_def bind_eq_Some_conv)
  have e: "pq (x_st x') = pq (pay_to (abank t) tb tu mass (x_st x))"
    using assms(1) ok unfolding mpt_step_def Let_def r bind.bind_lunit prod.case
    by (auto simp: pq_def split: if_split_asm)
  have "un_mpt_step t buf i v = Some (un_pay (abank t) tb tu mass v)"
    unfolding un_mpt_step_def Let_def r bind.bind_lunit ..
  then show ?thesis using ok in_step_pq [OF e] pay_in_step [OF assms(2)] by simp
qed

lemma mpt_loop_in_step:
  assumes "ofold (mpt_step t buf) l (out, ok, x) = Some (out', True, x')" and "in_step P (x_st x) v"
  shows "ok \<and> (\<exists>v'. ofold (un_mpt_step t buf) l v = Some v' \<and> in_step P (x_st x') v')"
  using assms
proof (induction l arbitrary: out ok x v)
  case (Cons i l)
  obtain out1 ok1 x1 where 1: "mpt_step t buf i (out, ok, x) = Some (out1, ok1, x1)" "ofold (mpt_step t buf) l (out1, ok1, x1) = Some (out', True, x')"
    using Cons.prems(1) by (auto simp: bind_eq_Some_conv)
  have ok1: "ok1"
  proof (rule ccontr)
    assume "\<not> ok1"
    then have "ofold (mpt_step t buf) l (out1, ok1, x1) = Some (out1, False, x1)" for l
      by (induction l) (simp_all add: mpt_step_def)
    with 1(2) show False by simp
  qed
  from mpt_step_in_step [OF 1(1) [unfolded eqTrueI [OF ok1]] Cons.prems(2)] obtain v1 where
    v1: "ok" "un_mpt_step t buf i v = Some v1" "in_step P (x_st x1) v1" by blast
  from Cons.IH [OF 1(2) v1(3)] v1(1,2) show ?case by auto
qed simp

lemma pq_upd [simp]:
  "pq (st\<lparr>p_myput_fee := a\<rparr>) = pq st" "pq (st\<lparr>p_mpt := b\<rparr>) = pq st" "pq (st\<lparr>p_srv := c\<rparr>) = pq st"
  by (simp_all add: pq_def)

lemma pq_put:
  assumes "tx_put t u st = (True, x)" and "\<not> slt64 (tmass t) 0"
  shows "pq (x_st x) = pq (pay_to (abank t) (bbank t) (buser t) (tmass t) st)"
proof -
  have "x_st x = (let st = pay_to (abank t) (bbank t) (buser t) (tmass t) st in
    if abank t \<noteq> bbank t \<and> bbank t = my_svid (p_srv st) then st\<lparr>p_myput_fee := p_myput_fee st + TXS_LNG_FEE (tmass t)\<rparr> else st)"
    using assms unfolding tx_put_def Let_def if_not_P [OF assms(2)] by (auto simp only: prod.inject txe.simps txe0_def simp_thms if_True if_False split: if_split_asm)
  then show ?thesis by (simp add: Let_def)
qed

lemma tx_bits_st:
  assumes "tx_bits on m omsid t u st = Some (ok, x)"
  shows "x_st x = st \<or> x_st x = (if on then st\<lparr>p_sbs := m_upd (pm_ppi m omsid (bbank t) st) (ucast (tmass t)) (p_sbs st)\<rparr>
    else st\<lparr>p_ubs := m_upd (pm_ppi m omsid (bbank t) st) (ucast (tmass t)) (p_ubs st)\<rparr>)"
  using assms unfolding tx_bits_def Let_def txe0_def bind_eq_Some_conv
  by (auto simp only: option.inject prod.inject txe.simps bind_eq_Some_conv split: if_split_asm)

lemma pq_ustat: "tx_ustat on t u st = (ok, x) \<Longrightarrow> pq (x_st x) = pq st"
  unfolding tx_ustat_def Let_def by (auto simp: txe0_def split: if_split_asm)

lemma pq_bro: "tx_bro m t buf u st = Some (ok, x) \<Longrightarrow> pq (x_st x) = pq st"
  unfolding tx_bro_def Let_def by (auto simp: txe0_def bind_eq_Some_conv split: if_split_asm)

lemma pq_sav: "tx_sav m t buf u st = Some (ok, x) \<Longrightarrow> pq (x_st x) = pq st"
  unfolding tx_sav_def Let_def by (auto simp: txe0_def bind_eq_Some_conv split: if_split_asm prod.splits)

lemma tx_effect_in_step:
  assumes e: "tx_effect m omsid buf t u st = Some (True, x)" and v: "in_step (msg_key m omsid) st v" and b: "ttype t \<noteq> TXSTYPE_BKY" "ttype t \<noteq> TXSTYPE_UOK"
    and p: "ttype t = TXSTYPE_PUT \<Longrightarrow> \<not> slt64 (tmass t) 0" and ml: "mg_svid ml = mg_svid m" "mg_msid ml = mg_msid m"
  shows "\<exists>v'. un_effect kd ml omsid t buf v = Some v' \<and> in_step (msg_key m omsid) (x_st x) v'"
proof (cases "locked t (s_now (srvs (p_srv st))) u")
  case True
  then have "unlocks t" "x = txe0 t u st" using e by (simp_all add: tx_effect_def Let_def)
  then show ?thesis using v by (auto simp: un_effect_def unlocks_def un_pay_def txe0_def)
next
  case False
  note e = e [unfolded tx_effect_def Let_def if_not_P [OF False]]
  consider (put) "ttype t = TXSTYPE_PUT" | (mpt) "ttype t = TXSTYPE_MPT" | (bnk) "ttype t = TXSTYPE_BNK" | (get) "ttype t = TXSTYPE_GET"
    | (usr) "ttype t = TXSTYPE_USR" | (sbs) "ttype t = TXSTYPE_SBS" | (ubs) "ttype t = TXSTYPE_UBS"
    | (other) "ttype t \<notin> set parsed_types"
    using b by (auto simp: parsed_types_def)
  then show ?thesis
  proof cases
    case put
    have "tx_put t u st = (True, x)" using e by (simp add: put)
    from in_step_pq [OF pq_put [OF this p [OF put]]] show ?thesis using pay_in_step [OF v] by (simp add: un_effect_def put)
  next
    case mpt
    then obtain out x1 where "ofold (mpt_step t buf) [0..<unat (bbank t)] ([], True, (txe0 t u (st\<lparr>p_mpt := []\<rparr>))\<lparr>x_tmass := 0\<rparr>) = Some (out, True, x1)"
      "x_st x = x_st x1" using e by (auto simp: tx_mpt_def Let_def bind_eq_Some_conv)
    moreover have "in_step (msg_key m omsid) (x_st ((txe0 t u (st\<lparr>p_mpt := []\<rparr>))\<lparr>x_tmass := 0\<rparr>)) v" using v by (simp add: txe0_def in_step_def Let_def)
    ultimately show ?thesis using mpt_loop_in_step [of t buf _ "[]" True] by (fastforce simp: un_effect_def mpt)
  next
    case bnk
    then show ?thesis using e v ml by (auto simp: un_effect_def in_step_def Let_def pm_ppi_def um_ppi_def)
  next
    case get
    then show ?thesis using e v ml by (auto simp: un_effect_def in_step_def Let_def pm_ppi_def um_ppi_def tx_get_def split: if_splits)
  next
    case usr
    then have "pq (x_st x) = pq st \<or> (\<exists>y. pq (x_st x) = pq (st\<lparr>p_usr := m_upd (pm_ppi m omsid (mg_svid m) st) y (p_usr st)\<rparr>))"
      using e by (auto simp: tx_usr_def Let_def bind_eq_Some_conv pq_def txe0_def split: if_splits)
    then show ?thesis using v ml by (auto simp: un_effect_def usr in_step_def Let_def pm_ppi_def um_ppi_def pq_def)
  next
    case sbs
    have "tx_bits True m omsid t u st = Some (True, x)" using e by (simp add: sbs)
    from tx_bits_st [OF this] show ?thesis using v ml by (auto simp: un_effect_def sbs in_step_def Let_def pm_ppi_def um_ppi_def)
  next
    case ubs
    have "tx_bits False m omsid t u st = Some (True, x)" using e by (simp add: ubs)
    from tx_bits_st [OF this] show ?thesis using v ml by (auto simp: un_effect_def ubs in_step_def Let_def pm_ppi_def um_ppi_def)
  next
    case other
    have "pq (x_st x) = pq st"
      using e other unfolding parsed_types_def
      by (simp only: list.set insert_iff empty_iff de_Morgan_disj simp_thms if_False split: if_split_asm)
        (auto simp: txe0_def bind_eq_Some_conv dest: pq_bro pq_ustat pq_sav)
    from in_step_pq [OF this] show ?thesis using other v by (auto simp: parsed_types_def un_effect_def)
  qed
qed

lemma tx_account_pq:
  assumes "tx_account c tm m omsid cs tp rest buf t st = Some (True, st')"
  obtains u st1 x where "pq st1 = pq st" "tx_effect m omsid buf t u st1 = Some (True, x)" "pq st' = pq (x_st x)"
proof -
  obtain u st1 where u: "load_account (mg_svid m) (auser t) st = (u, st1)" by force
  obtain st2 where s2: "tx_sign cs tp rest buf t u st1 = Some st2"
    using assms by (auto simp: tx_account_def u Let_def bind_eq_Some_conv split: if_splits)
  obtain ok x where x: "tx_effect m omsid buf t u st2 = Some (ok, x)"
    using assms by (auto simp: tx_account_def u Let_def s2 bind_eq_Some_conv split: if_splits)
  have ok: "ok" and "pq st' = pq (x_st x)"
    using assms by (auto simp: tx_account_def u Let_def s2 x bind_eq_Some_conv split: if_splits)
  then show ?thesis using that [of st2 u x] x pq_load [OF u] pq_sign [OF s2] by simp
qed

lemma un_tx_effect:
  assumes p: "parse (usertxs0 0) buf = Some (True, t)" and "ttype t < 16"
  shows "un_tx kd m omsid buf v = map_option (Pair (nat (txsize t))) (un_effect kd m omsid t buf (v\<lparr>v_tmpos := v_tmpos v + 1\<rparr>))"
proof -
  note z = parse_size [OF p]
  have u: "uint (ttype t) < 16" "0 \<le> uint (ttype t)" using assms(2) by (simp_all add: word_less_def)
  have "sint (ttype t) = uint (ttype t)" unfolding sint_uint by (rule signed_take_bit_int_eq_self; rule order_trans [OF _ u(2)] less_trans [OF u(1)], simp)
  with u have "sint (ttype t) < 16" by simp
  moreover have "unat (of_int (txsize t) :: u32) = nat (txsize t)" using z(2,3) by (simp add: unat_eq_nat_uint uint_word_of_int_eq take_bit_int_eq_self)
  moreover have "un_effect kd m omsid t buf w = Some w" if "ttype t \<notin> set parsed_types" for w
    using that by (auto simp: parsed_types_def un_effect_def)
  ultimately show ?thesis using z(1,5) p by (auto simp: un_tx_def Let_def schar_code map_option_case split: option.splits)
qed

definition shrinks :: "('k \<Rightarrow> bool) \<Rightarrow> ('k, 'a) amap \<Rightarrow> ('k, 'a) amap \<Rightarrow> bool" where
  "shrinks P b b' \<longleftrightarrow> (\<forall>k. map_of b' k = map_of b k \<or> P k \<and> map_of b' k = None)"

lemma shrinks_simps [simp]: "shrinks P b b" "P k \<Longrightarrow> shrinks P b (m_del k b)"
  by (auto simp: shrinks_def map_of_m_del)

lemma shrinks_trans: "shrinks P a b \<Longrightarrow> shrinks P b c \<Longrightarrow> shrinks P a c"
  unfolding shrinks_def by metis

definition outside :: "(u64 \<Rightarrow> bool) \<Rightarrow> server \<Rightarrow> server \<Rightarrow> bool" where
  "outside P s t \<longleftrightarrow> deposit t = deposit s \<and> shrinks P (blk_bnk s) (blk_bnk t) \<and> shrinks P (blk_get s) (blk_get t) \<and> shrinks P (blk_usr s) (blk_usr t) \<and>
     shrinks P (blk_uok s) (blk_uok t) \<and> shrinks P (blk_sbs s) (blk_sbs t) \<and> shrinks P (blk_ubs s) (blk_ubs t)"

lemma outside_refl [simp]: "outside P s s"
  by (simp add: outside_def)

lemma outside_trans: "outside P s t \<Longrightarrow> outside P t u \<Longrightarrow> outside P s u"
  by (auto simp: outside_def intro: shrinks_trans)

lemma un_effect_outside:
  assumes "un_effect kd m omsid t buf v = Some v'" and "ttype t \<noteq> TXSTYPE_BKY"
  shows "outside (msg_key m omsid) (v_srv v) (v_srv v')"
proof (cases "ttype t = TXSTYPE_PUT \<or> ttype t = TXSTYPE_MPT")
  case True
  then show ?thesis using assms ofold_un_mpt [of t buf "[0..<unat (bbank t)]" v v'] by (auto simp: un_effect_def un_pay_def)
next
  case False
  then show ?thesis using assms unfolding un_effect_def Let_def by (auto simp: outside_def um_ppi_def split: if_split_asm)
qed

lemma pm_tx_in_step:
  assumes a: "pm_tx c tm m omsid cs tp rest buf st = Some (True, sz, st')" and v: "in_step (msg_key m omsid) st v" and p: "parse (usertxs0 0) buf = Some (True, t)"
    and b: "ttype t \<noteq> TXSTYPE_BKY" "ttype t = TXSTYPE_PUT \<Longrightarrow> \<not> slt64 (tmass t) 0" and ml: "mg_svid ml = mg_svid m" "mg_msid ml = mg_msid m"
  shows "\<exists>v'. un_tx kd ml omsid buf v = Some (sz, v') \<and> in_step (msg_key m omsid) st' v' \<and> outside (msg_key ml omsid) (v_srv v) (v_srv v')"
proof -
  define st0 where "st0 = st\<lparr>p_tmpos := p_tmpos st + 1\<rparr>"
  define v0 where "v0 = v\<lparr>v_tmpos := v_tmpos v + 1\<rparr>"
  have i0: "in_step (msg_key m omsid) st0 v0" using v by (simp add: in_step_def Let_def st0_def v0_def)
  note d = a [unfolded pm_tx_def Let_def st0_def [symmetric] p bind.bind_lunit prod.case, simplified]
  have sz: "sz = nat (txsize t)" and ty: "ttype t < 16" using d by (auto simp: bind_eq_Some_conv not_le split: if_splits)
  have "\<exists>v'. un_effect kd ml omsid t buf v0 = Some v' \<and> in_step (msg_key m omsid) st' v'"
  proof (cases "ttype t = TXSTYPE_NON \<or> ttype t = TXSTYPE_CON")
    case True
    then have "pq st' = pq st0" using d by (auto simp: pm_con_def Let_def bind_eq_Some_conv)
    from in_step_pq [OF this] True i0 show ?thesis by (auto simp: un_effect_def)
  next
    case no: False
    show ?thesis
    proof (cases "ttype t = TXSTYPE_UOK")
      case True
      then have "new_account (c_sha c) m omsid buf t st0 = Some (True, st')" using d no by (auto simp: bind_eq_Some_conv split: if_splits)
      from in_step_uok [OF this _ i0 ml] True show ?thesis by (simp add: un_effect_def Let_def ml)
    next
      case False
      obtain st1 where s1: "pq st1 = pq st0" "tx_account c tm m omsid cs tp rest buf t st1 = Some (True, st')"
        using d no False pq_new_usr [of "c_sha c" m omsid buf t st0] by (fastforce simp: bind_eq_Some_conv split: if_split_asm)
      obtain u st2 x where x: "pq st2 = pq st1" "tx_effect m omsid buf t u st2 = Some (True, x)" "pq st' = pq (x_st x)"
        by (rule tx_account_pq [OF s1(2)])
      have "in_step (msg_key m omsid) st2 v0" using i0 in_step_pq [where st' = st2 and st = st0] s1(1) x(1) by simp
      from tx_effect_in_step [OF x(2) this b(1) False b(2) ml] in_step_pq [OF x(3)] show ?thesis by auto
    qed
  qed
  then show ?thesis using un_tx_effect [OF p ty] un_effect_outside [OF _ b(1), of kd ml omsid buf v0] by (auto simp: sz v0_def)
qed

text \<open>Transactions of a message that \<open>undo_message\<close> takes back completely.\<close>

definition undoable :: "bytes \<Rightarrow> nat \<Rightarrow> bool" where
  "undoable d len \<longleftrightarrow> (\<forall>p t. tx_pos d len p \<and> p < len \<and> parse (usertxs0 0) (drop p d) = Some (True, t) \<longrightarrow>
     ttype t \<noteq> TXSTYPE_BKY \<and> (ttype t = TXSTYPE_PUT \<longrightarrow> \<not> slt64 (tmass t) 0))"

lemma pm_loop_in_step:
  assumes "pm_loop c tm m omsid cs tp d p st = Some (True, st')" and "in_step (msg_key m omsid) st v" and "undoable d (unat (mg_len m))" and "tx_pos d (unat (mg_len m)) p"
    and ml: "mg_svid ml = mg_svid m" "mg_msid ml = mg_msid m" "mg_len ml = mg_len m"
  shows "\<exists>v'. un_loop kd ml omsid d p v = Some v' \<and> in_step (msg_key m omsid) st' v' \<and> outside (msg_key ml omsid) (v_srv v) (v_srv v')"
  using assms
proof (induction c tm m omsid cs tp d p st arbitrary: v rule: pm_loop.induct)
  case (1 c tm m omsid cs tp d p st)
  note ps = pm_loop.simps [of c tm m omsid cs tp d p] and us = un_loop.simps [of kd ml omsid d p]
  show ?case
  proof (cases "unat (mg_len m) \<le> p")
    case True
    then show ?thesis using "1.prems" by (simp add: ps us)
  next
    case False
    obtain sz st1 where x: "pm_tx c tm m omsid cs tp (unat (mg_len m) - p) (drop p d) st = Some (True, sz, st1)"
      and l: "pm_loop c tm m omsid cs tp d (p + sz) st1 = Some (True, st')"
      using "1.prems"(1) False by (auto simp: ps bind_eq_Some_conv split: if_splits)
    obtain t where t: "parse (usertxs0 0) (drop p d) = Some (True, t)" "sz = nat (txsize t)" using pm_tx_parse [OF x] by blast
    have b: "ttype t \<noteq> TXSTYPE_BKY" "ttype t = TXSTYPE_PUT \<longrightarrow> \<not> slt64 (tmass t) 0"
      using "1.prems"(3,4) False t(1) unfolding undoable_def by (simp_all only: not_le) blast+
    from pm_tx_in_step [OF x "1.prems"(2) t(1) b(1) b(2) [rule_format] "1.prems"(5,6)]
    obtain v1 where v1: "un_tx kd ml omsid (drop p d) v = Some (sz, v1)" "in_step (msg_key m omsid) st1 v1" "outside (msg_key ml omsid) (v_srv v) (v_srv v1)" by blast
    have "tx_pos d (unat (mg_len m)) (p + sz)" using tx_next [OF "1.prems"(4) _ t(1)] False t(2) by simp
    with "1.IH" [OF False x refl refl TrueI l v1(2) "1.prems"(3) _ "1.prems"(5-7)]
    show ?thesis using False v1(1,3) "1.prems"(7) by (auto simp: us intro: outside_trans)
  qed
qed

section \<open>The accounts come back\<close>

lemma un_store_file:
  assumes u: "undo_inv f0 ou f ch k un" and c: "keys_ok ch" "\<forall>j \<in> fst ` set ch. unat j < length f"
    and l: "unat ou \<le> length f0" "unat ou \<le> length f"
  shows "take (unat ou) (put_changes un (put_changes ch f)) = take (unat ou) f0"
proof (rule nth_take_lemma [OF _ _ impI])
  have j: "\<forall>j \<in> fst ` set un. unat j < length (put_changes ch f)"
  proof
    fix j assume "j \<in> fst ` set un"
    then obtain w where "(j, w) \<in> set un" by auto
    from weak_map_of_SomeI [OF this] obtain w' where "map_of un j = Some w'" by blast
    then have "j < ou" using u by (simp add: undo_inv_def)
    then show "unat j < length (put_changes ch f)" using l(2) put_changes_file(1) [OF c] by (simp add: word_less_nat_alt)
  qed
  have un: "keys_ok un" using u by (simp add: undo_inv_def)
  show "unat ou \<le> length (put_changes un (put_changes ch f))" "unat ou \<le> length f0"
    using l put_changes_file(1) [OF c] put_changes_file(1) [OF un j] by simp_all
  fix i assume i: "i < unat ou"
  have i32: "i < 2 ^ 32" using i unsigned_less [of ou, where ?'a = nat] by simp
  then have w: "unat (of_nat i :: u32) = i" by (simp add: unat_of_nat take_bit_nat_eq_self)
  then have io: "of_nat i < ou" using i by (simp add: word_less_nat_alt)
  have a: "put_changes un (put_changes ch f) ! i = overlay (put_changes ch f) un i" "put_changes ch f ! i = overlay f ch i"
    by (rule put_changes_file(2) [OF un j]; use i i32 l put_changes_file(1) [OF c] in simp)
      (rule put_changes_file(2) [OF c]; use i i32 l in simp)
  show "put_changes un (put_changes ch f) ! i = f0 ! i"
  proof (cases "map_of un (of_nat i)")
    case None
    then have "map_of ch (of_nat i) = None" "fget f (of_nat i) = fget f0 (of_nat i)" using u io by (simp_all add: undo_inv_def)
    then have "f ! i = f0 ! i" using i l w by (simp add: fget_def)
    then show ?thesis unfolding a(1) overlay_def None option.case a(2) using \<open>map_of ch (of_nat i) = None\<close> by simp
  next
    case (Some v)
    then have "fget f0 (of_nat i) = Some v" using u by (simp add: undo_inv_def)
    then show ?thesis using a(1) Some i l(1) w by (simp add: overlay_def fget_def)
  qed
qed

lemma undo_file_wf:
  assumes "undo_inv f0 ou f ch k un" and "\<forall>u \<in> set f0. user_wf u" and "length h = 32"
  shows "undo_wf \<lparr>mu_undo = un, mu_users = us, mu_csum = cs, mu_weight = w, mu_fee = fe, mu_msha = h, mu_mtim = mt\<rparr>"
proof -
  have k: "keys_ok un" using assms(1) by (simp add: undo_inv_def)
  have "user_wf v" if "(i, v) \<in> set un" for i v
  proof -
    have "map_of un i = Some v" using that keys_ok_distinct [OF k] by (simp add: map_of_is_SomeI)
    then have "fget f0 i = Some v" using assms(1) by (simp add: undo_inv_def)
    then show ?thesis using assms(2) by (auto simp: fget_def split: if_splits)
  qed
  then show ?thesis using k assms(3) by (auto simp: undo_wf_def)
qed

lemma load_same:
  assumes "load who dk m = Some (r, m')"
  shows "mg_svid m' = mg_svid m" "mg_msid m' = mg_msid m" "mg_path m' = mg_path m" "mg_hash m' = mg_hash m"
  using assms unfolding load_def Let_def hash_signature_def
  by (auto simp: bind_eq_Some_conv null_signature_def split: option.splits if_split_asm)

text \<open>The message as \<open>undo_message\<close> gets it: the same message, whose data may have been unloaded.\<close>

definition same_msg :: "message \<Rightarrow> message \<Rightarrow> bool" where
  "same_msg m m' \<longleftrightarrow> mg_svid m' = mg_svid m \<and> mg_msid m' = mg_msid m \<and> mg_path m' = mg_path m \<and> mg_hash m' = mg_hash m \<and>
     mg_status m AND MSGSTAT_BAD = 0 \<and> mg_status m' AND MSGSTAT_BAD = 0"

definition sender_wf :: "server \<Rightarrow> message \<Rightarrow> bool" where
  "sender_wf s m \<longleftrightarrow> (\<forall>u \<in> set (d_usr (dsk s) (mg_svid m)). user_wf u) \<and> length (n_msha (s_nodes (srvs s) ! unat (mg_svid m))) = 32"

lemma load_status:
  assumes "load who dk m = Some (r, m')" and "mg_status m AND MSGSTAT_BAD = 0"
  shows "mg_status m' AND MSGSTAT_BAD = 0"
proof -
  have "(x OR MSGSTAT_DAT OR MSGSTAT_SAV) AND MSGSTAT_BAD = x AND MSGSTAT_BAD" for x :: u8
    by (simp add: word_ao_dist)
  then show ?thesis using assms unfolding load_def Let_def hash_signature_def
    by (auto simp: bind_eq_Some_conv null_signature_def split: option.splits if_split_asm)
qed

text \<open>The state right before \<open>un_store\<close>: but for keys that of the stored message, marked by the validator.\<close>

lemma before_un_store:
  assumes st: "stored m profit s st s1" and q: "pm_queue kd st s1 = Some s2"
    and t: "t = s2\<lparr>dsk := put_msglog (s_now (srvs s2)) (mg_svid m) (mg_msid m) lg (dsk s2)\<rparr>"
    and c: "commit_mark m t = Some t1" and u: "pk_only t1 s3" and sv: "unat (mg_svid m) < length (s_nodes (srvs s))"
  shows "d_usr (dsk s3) = d_usr (dsk s1)" "d_mun (dsk s3) = d_mun (dsk s1)" "bank_fee s3 = bank_fee s1" 
    "length (s_nodes (srvs s3)) = length (s_nodes (srvs s))"
    "j < length (s_nodes (srvs s)) \<Longrightarrow> n_users (s_nodes (srvs s3) ! j) = n_users (s_nodes (srvs s1) ! j) \<and>
      n_weight (s_nodes (srvs s3) ! j) = n_weight (s_nodes (srvs s1) ! j) \<and> n_hash (s_nodes (srvs s3) ! j) = n_hash (s_nodes (srvs s1) ! j)"
proof -
  have p: "pk_only s1 s2" by (rule pk_only_queue [OF q])
  have l1: "length (s_nodes (srvs s1)) = length (s_nodes (srvs s))" using st by (auto simp: stored_def Let_def)
  have l2: "length (s_nodes (srvs s2)) = length (s_nodes (srvs s))" using pk_only_node(1) [OF p] l1 by simp
  let ?n = "s_nodes (srvs s2) ! unat (mg_svid m)"
  have t1: "t1 = t\<lparr>srvs := set_node (mg_svid m) (?n\<lparr>n_msid := mg_msid m, n_mtim := mg_now m, n_msha := mg_sigh m\<rparr>) (srvs t)\<rparr>"
    using c sv l2 by (simp add: commit_mark_def t)
  have l3: "length (s_nodes (srvs t1)) = length (s_nodes (srvs s))" by (simp add: t1 t l2)
  show "d_usr (dsk s3) = d_usr (dsk s1)" "d_mun (dsk s3) = d_mun (dsk s1)" "bank_fee s3 = bank_fee s1"
    using u p by (simp_all add: pk_only_def t1 t put_msglog_def Let_def)
  show "length (s_nodes (srvs s3)) = length (s_nodes (srvs s))" using pk_only_node(1) [OF u] l3 by simp
  assume j: "j < length (s_nodes (srvs s))"
  have "n_users (s_nodes (srvs t1) ! j) = n_users (s_nodes (srvs s2) ! j)" "n_weight (s_nodes (srvs t1) ! j) = n_weight (s_nodes (srvs s2) ! j)"
    "n_hash (s_nodes (srvs t1) ! j) = n_hash (s_nodes (srvs s2) ! j)"
    using sv l2 by (auto simp: t1 t nth_list_update)
  then show "n_users (s_nodes (srvs s3) ! j) = n_users (s_nodes (srvs s1) ! j) \<and>
      n_weight (s_nodes (srvs s3) ! j) = n_weight (s_nodes (srvs s1) ! j) \<and> n_hash (s_nodes (srvs s3) ! j) = n_hash (s_nodes (srvs s1) ! j)"
    using pk_only_fields [OF u, of j] pk_only_fields [OF p, of j] j l1 l3 by simp
qed

text \<open>\<open>undo_message\<close> in its stages.\<close>

lemma undo_message_stages:
  assumes "undo_message kd m s = Some (m', t)"
  obtains r ml d o1 v u where "load (my_svid s) (dsk s) m = Some (r, ml)" "mg_data ml = Some d"
    "node_at (last_srvs s) (mg_svid ml) = Some o1"
    "un_loop kd ml (n_msid o1) d data_offset \<lparr>v_srv = s, v_deposit = [], v_bky = [], v_tmpos = 0\<rparr> = Some v"
    "load_undo ml (dsk (fold (\<lambda>(k, x). deposit_add k (- x)) (v_deposit v) (v_srv v))) = Some u"
    "un_store ml u (fold (\<lambda>(k, x). deposit_add k (- x)) (v_deposit v) (v_srv v)) = Some t"
  using assms that unfolding undo_message_def by (auto simp: bind_eq_Some_conv Let_def split: if_splits)

lemma undo_store_books:
  assumes i: "pm_inv (mg_svid m) s 0 st" and st: "stored m profit s st s1" and l: "ledger_ok s"
    and s3: "d_usr (dsk s3) = d_usr (dsk s1)" "bank_fee s3 = bank_fee s1" "length (s_nodes (srvs s3)) = length (s_nodes (srvs s))"
      "\<And>j. j < length (s_nodes (srvs s)) \<Longrightarrow> n_users (s_nodes (srvs s3) ! j) = n_users (s_nodes (srvs s1) ! j) \<and>
      n_weight (s_nodes (srvs s3) ! j) = n_weight (s_nodes (srvs s1) ! j) \<and> n_hash (s_nodes (srvs s3) ! j) = n_hash (s_nodes (srvs s1) ! j)"
    and n0: "n0 = s_nodes (srvs s) ! unat (mg_svid m)" and sm: "mg_svid ml = mg_svid m"
    and t: "un_store ml \<lparr>mu_undo = p_undo st, mu_users = n_users n0, mu_csum = p_csum st, mu_weight = p_weight st, mu_fee = profit,
      mu_msha = n_msha n0, mu_mtim = n_mtim n0\<rparr> s3 = Some t"
  shows "books t = books s" "n_msha (s_nodes (srvs t) ! unat (mg_svid m)) = n_msha n0" "n_mtim (s_nodes (srvs t) ! unat (mg_svid m)) = n_mtim n0"
    "n_msid (s_nodes (srvs t) ! unat (mg_svid m)) = mg_msid ml - 1"
proof -
  let ?sv = "mg_svid m" and ?f = "d_usr (dsk (p_srv st)) (mg_svid m)"
  obtain n where n: "srvs s1 = set_node ?sv n (srvs s)" "n_users n = p_users st" "n_weight n = n_weight n0 + p_weight st"
    "n_hash n = xor4 (n_hash n0) (p_csum st)" "d_usr (dsk s1) = (d_usr (dsk s))(?sv := put_changes (p_changes st) ?f)"
    "unat ?sv < length (bank_fee s)" "bank_fee s1 = (bank_fee s)[unat ?sv := bank_fee s ! unat ?sv + profit]"
    using st by (auto simp: stored_def Let_def n0)
  have sv: "unat ?sv < length (s_nodes (srvs s))" and nz: "n_users n0 \<noteq> 0" "n_users n0 \<le> p_users st"
    and u: "undo_inv (d_usr (dsk s) ?sv) (n_users n0) ?f (p_changes st) (p_users st) (p_undo st)"
    and c: "core (period_start s) (n_weight n0) (n_hash n0) ?f (p_changes st) (p_users st) (p_weight st) (p_csum st) 0" and z: "?sv \<noteq> 0"
    using i by (simp_all add: pm_inv_def Let_def n0 pays_ok_def)
  let ?n3 = "s_nodes (srvs s3) ! unat ?sv"
  have n3: "n_users ?n3 = p_users st" "n_weight ?n3 = n_weight n0 + p_weight st" "n_hash ?n3 = xor4 (n_hash n0) (p_csum st)"
    using s3(4) [OF sv] sv n by simp_all
  let ?n = "?n3\<lparr>n_weight := n_weight ?n3 - p_weight st, n_hash := xor4 (n_hash ?n3) (p_csum st), n_msid := mg_msid ml - 1,
    n_msha := n_msha n0, n_mtim := n_mtim n0, n_users := n_users n0\<rparr>"
  have nf: "node_at (srvs s3) ?sv = Some ?n3" using sv s3(3) by simp
  have af: "unat ?sv < length (bank_fee s3)" using n(6,7) s3(2) by simp
  have "t = s3\<lparr>bank_fee := (bank_fee s3)[unat ?sv := bank_fee s3 ! unat ?sv + - profit], srvs := set_node ?sv ?n (srvs s3),
     dsk := del_msglog (s_now (srvs s3)) ?sv (mg_msid ml) ((dsk s3)\<lparr>d_usr := (d_usr (dsk s3))(?sv := put_changes (p_undo st) (d_usr (dsk s3) ?sv))\<rparr>)\<rparr>"
    using t nz(1) af by (simp add: un_store_def Let_def sm nf add_fee_def)
  then have t': "srvs t = set_node ?sv ?n (srvs s3)" "d_usr (dsk t) = (d_usr (dsk s3))(?sv := put_changes (p_undo st) (d_usr (dsk s3) ?sv))"
    "bank_fee t = (bank_fee s3)[unat ?sv := bank_fee s3 ! unat ?sv - profit]"
    by (simp_all add: del_msglog_def)
  show "n_msha (s_nodes (srvs t) ! unat ?sv) = n_msha n0" "n_mtim (s_nodes (srvs t) ! unat ?sv) = n_mtim n0"
    "n_msid (s_nodes (srvs t) ! unat ?sv) = mg_msid ml - 1" using sv s3(3) by (simp_all add: t')
  have "bank_inv (period_start s) n0 (d_usr (dsk s) ?sv)" using ledger_bank [OF l, of ?sv] sv z by (simp add: n0)
  then have ou: "unat (n_users n0) \<le> length (d_usr (dsk s) ?sv)" by (simp add: bank_inv_def)
  have ch: "keys_ok (p_changes st)" "\<forall>j \<in> fst ` set (p_changes st). unat j < length ?f" "unat (n_users n0) \<le> length ?f"
    using c nz(2) by (auto simp: core_def word_less_nat_alt word_le_nat_alt intro: less_le_trans)
  have "take (unat (n_users n0)) (put_changes (p_undo st) (d_usr (dsk s3) ?sv)) = take (unat (n_users n0)) (d_usr (dsk s) ?sv)"
    using un_store_file [OF u ch(1,2) ou ch(3)] by (simp add: s3(1) n(5))
  then have own: "book t (unat ?sv) = book s (unat ?sv)"
    using sv s3(3) n3 by (simp add: book_def Let_def t' n0 [symmetric] xor4_laws(1,3,4))
  have "book t j = book s j" if j: "j < length (s_nodes (srvs s))" "j \<noteq> unat ?sv" for j
  proof -
    have "j < 65536" using l j by (simp add: ledger_def)
    then have "of_nat j \<noteq> ?sv" using j(2) by (metis unat_u16_of_nat)
    then show ?thesis using j s3(4) [OF j(1)] n(1) by (simp add: book_def Let_def t' s3(1) n(5))
  qed
  then have all: "book t j = book s j" if "j < length (s_nodes (srvs s))" for j using own that by blast
  have "map (book t) [0..<length (s_nodes (srvs s))] = map (book s) [0..<length (s_nodes (srvs s))]"
    by (rule map_cong [OF refl all]) (simp only: set_upt atLeastLessThan_iff)
  moreover have "bank_fee t = bank_fee s" using n(6) by (simp add: t' s3(2) n(7))
  ultimately show "books t = books s" using s3(3) by (simp add: books_def t')
qed

definition undo_record :: "server \<Rightarrow> message \<Rightarrow> i64 \<Rightarrow> pm \<Rightarrow> msg_undo" where
  "undo_record s m profit st = (let n0 = s_nodes (srvs s) ! unat (mg_svid m) in
     \<lparr>mu_undo = p_undo st, mu_users = n_users n0, mu_csum = p_csum st, mu_weight = p_weight st, mu_fee = profit,
      mu_msha = n_msha n0, mu_mtim = n_mtim n0\<rparr>)"

definition queue_maps where
  "queue_maps s = (map_of (blk_bnk s), map_of (blk_get s), map_of (blk_usr s), map_of (blk_uok s), map_of (blk_sbs s), map_of (blk_ubs s))"

lemma un_store_runs:
  assumes "unat (mg_svid m) < length (s_nodes (srvs s))" and "unat (mg_svid m) < length (bank_fee s)"
  shows "\<exists>t. un_store m u s = Some t \<and> deposit t = deposit s \<and> queue_maps t = queue_maps s"
  using assms by (simp add: un_store_def Let_def add_fee_def queue_maps_def)

lemma undo_core:
  assumes l: "ledger_ok s" and wf: "sender_wf s m" and g: "stages kd m s st profit s1 s2 t"
    and c: "commit_mark m t = Some t1" and p: "pk_only t1 s3"
    and ml: "mg_svid ml = mg_svid m" "mg_msid ml = mg_msid m" "makefilename ml (mg_path ml) = makefilename m (mg_path m)"
  shows "load_undo ml (dsk s3) = Some (undo_record s m profit st)"
    and "\<exists>t2. un_store ml (undo_record s m profit st) s3 = Some t2 \<and> deposit t2 = deposit s3 \<and> queue_maps t2 = queue_maps s3 \<and> books t2 = books s \<and>
    (let n = s_nodes (srvs t2) ! unat (mg_svid m); n0 = s_nodes (srvs s) ! unat (mg_svid m) in
     n_msha n = n_msha n0 \<and> n_mtim n = n_mtim n0 \<and> n_msid n = mg_msid m - 1)"
proof -
  let ?n0 = "s_nodes (srvs s) ! unat (mg_svid m)" and ?u = "undo_record s m profit st"
  obtain lg where g: "pm_inv (mg_svid m) s 0 st" "stored m profit s st s1" "pm_queue kd st s1 = Some s2"
    "t = s2\<lparr>dsk := put_msglog (s_now (srvs s2)) (mg_svid m) (mg_msid m) lg (dsk s2)\<rparr>"
    using g unfolding stages_def by blast
  have sv: "unat (mg_svid m) < length (s_nodes (srvs s))" using g(1) by (simp add: pm_inv_def Let_def)
  note b = before_un_store [OF g(2-4) c p sv]
  have "d_mun (dsk s3) (makefilename ml (mg_path ml)) = Some (undo_bytes ?u)"
    using g(2) b(2) by (auto simp: ml(3) stored_def Let_def undo_record_def)
  moreover have "undo_inv (d_usr (dsk s) (mg_svid m)) (n_users ?n0) (d_usr (dsk (p_srv st)) (mg_svid m)) (p_changes st) (p_users st) (p_undo st)"
    using g(1) by (simp add: pm_inv_def Let_def)
  then have "undo_wf ?u" unfolding undo_record_def Let_def by (rule undo_file_wf) (use wf in \<open>auto simp: sender_wf_def\<close>)
  ultimately show "load_undo ml (dsk s3) = Some ?u" using load_undo_bytes [of ?u "dsk s3" ml] by simp
  have "unat (mg_svid ml) < length (s_nodes (srvs s3))" "unat (mg_svid ml) < length (bank_fee s3)"
    using sv b(3,4) g(2) by (auto simp: ml(1) stored_def Let_def)
  from un_store_runs [OF this, of ?u] obtain t2 where t2: "un_store ml ?u s3 = Some t2" "deposit t2 = deposit s3" "queue_maps t2 = queue_maps s3"
    by blast
  from undo_store_books [OF g(1,2) l b(1,3,4) b(5) refl ml(1) t2(1) [unfolded undo_record_def Let_def]] ml(2) t2
  show "\<exists>t2. un_store ml ?u s3 = Some t2 \<and> deposit t2 = deposit s3 \<and> queue_maps t2 = queue_maps s3 \<and> books t2 = books s \<and>
    (let n = s_nodes (srvs t2) ! unat (mg_svid m); n0 = ?n0 in n_msha n = n_msha n0 \<and> n_mtim n = n_mtim n0 \<and> n_msid n = mg_msid m - 1)"
    by (auto simp: Let_def)
qed

lemma same_msg_loaded:
  assumes "same_msg m m'" and "load who dk m' = Some (r, ml)"
  shows "mg_svid ml = mg_svid m" "mg_msid ml = mg_msid m" "makefilename ml (mg_path ml) = makefilename m (mg_path m)"
  using load_same [OF assms(2)] load_status [OF assms(2)] assms(1) by (simp_all add: same_msg_def makefilename_def hashtype_def)

text \<open>
  C3: \<open>undo_message\<close> takes back a message that \<open>process_message\<close> accepted and the validator recorded:
  in every node the number of accounts, the total weight, the checksum and every account are what
  they were before the message, and so are the fees of the nodes and the message hash and time of
  the sender's node, whose message number steps back by one.  The accounts of the sender's node have
  32 byte keys and hashes, as the records of the source do.
\<close>

theorem undo_restores_books:
  assumes "ledger_ok s" and "msg_fits s m" and "sender_wf s m" and "process_message c kd tm m s = Some (True, t)"
    and "commit_mark m t = Some t1" and "same_msg m m'" and "undo_message kd m' t1 = Some (m'', t2)"
  shows "books t2 = books s \<and>
    (let n = s_nodes (srvs t2) ! unat (mg_svid m); n0 = s_nodes (srvs s) ! unat (mg_svid m) in
     n_msha n = n_msha n0 \<and> n_mtim n = n_mtim n0 \<and> n_msid n = mg_msid m - 1)"
proof -
  obtain st profit s1 s2 where g: "stages kd m s st profit s1 s2 t"
    using process_message_stages [OF assms(1,2,4)] by metis
  obtain r ml d o1 v u where n: "load (my_svid t1) (dsk t1) m' = Some (r, ml)" "mg_data ml = Some d"
    "node_at (last_srvs t1) (mg_svid ml) = Some o1" "un_loop kd ml (n_msid o1) d data_offset \<lparr>v_srv = t1, v_deposit = [], v_bky = [], v_tmpos = 0\<rparr> = Some v"
    "load_undo ml (dsk (fold (\<lambda>(k, x). deposit_add k (- x)) (v_deposit v) (v_srv v))) = Some u"
    "un_store ml u (fold (\<lambda>(k, x). deposit_add k (- x)) (v_deposit v) (v_srv v)) = Some t2"
    by (rule undo_message_stages [OF assms(7)])
  have "pk_only t1 (v_srv v)" using un_loop_pk [OF n(4)] by simp
  from undo_core [OF assms(1,3) g assms(5) pk_only_trans [OF this pk_only_deposits [of _ uminus "v_deposit v"]] same_msg_loaded [OF assms(6) n(1)]] n(5,6)
  show ?thesis by auto
qed

section \<open>Deposits and queues come back\<close>

lemma deposit_adds_at:
  "m_at 0 (deposit (fold (\<lambda>(k, x). deposit_add k (f x)) l s)) j = m_at 0 (deposit s) j + (\<Sum>(k, x) \<leftarrow> l. if k = j then f x else 0)"
proof (induction l arbitrary: s)
  case (Cons a l)
  obtain k x where a: "a = (k, x)" by force
  show ?case using Cons [of "deposit_add k (f x) s"] by (simp add: a deposit_add_def m_at_m_add)
qed simp

lemma deposits_cancel:
  assumes "deposit t = deposit (fold (\<lambda>(k, x). deposit_add k x) l s)"
  shows "m_at 0 (deposit (fold (\<lambda>(k, x). deposit_add k (- x)) l t)) j = m_at 0 (deposit s) j"
proof -
  have "(\<Sum>(k, x) \<leftarrow> l. if k = j then - x else 0) = - (\<Sum>(k, x) \<leftarrow> l. if k = j then x else 0)"
    by (induction l) auto
  then show ?thesis using deposit_adds_at [of uminus l t j] deposit_adds_at [of "\<lambda>x. x" l s j] by (simp add: assms)
qed

lemma map_of_m_inserts: "map_of new k = None \<Longrightarrow> map_of (m_inserts new m) k = map_of m k"
  unfolding m_inserts_def
proof (induction new arbitrary: m)
  case (Cons a new)
  obtain j x where a: "a = (j, x)" by force
  have "map_of (m_ins j x m) k = map_of m k" using Cons.prems by (auto simp: a m_ins_def map_of_m_upd split: option.splits if_splits)
  then show ?case using Cons by (simp add: a split: if_splits)
qed simp

lemma pm_bky_step_cases:
  assumes "pm_bky_step kd e s = Some t"
  obtains i n k b where "(if i = my_svid s then own_key kd k (s\<lparr>blk_bky := b, srvs := set_node i n (srvs s)\<rparr>)
    else Some (s\<lparr>blk_bky := b, srvs := set_node i n (srvs s)\<rparr>)) = Some t"
proof -
  obtain ppb k where e: "e = (ppb, k)" by force
  obtain o1 n where n: "node_at (last_srvs s) (ppi_bbank ppb) = Some o1" "node_at (srvs s) (ppi_bbank ppb) = Some n"
    using assms by (auto simp: e pm_bky_step_def Let_def bind_eq_Some_conv split: if_splits)
  then show ?thesis using assms that [of "ppi_bbank ppb" k "n\<lparr>n_pk := k\<rparr>" "if n_status o1 AND SERVER_DBL \<noteq> 0 then m_upd ppb (ppi_bbank ppb) (blk_bky s) else blk_bky s"]
    by (auto simp: e pm_bky_step_def Let_def split: if_splits)
qed

lemma pm_bkys_queues:
  "ofold (pm_bky_step kd) l s = Some t \<Longrightarrow> queue_maps t = queue_maps s \<and> deposit t = deposit s \<and> blk_bnk t = blk_bnk s \<and>
    blk_get t = blk_get s \<and> blk_usr t = blk_usr s \<and> blk_uok t = blk_uok s \<and> blk_sbs t = blk_sbs s \<and> blk_ubs t = blk_ubs s"
proof (induction l arbitrary: s)
  case (Cons e l)
  then obtain s1 where s1: "pm_bky_step kd e s = Some s1" "ofold (pm_bky_step kd) l s1 = Some t" by (auto simp: bind_eq_Some_conv)
  obtain n b k i where s1': "(if i = my_svid s then own_key kd k (s\<lparr>blk_bky := b, srvs := set_node i n (srvs s)\<rparr>)
    else Some (s\<lparr>blk_bky := b, srvs := set_node i n (srvs s)\<rparr>)) = Some s1"
    by (rule pm_bky_step_cases [OF s1(1)])
  show ?case using Cons.IH [OF s1(2)] s1' own_key_fields by (fastforce simp: queue_maps_def split: if_splits)
qed simp

lemma pm_queue_fields:
  assumes "pm_queue kd st s = Some t"
  shows "deposit t = deposit (fold (\<lambda>(k, x). deposit_add k x) (p_deposit st) s)"
    "blk_bnk t = m_inserts (p_bnk st) (blk_bnk s)" "blk_get t = m_inserts (p_get st) (blk_get s)" "blk_usr t = m_inserts (p_usr st) (blk_usr s)"
    "blk_uok t = m_inserts (p_uok st) (blk_uok s)" "blk_sbs t = m_inserts (p_sbs st) (blk_sbs s)" "blk_ubs t = m_inserts (p_ubs st) (blk_ubs s)"
proof -
  let ?s = "fold (\<lambda>(k, x). deposit_add k x) (p_deposit st) s"
  obtain s1 where s1: "ofold (pm_bky_step kd) (p_bky st) ?s = Some s1"
    using assms by (auto simp: pm_queue_def Let_def bind_eq_Some_conv)
  obtain d where d: "?s = s\<lparr>deposit := d\<rparr>" using deposit_adds_fields [of "\<lambda>x. x" "p_deposit st" s] by auto
  have "t = (let t = s1\<lparr>blk_bnk := m_inserts (p_bnk st) (blk_bnk s1), blk_get := m_inserts (p_get st) (blk_get s1),
       blk_usr := m_inserts (p_usr st) (blk_usr s1), blk_uok := m_inserts (p_uok st) (blk_uok s1),
       blk_sbs := m_inserts (p_sbs st) (blk_sbs s1), blk_ubs := m_inserts (p_ubs st) (blk_ubs s1)\<rparr>; x = srvs t
      in if block_only t then t else t\<lparr>srvs := x\<lparr>s_msg := s_msg x + 1, s_txs := s_txs x + ucast (p_tmpos st)\<rparr>\<rparr>)"
    using assms by (simp add: pm_queue_def Let_def s1)
  with pm_bkys_queues [OF s1] show "deposit t = deposit ?s"
    "blk_bnk t = m_inserts (p_bnk st) (blk_bnk s)" "blk_get t = m_inserts (p_get st) (blk_get s)" "blk_usr t = m_inserts (p_usr st) (blk_usr s)"
    "blk_uok t = m_inserts (p_uok st) (blk_uok s)" "blk_sbs t = m_inserts (p_sbs st) (blk_sbs s)" "blk_ubs t = m_inserts (p_ubs st) (blk_ubs s)"
    by (simp_all add: Let_def d)
qed

lemma pq_dsu_step:
  assumes "dsu_step sha sv a st = Some st'"
  shows "pq st' = pq st"
proof -
  obtain uid d where a: "a = (uid, d)" by force
  show ?thesis
  proof (cases "map_of (p_changes st) uid")
    case None
    then obtain u where u: "fget (d_usr (dsk (p_srv st)) sv) uid = Some u" using assms by (auto simp: a dsu_step_def bind_eq_Some_conv)
    obtain dv v fee where "dividend (p_srv st) u (p_lodiv_fee st) = (dv, v, fee)" by (metis prod_cases3)
    then show ?thesis using assms None u by (auto simp: a dsu_step_def pq_def Let_def)
  qed (use assms in \<open>auto simp: a dsu_step_def pq_def Let_def\<close>)
qed

lemma pq_dsus: "ofold (dsu_step sha sv) l st = Some st' \<Longrightarrow> pq st' = pq st"
proof (induction l arbitrary: st)
  case (Cons a l)
  then obtain st1 where "dsu_step sha sv a st = Some st1" "ofold (dsu_step sha sv) l st1 = Some st'" by (auto simp: bind_eq_Some_conv)
  moreover from this(1) have "pq st1 = pq st" by (rule pq_dsu_step)
  ultimately show ?case using Cons.IH by simp
qed simp

text \<open>The queues hold no entry of the message yet.\<close>

definition fresh_msg :: "server \<Rightarrow> message \<Rightarrow> bool" where
  "fresh_msg s m \<longleftrightarrow> (\<forall>o1 k. node_at (last_srvs s) (mg_svid m) = Some o1 \<and> msg_key m (n_msid o1) k \<longrightarrow>
     map_of (blk_bnk s) k = None \<and> map_of (blk_get s) k = None \<and> map_of (blk_usr s) k = None \<and>
     map_of (blk_uok s) k = None \<and> map_of (blk_sbs s) k = None \<and> map_of (blk_ubs s) k = None)"

lemma queue_back:
  assumes "b1 = m_inserts p b0" and "cleared P p b" and "\<And>k. P k \<Longrightarrow> map_of b0 k = None" and "shrinks P b1 b"
  shows "map_of b = map_of b0"
proof
  fix k
  show "map_of b k = map_of b0 k"
  proof (cases "map_of p k")
    case None
    then have "map_of b1 k = map_of b0 k" by (simp add: assms(1) map_of_m_inserts)
    then show ?thesis using assms(3) [of k] assms(4) [unfolded shrinks_def, THEN spec, of k] by auto
  next
    case (Some x)
    then show ?thesis using assms(2,3) by (simp add: cleared_def)
  qed
qed

text \<open>The message can be read again and is marked as committed.\<close>

definition reloads :: "server \<Rightarrow> message \<Rightarrow> message \<Rightarrow> bool" where
  "reloads s m m' \<longleftrightarrow> (\<exists>r ml. load (my_svid s) (dsk s) m' = Some (r, ml) \<and> r \<noteq> 0 \<and> mg_status ml AND MSGSTAT_COM \<noteq> 0 \<and>
     mg_data ml = mg_data m \<and> mg_len ml = mg_len m)"

lemma deposit_adds_cong:
  "deposit a = deposit b \<Longrightarrow> deposit (fold (\<lambda>(k, x). deposit_add k x) l a) = deposit (fold (\<lambda>(k, x). deposit_add k x) l b)"
proof (induction l arbitrary: a b)
  case (Cons e l)
  obtain k x where e: "e = (k, x)" by force
  have "deposit (deposit_add k x a) = deposit (deposit_add k x b)" using Cons.prems by (simp add: deposit_add_def)
  from Cons.IH [OF this] show ?case by (simp add: e)
qed simp

lemma stages_queues:
  assumes "stages kd m s st profit s1 s2 t" and "commit_mark m t = Some t1"
  shows "last_srvs t1 = last_srvs s" "deposit t1 = deposit (fold (\<lambda>(k, x). deposit_add k x) (p_deposit st) s)"
    "blk_bnk t1 = m_inserts (p_bnk st) (blk_bnk s)" "blk_get t1 = m_inserts (p_get st) (blk_get s)" "blk_usr t1 = m_inserts (p_usr st) (blk_usr s)"
    "blk_uok t1 = m_inserts (p_uok st) (blk_uok s)" "blk_sbs t1 = m_inserts (p_sbs st) (blk_sbs s)" "blk_ubs t1 = m_inserts (p_ubs st) (blk_ubs s)"
proof -
  obtain lg where g: "stored m profit s st s1" "pm_queue kd st s1 = Some s2"
    "t = s2\<lparr>dsk := put_msglog (s_now (srvs s2)) (mg_svid m) (mg_msid m) lg (dsk s2)\<rparr>"
    using assms(1) unfolding stages_def by blast
  have s1: "last_srvs s1 = last_srvs s" "deposit s1 = deposit s" "queues s1 = queues s" using g(1) by (auto simp: stored_def Let_def)
  obtain y where t1: "t1 = t\<lparr>srvs := y\<rparr>" using assms(2) by (auto simp: commit_mark_def bind_eq_Some_conv)
  note dep = deposit_adds_cong [OF s1(2)]
  show "last_srvs t1 = last_srvs s" using pk_only_queue [OF g(2)] s1(1) by (simp add: t1 g(3) pk_only_def)
  show "deposit t1 = deposit (fold (\<lambda>(k, x). deposit_add k x) (p_deposit st) s)"
    "blk_bnk t1 = m_inserts (p_bnk st) (blk_bnk s)" "blk_get t1 = m_inserts (p_get st) (blk_get s)" "blk_usr t1 = m_inserts (p_usr st) (blk_usr s)"
    "blk_uok t1 = m_inserts (p_uok st) (blk_uok s)" "blk_sbs t1 = m_inserts (p_sbs st) (blk_sbs s)" "blk_ubs t1 = m_inserts (p_ubs st) (blk_ubs s)"
    using pm_queue_fields [OF g(2)] s1(3) dep by (simp_all add: t1 g(3) queues_def)
qed

lemma queues_back:
  assumes g: "stages kd m s st profit s1 s2 t" and c: "commit_mark m t = Some t1" and f: "fresh_msg s m" 
    and o1: "node_at (last_srvs s) (mg_svid m) = Some o1" and i: "in_step (msg_key m (n_msid o1)) st v" and v: "outside (msg_key m (n_msid o1)) t1 (v_srv v)"
  shows "queue_maps (v_srv v) = queue_maps s"
    and "m_at 0 (deposit (fold (\<lambda>(k, x). deposit_add k (- x)) (v_deposit v) (v_srv v))) j = m_at 0 (deposit s) j"
proof -
  note t1 = stages_queues [OF g c]
  let ?P = "msg_key m (n_msid o1)"
  note sh = v [unfolded outside_def] and cl = i [unfolded in_step_def Let_def]
  have fr: "?P k \<Longrightarrow> map_of (blk_bnk s) k = None \<and> map_of (blk_get s) k = None \<and> map_of (blk_usr s) k = None \<and>
     map_of (blk_uok s) k = None \<and> map_of (blk_sbs s) k = None \<and> map_of (blk_ubs s) k = None" for k
    using f o1 by (simp add: fresh_msg_def)
  have "map_of (blk_bnk (v_srv v)) = map_of (blk_bnk s)" by (rule queue_back [OF t1(3), of ?P]) (use cl sh fr in auto)
  moreover have "map_of (blk_get (v_srv v)) = map_of (blk_get s)" by (rule queue_back [OF t1(4), of ?P]) (use cl sh fr in auto)
  moreover have "map_of (blk_usr (v_srv v)) = map_of (blk_usr s)" by (rule queue_back [OF t1(5), of ?P]) (use cl sh fr in auto)
  moreover have "map_of (blk_uok (v_srv v)) = map_of (blk_uok s)" by (rule queue_back [OF t1(6), of ?P]) (use cl sh fr in auto)
  moreover have "map_of (blk_sbs (v_srv v)) = map_of (blk_sbs s)" by (rule queue_back [OF t1(7), of ?P]) (use cl sh fr in auto)
  moreover have "map_of (blk_ubs (v_srv v)) = map_of (blk_ubs s)" by (rule queue_back [OF t1(8), of ?P]) (use cl sh fr in auto)
  ultimately show "queue_maps (v_srv v) = queue_maps s" by (simp add: queue_maps_def)
  show "m_at 0 (deposit (fold (\<lambda>(k, x). deposit_add k (- x)) (v_deposit v) (v_srv v))) j = m_at 0 (deposit s) j"
    using deposits_cancel [of "v_srv v" "p_deposit st" s j] t1(2) sh cl by simp
qed

text \<open>
  C4: For a message without key changes of nodes (\<open>BKY\<close>) and without transfers of negative amounts,
  whose queue entries are new, \<open>undo_message\<close> does return, and gives back the whole state that the
  end of the block reads: the books, the deposits owed to other nodes and the six queues of
  transactions that wait for the end of the block.
\<close>

theorem undo_inverts_message:
  assumes "ledger_ok s" and "msg_fits s m" and "sender_wf s m" and "fresh_msg s m"
    and "\<forall>d. mg_data m = Some d \<longrightarrow> undoable d (unat (mg_len m))" and "process_message c kd tm m s = Some (True, t)"
    and "commit_mark m t = Some t1" and "same_msg m m'" and "reloads t1 m m'"
  shows "\<exists>m'' t2. undo_message kd m' t1 = Some (m'', t2) \<and> books t2 = books s \<and> queue_maps t2 = queue_maps s \<and>
    (\<forall>k. m_at 0 (deposit t2) k = m_at 0 (deposit s) k)"
proof -
  obtain d n o1 cs tp st st1 profit s1 s2 where g: "mg_data m = Some d" "node_at (srvs s) (mg_svid m) = Some n"
    "node_at (last_srvs s) (mg_svid m) = Some o1"
    "pm_loop c tm m (n_msid o1) cs tp d data_offset (pm0 s (n_users n)) = Some (True, st)"
    "ofold (dsu_step (c_sha c) (mg_svid m)) (p_dsu st) st = Some st1" "stages kd m s st1 profit s1 s2 t"
    by (rule process_message_stages [OF assms(1,2,6)])
  obtain r ml where r: "load (my_svid t1) (dsk t1) m' = Some (r, ml)" "r \<noteq> 0" "mg_status ml AND MSGSTAT_COM \<noteq> 0"
    "mg_data ml = Some d" "mg_len ml = mg_len m"
    using assms(9) g(1) unfolding reloads_def by auto
  note ml = same_msg_loaded [OF assms(8) r(1)]
  let ?v0 = "\<lparr>v_srv = t1, v_deposit = [], v_bky = [], v_tmpos = 0\<rparr>" and ?P = "msg_key m (n_msid o1)"
  have "in_step ?P (pm0 s (n_users n)) ?v0" by (simp add: in_step_def pm0_def)
  from pm_loop_in_step [OF g(4) this _ tx_start ml(1,2) r(5)] assms(5) g(1)
  obtain v where v: "un_loop kd ml (n_msid o1) d data_offset ?v0 = Some v" "in_step ?P st v" "outside (msg_key ml (n_msid o1)) t1 (v_srv v)"
    by fastforce
  have "msg_key ml (n_msid o1) = ?P" by (simp add: fun_eq_iff msg_key_def ml)
  then have v3: "outside ?P t1 (v_srv v)" using v(3) by simp
  have v2: "in_step ?P st1 v" using v(2) in_step_pq [OF pq_dsus [OF g(5)]] by simp
  note q = queues_back [OF g(6) assms(7,4) g(3) v2 v3]
  let ?s3 = "fold (\<lambda>(k, x). deposit_add k (- x)) (v_deposit v) (v_srv v)"
  have p: "pk_only t1 ?s3" using un_loop_pk [OF v(1)] by (auto intro: pk_only_trans pk_only_deposits)
  note u = undo_core [OF assms(1,3) g(6) assms(7) p ml]
  from u(2) obtain t2 where t2: "un_store ml (undo_record s m profit st1) ?s3 = Some t2" "deposit t2 = deposit ?s3" "queue_maps t2 = queue_maps ?s3" "books t2 = books s"
    by blast
  have "undo_message kd m' t1 = Some ((unload (my_svid t2) ml)\<lparr>mg_status := mg_status (unload (my_svid t2) ml) AND NOT MSGSTAT_COM\<rparr>, t2)"
    using r v(1) u(1) t2(1) stages_queues(1) [OF g(6) assms(7)] g(3) by (simp add: undo_message_def ml Let_def)
  moreover have "queue_maps ?s3 = queue_maps (v_srv v)" using deposit_adds_fields [of uminus "v_deposit v" "v_srv v"] by (auto simp: queue_maps_def)
  ultimately show ?thesis using t2(2-4) q by auto
qed

section \<open>An example\<close>

definition demo_done :: message where
  "demo_done = demo_message\<lparr>mg_status := MSGSTAT_COM\<rparr>"

text \<open>A message is processed, recorded and taken back.\<close>

definition there_and_back :: "message \<Rightarrow> server \<Rightarrow> (server \<times> server) option" where
  "there_and_back m s = do {
     (ok, t) \<leftarrow> process_message demo_crypto demo_keys 7 m s;
     t \<leftarrow> (if ok then commit_mark m t else None);
     (_, u) \<leftarrow> undo_message demo_keys (m\<lparr>mg_status := MSGSTAT_COM\<rparr>) t;
     Some (t, u)
   }"

lemma demo_there:
  obtains t t1 m' t2 where "process_message demo_crypto demo_keys 7 demo_message demo_bank = Some (True, t)" "commit_mark demo_message t = Some t1"
    "undo_message demo_keys demo_done t1 = Some (m', t2)"
proof -
  have "map_option (\<lambda>_. ()) (there_and_back demo_message demo_bank) = Some ()" by code_simp
  then show ?thesis using that by (auto simp: there_and_back_def bind_eq_Some_conv demo_done_def split: if_splits)
qed

lemma demo_undo_hyps:
  "sender_wf demo_bank demo_message" "same_msg demo_message demo_done" "fresh_msg demo_bank demo_message"
  "\<forall>d. mg_data demo_message = Some d \<longrightarrow> undoable d (unat (mg_len demo_message))" "reloads t1 demo_message demo_done"
proof -
  obtain x where x: "parse (usertxs0 0) (drop data_offset (the (mg_data demo_message))) = Some (True, x)" "txsize x = 125"
    "ttype x = TXSTYPE_PUT" "tmass x = 1000" by (rule demo_tx_parse)
  note ms = demo_message_def demo_bank_def demo_servers_def demo_server_def demo_node_def demo_rich_def demo_user_def node0_def zero_user_def
  show "sender_wf demo_bank demo_message" by (simp add: sender_wf_def ms user_wf_def)
  show "same_msg demo_message demo_done" by (simp add: same_msg_def demo_done_def demo_message_def)
  show "fresh_msg demo_bank demo_message" by (simp add: fresh_msg_def ms)
  show "reloads t1 demo_message demo_done" by (simp add: reloads_def load_def demo_done_def demo_message_def)
  have "undoable (the (mg_data demo_message)) 203" unfolding undoable_def
  proof (intro allI impI)
    fix p t
    assume t: "tx_pos (the (mg_data demo_message)) 203 p \<and> p < 203 \<and> parse (usertxs0 0) (drop p (the (mg_data demo_message))) = Some (True, t)"
    then have "p = data_offset" using one_tx [OF _ x(1)] x(2) by (simp only: not_less [symmetric]) force
    then have "t = x" using t x(1) by simp
    then show "ttype t \<noteq> TXSTYPE_BKY \<and> (ttype t = TXSTYPE_PUT \<longrightarrow> \<not> slt64 (tmass t) 0)" using x(3,4) by (simp add: slt64_def)
  qed
  then show "\<forall>d. mg_data demo_message = Some d \<longrightarrow> undoable d (unat (mg_len demo_message))" by (simp add: demo_message_def)
qed

theorem undo_restores_books_witness:
  "\<exists>t t1 m' t2. process_message demo_crypto demo_keys 7 demo_message demo_bank = Some (True, t) \<and> commit_mark demo_message t = Some t1 \<and>
    undo_message demo_keys demo_done t1 = Some (m', t2) \<and> books t2 = books demo_bank"
proof -
  obtain t t1 m' t2 where t: "process_message demo_crypto demo_keys 7 demo_message demo_bank = Some (True, t)" "commit_mark demo_message t = Some t1"
    "undo_message demo_keys demo_done t1 = Some (m', t2)" by (rule demo_there)
  from undo_restores_books [OF _ demo_fits demo_undo_hyps(1) t(1,2) demo_undo_hyps(2) t(3)] demo_bank_ledger t show ?thesis by blast
qed

theorem undo_inverts_message_witness:
  "\<exists>t t1 m' t2. process_message demo_crypto demo_keys 7 demo_message demo_bank = Some (True, t) \<and> commit_mark demo_message t = Some t1 \<and>
    undo_message demo_keys demo_done t1 = Some (m', t2) \<and> books t2 = books demo_bank \<and> queue_maps t2 = queue_maps demo_bank"
proof -
  obtain t t1 m' t2 where t: "process_message demo_crypto demo_keys 7 demo_message demo_bank = Some (True, t)" "commit_mark demo_message t = Some t1"
    "undo_message demo_keys demo_done t1 = Some (m', t2)" by (rule demo_there)
  from undo_inverts_message [OF _ demo_fits demo_undo_hyps(1,3,4) t(1,2) demo_undo_hyps(2,5)] demo_bank_ledger t show ?thesis by blast
qed

section \<open>Negative amounts\<close>




end
