(* ===== verification/Msglist.thy ===== *)
theory Msglist
  imports Block_Header Message
begin

text \<open>
  The list of the messages of a block, \<open>msgl_put\<close> to \<open>msgl_hash_tree_get\<close> of \<open>common/servers.hpp\<close>: its
  file \<open>msglist.dat\<close> with the inner hashes of the tree over the message hashes, and the path from a
  message to the hash of the block.
\<close>

section \<open>Writing and reading the list\<close>

definition msgl_entry :: "message \<Rightarrow> bytes" where
  "msgl_entry m = le_bytes 2 (mg_svid m) @ le_bytes 4 (mg_msid m) @ mg_sigh m"

text \<open>\<open>msgs\<close> are the messages in the order of the map; \<open>cmphash\<close> is \<open>None\<close> for a null pointer.\<close>

definition msgl_put :: "(bytes \<Rightarrow> bytes) \<Rightarrow> message list \<Rightarrow> bytes option \<Rightarrow> servers \<times> disk \<Rightarrow> (bool \<times> servers \<times> disk) option" where
  "msgl_put sha msgs cmphash sd = (case sd of (s, d) \<Rightarrow> do {
     let (_, h, tree) = finish sha (tree_of sha (map mg_sigh msgs));
     let s = s\<lparr>s_msg := of_nat (length msgs), s_msghash := h\<rparr>;
     if cmphash \<noteq> None \<and> cmphash \<noteq> Some h then Some (False, s, d)
     else do {
       d \<leftarrow> ofold (\<lambda>(n, m) d. save_mnum (of_nat n) m d) (List.enumerate 1 msgs) d;
       let hs = butlast (hashes tree);
       let f = le_bytes 4 (of_nat (length msgs) :: u32) @ h @ concat (map msgl_entry msgs) @
         le_bytes 4 (of_nat (length hs) :: u32) @ concat hs;
       Some (True, s, d\<lparr>d_msl := (d_msl d)(s_now s := Some (overwrite_bytes f (d_msl d (s_now s))))\<rparr>)
     }
   })"

text \<open>The bytes \<open>msgl_get\<close> reads; their number is its result.\<close>

definition msgl_get :: "servers \<Rightarrow> disk \<Rightarrow> bytes" where
  "msgl_get s d = (case block_file (d_msl d (s_now s)) of None \<Rightarrow> []
     | Some f \<Rightarrow> take (unat (32 + s_msg s * 38)) (drop 4 f))"

definition msgl_step :: "u16 \<Rightarrow> u32 \<Rightarrow> bytes \<Rightarrow> nat \<Rightarrow> (u64, message) amap \<Rightarrow> (u64, message) amap option" where
  "msgl_step mysvid now data i mp = do {
     sv \<leftarrow> rdw (32 + 38 * i) 2 data;
     ms \<leftarrow> rdw (32 + 38 * i + 2) 4 data;
     h \<leftarrow> rd (32 + 38 * i + 6) 32 data;
     m \<leftarrow> message_get sv ms h mysvid now;
     let m = m\<lparr>mg_status := mg_status m OR MSGSTAT_VAL\<rparr>;
     Some (m_upd (hash_num m) m mp)
   }"

text \<open>
  The counter of \<open>msgl_map\<close> has 16 bits: with more messages the loop runs on behind the end of the
  buffer.
\<close>

definition msgl_map :: "u16 \<Rightarrow> servers \<Rightarrow> bytes \<Rightarrow> (u64, message) amap \<Rightarrow> (u64, message) amap option" where
  "msgl_map mysvid s data mp = (if s_msg s > 0xffff then None
     else ofold (msgl_step mysvid (s_now s) data) [0..<unat (s_msg s)] mp)"

definition msgl_load :: "u16 \<Rightarrow> servers \<Rightarrow> disk \<Rightarrow> (u64, message) amap \<Rightarrow> (bool \<times> (u64, message) amap) option" where
  "msgl_load mysvid s d mp =
    (let data = msgl_get s d in
     if length data \<noteq> unat (32 + s_msg s * 38) \<or> take 32 data \<noteq> s_msghash s then Some (False, mp)
     else do { mp \<leftarrow> msgl_map mysvid s data mp; Some (True, mp) })"

section \<open>The path of a message\<close>

text \<open>The file position of inner hash \<open>n\<close>, as for the parts of a message.\<close>

definition msgl_seek :: "u32 \<Rightarrow> u32 \<Rightarrow> u32 \<Rightarrow> u32 option" where
  "msgl_seek msg htot n =
    (let m = path_special msg; base = 4 + 32 + (2+4+32) * msg in
     if n < m then (if n < htot then Some (base + 4 + 32 * n) else None)
     else if n = m then Some (base - 32)
     else if n - 1 < htot then Some (base + 4 + 32 * (n - 1)) else None)"

definition msgl_hash_tree_get ::
  "(bytes \<Rightarrow> bytes) \<Rightarrow> u16 \<Rightarrow> u32 \<Rightarrow> u32 \<Rightarrow> bytes list \<Rightarrow> servers \<times> disk \<Rightarrow> (bool \<times> bytes list \<times> servers) option" where
  "msgl_hash_tree_get sha svid msid mnum hs sd = (case sd of (s, d) \<Rightarrow>
     if mnum = 0 then Some (False, hs, s)
     else
       (let (ok, s) = (if s_msg s = 0 then header_get (s, d) else (True, s)) in
        if \<not> ok then Some (False, hs, s)
        else case block_file (d_msl d (s_now s)) of None \<Rightarrow> Some (False, hs, s)
        | Some f \<Rightarrow> do {
            let n = mnum - 1;
            let p = (if n mod 2 \<noteq> 0 then unat (4 + 32 + (2+4+32) * n - 32) + 32 else unat (4 + 32 + (2+4+32) * n));
            sv \<leftarrow> rdw p 2 f;
            ms \<leftarrow> rdw (p + 2) 4 f;
            if sv \<noteq> svid \<or> ms \<noteq> msid then Some (False, hs, s)
            else do {
              hs \<leftarrow> (if n mod 2 \<noteq> 0 then do { h \<leftarrow> rd (p - 32) 32 f; Some (hs @ [h]) }
                else if n < s_msg s - 1 then do { h \<leftarrow> rd (p + 38 + 6) 32 f; Some (hs @ [h]) }
                else Some hs);
              htot \<leftarrow> rdw (unat (4 + 32 + (2+4+32) * s_msg s)) 4 f;
              path \<leftarrow> hashpath (n div 2) ((s_msg s + 1) div 2) [];
              ps \<leftarrow> read_hashes f (msgl_seek (s_msg s) htot) path;
              let hs = hs @ ps;
              let nhash = hashpathrun sha [] hs;
              if nhash \<noteq> s_msghash s then Some (False, hs, s)
              else Some (addhash sha nhash (s_minhash s) = s_nowhash s, hs @ [s_minhash s], s)
            }
          }))"

section \<open>The list comes back\<close>

text \<open>A message as the list keeps it, and its key.\<close>

definition listed :: "message \<Rightarrow> u16 \<times> u32 \<times> bytes" where
  "listed m = (mg_svid m, mg_msid m, mg_sigh m)"

definition msgl_message :: "u16 \<Rightarrow> u32 \<Rightarrow> message \<Rightarrow> message" where
  "msgl_message mysvid now m = (let m = the (message_get (mg_svid m) (mg_msid m) (mg_sigh m) mysvid now)
     in m\<lparr>mg_status := mg_status m OR MSGSTAT_VAL\<rparr>)"

definition msgl_ok :: "u16 \<Rightarrow> u32 \<Rightarrow> message list \<Rightarrow> bool" where
  "msgl_ok mysvid now msgs \<longleftrightarrow> length msgs < 65536 \<and>
     (\<forall>m \<in> set msgs. length (mg_sigh m) = 32 \<and> mg_sigh m \<noteq> replicate 32 0xff) \<and>
     sorted_wrt (<) (map (\<lambda>m. hash_num (msgl_message mysvid now m)) msgs)"

lemma msgl_entry_read:
  assumes "length (mg_sigh m) = 32" and "length a = k"
  shows "rdw k 2 (a @ msgl_entry m @ r) = Some (mg_svid m)"
    and "rdw (k + 2) 4 (a @ msgl_entry m @ r) = Some (mg_msid m)"
    and "rd (k + 6) 32 (a @ msgl_entry m @ r) = Some (mg_sigh m)"
  using assms by (auto simp: msgl_entry_def rdw_def rd_def le_word_le_bytes)

lemma message_get_ok:
  assumes "length (mg_sigh m) = 32" and "mg_sigh m \<noteq> replicate 32 0xff"
  shows "\<exists>m'. message_get (mg_svid m) (mg_msid m) (mg_sigh m) mysvid now = Some m'"
  using assms by (auto simp: message_get_def message0_def hashval_def Let_def)

lemma msgl_message_kept:
  assumes "length (mg_sigh m) = 32" and "mg_sigh m \<noteq> replicate 32 0xff"
  shows "listed (msgl_message mysvid now m) = listed m"
    and "mg_status (msgl_message mysvid now m) AND MSGSTAT_VAL \<noteq> 0" and "mg_path (msgl_message mysvid now m) = now"
  using assms by (auto simp: msgl_message_def message_get_def message0_def hashval_def Let_def listed_def)

lemma length_msgl_entry [simp]: "length (mg_sigh m) = 32 \<Longrightarrow> length (msgl_entry m) = 38"
  by (simp add: msgl_entry_def)

lemma length_entries:
  "\<forall>m \<in> set msgs. length (mg_sigh m) = 32 \<Longrightarrow> length (concat (map msgl_entry msgs)) = 38 * length msgs"
  by (induction msgs) auto

text \<open>A step at the position of a message adds that message.\<close>

lemma msgl_step_entry:
  assumes "length h = 32" and "\<forall>m \<in> set ms. length (mg_sigh m) = 32"
    and m: "length (mg_sigh m) = 32" "mg_sigh m \<noteq> replicate 32 0xff"
  shows "msgl_step mysvid now (h @ concat (map msgl_entry ms) @ msgl_entry m @ r) (length ms) mp =
    Some (m_upd (hash_num (msgl_message mysvid now m)) (msgl_message mysvid now m) mp)"
proof -
  have "length (h @ concat (map msgl_entry ms)) = 32 + 38 * length ms"
    using assms(1,2) by (simp add: length_entries)
  note rds = msgl_entry_read [OF m(1) this, of r, unfolded append_assoc]
  obtain m' where "message_get (mg_svid m) (mg_msid m) (mg_sigh m) mysvid now = Some m'"
    using message_get_ok [OF m] by blast
  then show ?thesis by (simp only: msgl_step_def rds msgl_message_def Let_def bind.bind_lunit option.sel)
qed

lemma msgl_loop:
  assumes "length h = 32" and "\<forall>m \<in> set (ms @ ms'). length (mg_sigh m) = 32 \<and> mg_sigh m \<noteq> replicate 32 0xff"
    and "sorted_wrt (<) (map (\<lambda>m. hash_num (msgl_message mysvid now m)) (ms @ ms'))"
  shows "ofold (msgl_step mysvid now (h @ concat (map msgl_entry (ms @ ms')))) [0..<length ms] [] =
    Some (map (\<lambda>m. (hash_num (msgl_message mysvid now m), msgl_message mysvid now m)) ms)"
  using assms(2,3)
proof (induction ms arbitrary: ms' rule: rev_induct)
  case (snoc m ms)
  have IH: "ofold (msgl_step mysvid now (h @ concat (map msgl_entry (ms @ m # ms')))) [0..<length ms] [] =
      Some (map (\<lambda>m. (hash_num (msgl_message mysvid now m), msgl_message mysvid now m)) ms)"
    using snoc.IH [of "m # ms'"] snoc.prems by simp
  have "msgl_step mysvid now (h @ concat (map msgl_entry (ms @ m # ms'))) (length ms) mp =
      Some (m_upd (hash_num (msgl_message mysvid now m)) (msgl_message mysvid now m) mp)" for mp
    using msgl_step_entry [OF assms(1), of ms m] snoc.prems by simp
  moreover have "\<forall>m' \<in> set ms. hash_num (msgl_message mysvid now m') < hash_num (msgl_message mysvid now m)"
    using snoc.prems(2) by (simp add: sorted_wrt_append)
  ultimately show ?case using IH by (simp add: ofold_append m_upd_last)
qed simp

lemma block_file_le4: "block_file (Some (le_bytes 4 w @ r)) = Some (le_bytes 4 w @ r)"
proof (cases "le_bytes 4 w @ r")
  case Nil
  then have "length (le_bytes 4 w) = 0" by simp
  then show ?thesis by simp
qed (simp add: block_file_def)

lemma msgl_put_file:
  assumes "msgl_put sha msgs cmp (s, d) = Some (True, s', d')"
  shows "\<exists>r. d_msl d' (s_now s) = Some (le_bytes 4 (s_msg s') @ s_msghash s' @ concat (map msgl_entry msgs) @ r)"
    and "s_now s' = s_now s" and "s_msg s' = of_nat (length msgs)" and "s_msghash s' = tree_root sha (map mg_sigh msgs)"
    and "cmp \<noteq> None \<Longrightarrow> cmp = Some (s_msghash s')"
  using assms
  by (auto simp: msgl_put_def Let_def overwrite_bytes_def tree_root_def bind_eq_Some_conv split: if_splits prod.splits option.splits)

text \<open>C19: the message list of a block comes back: what \<open>msgl_put\<close> writes for the messages of a block,
  \<open>msgl_load\<close> accepts against the count and the hash of the header and turns into the same messages,
  by server, message number and hash, each under its key and in the same order.\<close>

theorem msgl_load_put:
  assumes put: "msgl_put sha msgs cmp (s, d) = Some (True, s', d')" and ok: "msgl_ok mysvid (s_now s) msgs"
    and sha: "\<And>x. length (sha x) = 32"
  shows "\<exists>mp. msgl_load mysvid s' d' [] = Some (True, mp) \<and> map (listed \<circ> snd) mp = map listed msgs \<and>
    (\<forall>(k, m) \<in> set mp. k = hash_num m \<and> mg_status m AND MSGSTAT_VAL \<noteq> 0 \<and> mg_path m = s_now s)"
proof -
  let ?h = "s_msghash s'" and ?e = "concat (map msgl_entry msgs)" and ?n = "length msgs"
  have len: "?n < 65536" and sg: "\<forall>m \<in> set msgs. length (mg_sigh m) = 32 \<and> mg_sigh m \<noteq> replicate 32 0xff"
    using ok by (auto simp: msgl_ok_def)
  then have h: "length ?h = 32" and le: "length ?e = 38 * ?n"
    using msgl_put_file(4) [OF put] sha by (auto intro!: length_tree_root length_entries)
  have n: "unat (s_msg s') = ?n" "unat (32 + s_msg s' * 38) = 32 + 38 * ?n" "\<not> 0xffff < s_msg s'"
    using len by (auto simp: msgl_put_file(3) [OF put] unat_word_ariths unat_of_nat word_less_nat_alt)
  obtain r where f: "d_msl d' (s_now s) = Some (le_bytes 4 (s_msg s') @ ?h @ ?e @ r)"
    using msgl_put_file(1) [OF put] by blast
  have get: "msgl_get s' d' = ?h @ ?e"
    using h le by (simp add: msgl_get_def msgl_put_file(2) [OF put] n f block_file_le4)
  have "msgl_map mysvid s' (?h @ ?e) [] =
      Some (map (\<lambda>m. (hash_num (msgl_message mysvid (s_now s) m), msgl_message mysvid (s_now s) m)) msgs)"
    using msgl_loop [OF h, of msgs "[]" mysvid "s_now s"] ok sg n(3)
    by (simp add: msgl_map_def n msgl_put_file(2) [OF put] msgl_ok_def)
  then have "msgl_load mysvid s' d' [] =
      Some (True, map (\<lambda>m. (hash_num (msgl_message mysvid (s_now s) m), msgl_message mysvid (s_now s) m)) msgs)"
    using h le by (simp add: msgl_load_def get n)
  then show ?thesis using sg by (auto simp: msgl_message_kept)
qed

definition demo_entry :: "u16 \<Rightarrow> u32 \<Rightarrow> u8 \<Rightarrow> message" where
  "demo_entry sv ms b = (message0 (\<lambda>_. 0) (replicate 32 b))\<lparr>mg_svid := sv, mg_msid := ms\<rparr>"

definition demo_list :: "message list" where
  "demo_list = [demo_entry 1 7 5, demo_entry 2 3 6, demo_entry 2 4 9]"

theorem msgl_load_put_witness:
  "(case msgl_put (\<lambda>x. take 32 (x @ replicate 32 0)) demo_list None ((servers0 0)\<lparr>s_now := 512\<rparr>, disk0) of
     Some (True, s', d') \<Rightarrow> msgl_ok 3 512 demo_list \<and>
       (\<exists>mp. msgl_load 3 s' d' [] = Some (True, mp) \<and> map (listed \<circ> snd) mp = map listed demo_list)
   | _ \<Rightarrow> False)"
proof -
  let ?sha = "\<lambda>x. take 32 (x @ replicate 32 0) :: bytes" and ?s = "(servers0 0)\<lparr>s_now := 512\<rparr>"
  have "case msgl_put ?sha demo_list None (?s, disk0) of Some (b, s', d') \<Rightarrow> b | None \<Rightarrow> False"
    by (simp add: msgl_put_def demo_list_def demo_entry_def save_mnum_def message0_def Let_def split: prod.splits)
  then obtain s' d' where put: "msgl_put ?sha demo_list None (?s, disk0) = Some (True, s', d')"
    by (auto split: option.splits)
  have "sorted_wrt (<) (map (\<lambda>m. hash_num (msgl_message 3 512 m)) demo_list)" by code_simp
  then have ok: "msgl_ok 3 (s_now ?s) demo_list" by (simp add: msgl_ok_def) (simp add: demo_list_def demo_entry_def message0_def)
  have now: "s_now ?s = 512" by simp
  have sha: "length (?sha x) = 32" for x by (cases "length x < 32") auto
  show ?thesis using msgl_load_put [OF put ok sha] ok unfolding now put by auto
qed

end
