(* ===== verification/Node.thy ===== *)
theory Node
  imports Server_Process Server_Commit Msglist
begin

text \<open>
  The state of a running node: \<open>class server\<close> (\<open>escd/server.hpp\<close>) with its message containers, the
  candidates of an election (\<open>escd/candidate.hpp\<close>) and the flags of the block cycle.  A
  \<open>message_ptr\<close> is shared by several containers, so messages live in \<open>mem\<close> and the containers hold
  addresses.  Locks are left out: a handler runs as one step.  What is sent to other nodes is
  recorded in \<open>sent\<close>.
\<close>

section \<open>Candidates\<close>

record candidate =
  cd_now :: u32
  cd_peer :: u16
  cd_score :: u64
  cd_failed :: bool
  cd_add :: "(u64, bytes) amap"
  cd_del :: "(u64, unit) amap"
  cd_mis :: "(u64, unit) amap"
  cd_peers :: "(u16, unit) amap"

definition make_candidate ::
  "u32 \<Rightarrow> (u64, bytes) amap \<Rightarrow> (u64, unit) amap \<Rightarrow> (u64, unit) amap \<Rightarrow> u16 \<Rightarrow> bool \<Rightarrow> candidate" where
  "make_candidate blk add del mis svid myfailed = \<lparr>cd_now = blk, cd_peer = svid, cd_score = 0, cd_failed = myfailed,
     cd_add = add, cd_del = del, cd_mis = mis, cd_peers = []\<rparr>"

definition cand_accept :: "candidate \<Rightarrow> bool" where
  "cand_accept c \<longleftrightarrow> \<not> cd_failed c \<and> cd_mis c = []"

definition elected_accept :: "candidate \<Rightarrow> bool" where
  "elected_accept c \<longleftrightarrow> cd_mis c = []"

text \<open>A key without the type and the first byte of the hash: server and message number.\<close>

definition svid_msid :: "u64 \<Rightarrow> u64" where
  "svid_msid k = k AND 0xFFFFFFFFFFFF0000"

definition cand_update :: "message \<Rightarrow> candidate \<Rightarrow> candidate option" where
  "cand_update m c =
    (let k = svid_msid (hash_num m) in
     if m_get (cd_mis c) k = None then Some c
     else do {
       h \<leftarrow> m_get (cd_add c) k;
       Some (if h = mg_sigh m then c\<lparr>cd_mis := m_del k (cd_mis c)\<rparr> else c)
     })"

definition get_missing :: "candidate \<Rightarrow> u64 list" where
  "get_missing c = map fst (cd_mis c)"

definition del_missing :: "u64 \<Rightarrow> candidate \<Rightarrow> candidate" where
  "del_missing k c = c\<lparr>cd_mis := m_del k (cd_mis c)\<rparr>"

section \<open>State\<close>

datatype net_event =
    Update_all nat
  | Deliver nat u16
  | Stop_all bytes
  | Restart
  | Shutdown

record escd =
  e_srv :: server
  mem :: "message list"
  txs_msgs :: "(u64, nat) amap"
  ldc_msgs :: "(u64, nat) amap"
  cnd_msgs :: "(u64, nat) amap"
  blk_msgs :: "(u64, nat) amap"
  dbl_msgs :: "(u64, nat) amap"
  missing_msgs :: "(u64, nat) amap"
  check_msgs :: "nat list"
  wait_msgs :: "nat list"
  sign_msgs :: "nat list"
  bad_msgs :: "(bytes, nat) amap"
  candidates :: "(bytes, candidate) amap"
  electors :: "(u16, u64) amap"
  votes_max :: u64
  do_vote :: nat
  do_block :: nat
  winner :: "bytes option"
  last_block :: u32
  last_svid_msgs :: "(u16, nat) amap"
  last_all_msgs :: "(u64, nat) amap"
  last_final_msgs :: "(u64, nat) amap"
  panic :: bool
  office_readonly :: bool
  opt_init :: bool
  opt_back :: bool
  my_msid :: u32
  my_msha :: bytes
  sent :: "net_event list"

abbreviation e_srvs :: "escd \<Rightarrow> servers" where
  "e_srvs e \<equiv> srvs (e_srv e)"

abbreviation e_last :: "escd \<Rightarrow> servers" where
  "e_last e \<equiv> last_srvs (e_srv e)"

abbreviation e_svid :: "escd \<Rightarrow> u16" where
  "e_svid e \<equiv> my_svid (e_srv e)"

definition msg_at :: "escd \<Rightarrow> nat \<Rightarrow> message option" where
  "msg_at e a = (if a < length (mem e) then Some (mem e ! a) else None)"

definition put_msg :: "nat \<Rightarrow> message \<Rightarrow> escd \<Rightarrow> escd" where
  "put_msg a m e = e\<lparr>mem := (mem e)[a := m]\<rparr>"

definition new_msg :: "message \<Rightarrow> escd \<Rightarrow> nat \<times> escd" where
  "new_msg m e = (length (mem e), e\<lparr>mem := mem e @ [m]\<rparr>)"

definition on_msg :: "(message \<Rightarrow> message) \<Rightarrow> nat \<Rightarrow> escd \<Rightarrow> escd option" where
  "on_msg f a e = do { m \<leftarrow> msg_at e a; Some (put_msg a (f m) e) }"

definition send :: "net_event \<Rightarrow> escd \<Rightarrow> escd" where
  "send ev e = e\<lparr>sent := sent e @ [ev]\<rparr>"

definition set_dsk :: "disk \<Rightarrow> escd \<Rightarrow> escd" where
  "set_dsk d e = e\<lparr>e_srv := (e_srv e)\<lparr>dsk := d\<rparr>\<rparr>"

definition on_servers :: "(servers \<Rightarrow> servers) \<Rightarrow> escd \<Rightarrow> escd" where
  "on_servers f e = e\<lparr>e_srv := (e_srv e)\<lparr>srvs := f (srvs (e_srv e))\<rparr>\<rparr>"

text \<open>Operations of a message on its files.\<close>

definition msg_save :: "nat \<Rightarrow> escd \<Rightarrow> (nat \<times> escd) option" where
  "msg_save a e = do {
     m \<leftarrow> msg_at e a;
     (r, m, d) \<leftarrow> save m (dsk (e_srv e));
     Some (r, set_dsk d (put_msg a m e))
   }"

definition msg_move :: "u32 \<Rightarrow> nat \<Rightarrow> escd \<Rightarrow> escd option" where
  "msg_move path a e = do {
     m \<leftarrow> msg_at e a;
     (m, d) \<leftarrow> move path m (dsk (e_srv e));
     Some (set_dsk d (put_msg a m e))
   }"

definition msg_load :: "u16 \<Rightarrow> nat \<Rightarrow> escd \<Rightarrow> (u32 \<times> escd) option" where
  "msg_load who a e = do {
     m \<leftarrow> msg_at e a;
     (r, m) \<leftarrow> load who (dsk (e_srv e)) m;
     Some (r, put_msg a m e)
   }"

definition office_set :: "bool \<Rightarrow> escd \<Rightarrow> escd option" where
  "office_set ro e = (if has_office (e_srv e) then Some (e\<lparr>office_readonly := ro\<rparr>) else None)"

section \<open>Looking up messages\<close>

text \<open>\<open>lower_bound\<close> and the walk from there.\<close>

definition m_from :: "'k::linorder \<Rightarrow> ('k, 'v) amap \<Rightarrow> ('k, 'v) amap" where
  "m_from k xs = dropWhile (\<lambda>(k', _). k' < k) xs"

fun svidmsid_scan :: "escd \<Rightarrow> u16 \<Rightarrow> u32 \<Rightarrow> nat option \<Rightarrow> (u64, nat) amap \<Rightarrow> nat option option" where
  "svidmsid_scan e svid msid me [] = Some me"
| "svidmsid_scan e svid msid me ((_, a) # xs) = do {
     m \<leftarrow> msg_at e a;
     if mg_svid m = svid \<and> mg_msid m = msid then
       (if mg_status m AND MSGSTAT_COM \<noteq> 0 then Some (Some a)
        else svidmsid_scan e svid msid (if mg_status m AND MSGSTAT_DAT \<noteq> 0 \<or> me = None then Some a else me) xs)
     else Some me
   }"

definition message_svidmsid :: "u16 \<Rightarrow> u32 \<Rightarrow> escd \<Rightarrow> nat option option" where
  "message_svidmsid svid msid e =
     svidmsid_scan e svid msid None (m_from (le_word (head_bytes 0 0 msid svid)) (txs_msgs e))"

text \<open>The walk of \<open>message_find\<close> over the messages with the key of \<open>m\<close>; \<open>chk\<close> compares the hash byte.\<close>

fun find_scan :: "escd \<Rightarrow> u16 \<Rightarrow> bool \<Rightarrow> message \<Rightarrow> (u64, nat) amap \<Rightarrow> nat option option" where
  "find_scan e svid chk m [] = Some None"
| "find_scan e svid chk m ((k, a) # xs) =
    (if k AND 0xFFFFFFFFFFFFFF00 = hash_num m AND 0xFFFFFFFFFFFFFF00 then do {
       x \<leftarrow> msg_at e a;
       if \<not> mg_len x > 4 + 64 then find_scan e svid chk m xs
       else if \<not> chk then Some (Some a)
       else do {
         v \<leftarrow> hashval svid x;
         if mg_hash m ! 0 = v then Some (Some a) else find_scan e svid chk m xs
       }
     } else Some None)"

definition message_find :: "message \<Rightarrow> u16 \<Rightarrow> escd \<Rightarrow> nat option option" where
  "message_find m svid e = do {
     d \<leftarrow> mg_data m;
     ty \<leftarrow> rdw 0 1 d;
     let k = hash_num m AND 0xFFFFFFFFFFFFFF00;
     if ty = MSGTYPE_GET then find_scan e svid True m (m_from k (txs_msgs e))
     else if ty = MSGTYPE_CNG then find_scan e svid True m (m_from k (cnd_msgs e))
     else if ty = MSGTYPE_BLG then find_scan e svid True m (m_from k (blk_msgs e))
     else if ty = MSGTYPE_DBG then find_scan e svid False m (m_from k (dbl_msgs e))
     else Some None
   }"

definition known_dbl :: "u16 \<Rightarrow> escd \<Rightarrow> bool" where
  "known_dbl svid e \<longleftrightarrow> m_get (dbl_srvs (e_srv e)) svid \<noteq> None"

definition known_elector :: "u16 \<Rightarrow> escd \<Rightarrow> bool" where
  "known_elector svid e \<longleftrightarrow> m_get (electors e) svid \<noteq> None"

section \<open>Missing messages\<close>

definition missing_msgs_erase :: "message \<Rightarrow> escd \<Rightarrow> escd" where
  "missing_msgs_erase m e = e\<lparr>missing_msgs := m_del (hash_num m) (missing_msgs e)\<rparr>"

definition missing_msgs_insert :: "nat \<Rightarrow> escd \<Rightarrow> escd option" where
  "missing_msgs_insert a e = do {
     m \<leftarrow> msg_at e a;
     Some (if mg_msid m = 0xFFFFFFFF then e else e\<lparr>missing_msgs := m_upd (hash_num m) a (missing_msgs e)\<rparr>)
   }"

definition missing_sent_remove :: "u16 \<Rightarrow> escd \<Rightarrow> escd option" where
  "missing_sent_remove svid e = ofold (\<lambda>(_, a). on_msg (know_sent_erase svid) a) (missing_msgs e) e"

definition need_bank :: "u16 \<Rightarrow> escd \<Rightarrow> u64" where
  "need_bank bank e =
    (let h = le_word (head_bytes 0 MSGTYPE_USR (s_now (e_last e)) bank)
     in if m_get (missing_msgs e) h \<noteq> None then h else 0)"

definition have_bank :: "u64 \<Rightarrow> escd \<Rightarrow> escd" where
  "have_bank hnum e = e\<lparr>missing_msgs := m_del hnum (missing_msgs e)\<rparr>"

end
