(* ===== verification/Message_Store.thy ===== *)
theory Message_Store
  imports Node
begin

text \<open>
  How a node takes in messages: \<open>message_insert\<close> and what it calls in \<open>escd/server.cpp\<close>, the
  containers of known, missing, bad and double messages, the votes of the electors and the
  signatures under a block.  \<open>tm\<close> is a reading of the clock.
\<close>

section \<open>Bad messages\<close>

definition srv_bad_insert :: "nat \<Rightarrow> escd \<Rightarrow> escd option" where
  "srv_bad_insert a e = do {
     m \<leftarrow> msg_at e a;
     if mg_status m AND MSGSTAT_BAD \<noteq> 0 then None
     else case m_get (bad_msgs e) (mg_sigh m) of
       None \<Rightarrow> do {
         e \<leftarrow> (if mg_status m AND MSGSTAT_SAV \<noteq> 0 then do {
             (_, m, d) \<leftarrow> bad_insert m (dsk (e_srv e));
             Some (set_dsk d (put_msg a m e))
           } else do {
             (_, e) \<leftarrow> msg_save a (put_msg a (m\<lparr>mg_status := mg_status m OR MSGSTAT_BAD\<rparr>) e);
             Some e
           });
         Some (e\<lparr>bad_msgs := m_upd (mg_sigh m) a (bad_msgs e)\<rparr>)
       }
     | Some b \<Rightarrow>
         if mg_status m AND MSGSTAT_SAV \<noteq> 0 then None
         else do {
           let e = put_msg a (m\<lparr>mg_status := mg_status m OR MSGSTAT_BAD\<rparr>) e;
           x \<leftarrow> msg_at e b;
           Some (if mg_status m AND MSGSTAT_SIG = 0 \<and> mg_status x AND MSGSTAT_SIG \<noteq> 0
             then put_msg b (x\<lparr>mg_status := mg_status x AND NOT MSGSTAT_SIG\<rparr>) e else e)
         }
   }"

definition srv_bad_recover :: "nat \<Rightarrow> escd \<Rightarrow> escd option" where
  "srv_bad_recover a e = do {
     m \<leftarrow> msg_at e a;
     let e = e\<lparr>bad_msgs := m_del (mg_sigh m) (bad_msgs e)\<rparr>;
     if mg_status m AND MSGSTAT_SAV \<noteq> 0 then do {
       (_, m, d) \<leftarrow> bad_recover m (dsk (e_srv e));
       Some (set_dsk d (put_msg a m e))
     } else do {
       let m = m\<lparr>mg_status := mg_status m AND NOT MSGSTAT_BAD\<rparr>;
       let m = (if mg_path m = 0 then m\<lparr>mg_path := last_block e\<rparr> else m);
       (_, e) \<leftarrow> msg_save a (put_msg a m e);
       Some e
     }
   }"

section \<open>Double spends\<close>

definition double_spend :: "nat \<Rightarrow> escd \<Rightarrow> escd option" where
  "double_spend a e = do {
     m \<leftarrow> msg_at e a;
     n \<leftarrow> node_at (e_last e) (mg_svid m);
     if n_msid n \<ge> mg_msid m then Some e
     else Some (send (Update_all a) (e\<lparr>e_srv := (e_srv e)\<lparr>dbl_srvs := set_add (mg_svid m) (dbl_srvs (e_srv e))\<rparr>\<rparr>))
   }"

text \<open>The hash before the two messages, or \<open>Some None\<close> when the message before them is not known.\<close>

definition dbl_msha :: "message \<Rightarrow> node \<Rightarrow> escd \<Rightarrow> bytes option option" where
  "dbl_msha m n e =
    (if mg_msid m = 1 \<or> mg_msid m - 1 = n_msid n then Some (Some (n_msha n))
     else do {
       pre \<leftarrow> message_svidmsid (mg_svid m) (mg_msid m - 1) e;
       case pre of None \<Rightarrow> Some None
       | Some p \<Rightarrow> do {
           x \<leftarrow> msg_at e p;
           Some (if mg_status x AND (MSGSTAT_DAT OR MSGSTAT_VAL) = 0 then None else Some (mg_sigh x))
         }
     })"

definition dbl_message :: "u32 \<Rightarrow> u16 \<Rightarrow> bytes \<Rightarrow> message \<Rightarrow> message \<Rightarrow> message option" where
  "dbl_message tm peer msha m1 m2 = do {
     d1 \<leftarrow> mg_data m1;
     d2 \<leftarrow> mg_data m2;
     b1 \<leftarrow> rd 0 (unat (mg_len m1)) d1;
     b2 \<leftarrow> rd 0 (unat (mg_len m2)) d2;
     let len = 4 + 32 + mg_len m1 + mg_len m2;
     let m = (message_alloc (\<lambda>_. 0) [] len)\<lparr>mg_data := Some ([MSGTYPE_DBL] @ take 3 (le_bytes 4 len) @ msha @ b1 @ b2),
       mg_msid := mg_msid m1, mg_svid := mg_svid m1, mg_now := tm, mg_peer := peer\<rparr>;
     Some (null_signature (m\<lparr>mg_hash := dohash_dbl m\<rparr>))
   }"

definition create_double_spend_proof :: "u32 \<Rightarrow> nat \<Rightarrow> nat \<Rightarrow> escd \<Rightarrow> escd option" where
  "create_double_spend_proof tm a1 a2 e = do {
     m1 \<leftarrow> msg_at e a1;
     m2 \<leftarrow> msg_at e a2;
     if mg_svid m1 \<noteq> mg_svid m2 \<or> mg_msid m1 \<noteq> mg_msid m2 \<or> mg_sigh m1 = mg_sigh m2 \<or> do_sync (e_srv e)
        \<or> mg_svid m2 = e_svid e then None
     else if known_dbl (mg_svid m2) e then Some e
     else do {
       n \<leftarrow> node_at (e_last e) (mg_svid m1);
       if mg_msid m1 \<le> n_msid n then Some e
       else do {
         (_, e) \<leftarrow> msg_load 0xffff a1 e;
         (_, e) \<leftarrow> msg_load 0xffff a2 e;
         m1 \<leftarrow> msg_at e a1;
         m2 \<leftarrow> msg_at e a2;
         d1 \<leftarrow> mg_data m1;
         d2 \<leftarrow> mg_data m2;
         t1 \<leftarrow> rdw 0 1 d1;
         t2 \<leftarrow> rdw 0 1 d2;
         if (t1 :: u8) \<noteq> t2 then None
         else do {
           pre \<leftarrow> (if t2 = MSGTYPE_MSG then dbl_msha m2 n e else Some (Some (replicate 32 0)));
           case pre of
             None \<Rightarrow> do { e \<leftarrow> on_msg (unload 0xffff) a1 e; on_msg (unload 0xffff) a2 e }
           | Some msha \<Rightarrow> do {
               m \<leftarrow> dbl_message tm (e_svid e) msha m1 m2;
               let (a, e) = new_msg m e;
               e \<leftarrow> on_msg (unload 0xffff) a1 e;
               e \<leftarrow> on_msg (unload 0xffff) a2 e;
               e \<leftarrow> double_spend a (e\<lparr>dbl_msgs := m_upd (hash_num m) a (dbl_msgs e)\<rparr>);
               e \<leftarrow> on_msg (\<lambda>m. m\<lparr>mg_path := s_now (e_srvs e)\<rparr>) a e;
               (_, e) \<leftarrow> msg_save a e;
               Some e
             }
         }
       }
     }
   }"

text \<open>The neighbours of a key in a map.\<close>

definition m_prev :: "'k::linorder \<Rightarrow> ('k, 'v) amap \<Rightarrow> 'v option" where
  "m_prev k xs = (case rev (filter (\<lambda>(k', _). k' < k) xs) of [] \<Rightarrow> None | (_, v) # _ \<Rightarrow> Some v)"

definition m_next :: "'k::linorder \<Rightarrow> ('k, 'v) amap \<Rightarrow> 'v option" where
  "m_next k xs = (case filter (\<lambda>(k', _). k < k') xs of [] \<Rightarrow> None | (_, v) # _ \<Rightarrow> Some v)"

text \<open>One of the two comparisons of \<open>check_dbl\<close>: \<open>None\<close> when the neighbour has another key.\<close>

definition dbl_with :: "u32 \<Rightarrow> nat \<Rightarrow> nat option \<Rightarrow> escd \<Rightarrow> (int \<times> escd) option option" where
  "dbl_with tm a nb e = (case nb of None \<Rightarrow> Some None
   | Some b \<Rightarrow> do {
       m \<leftarrow> msg_at e a;
       x \<leftarrow> msg_at e b;
       if svid_msid (hash_num x) \<noteq> svid_msid (hash_num m) then Some None
       else if mg_len x > header_length \<and> mg_len m > header_length then do {
         e \<leftarrow> srv_bad_insert a e;
         e \<leftarrow> create_double_spend_proof tm b a e;
         Some (Some (-1, e))
       } else Some (Some (1, e))
     })"

definition check_dbl :: "u32 \<Rightarrow> (u64, nat) amap \<Rightarrow> u64 \<Rightarrow> escd \<Rightarrow> (int \<times> escd) option" where
  "check_dbl tm msgs k e = do {
     a \<leftarrow> m_get msgs k;
     m \<leftarrow> msg_at e a;
     if mg_data m = None \<or> m_prev k msgs = Some a \<or> m_next k msgs = Some a then None
     else do {
       r \<leftarrow> dbl_with tm a (m_prev k msgs) e;
       case r of Some r \<Rightarrow> Some r
       | None \<Rightarrow> do {
           r \<leftarrow> dbl_with tm a (m_next k msgs) e;
           Some (case r of Some r \<Rightarrow> r | None \<Rightarrow> (0, e))
         }
     }
   }"

section \<open>Votes and signatures\<close>

definition cnd_validate :: "nat \<Rightarrow> escd \<Rightarrow> escd option" where
  "cnd_validate a e = do {
     m \<leftarrow> msg_at e a;
     if mg_msid m < s_now (e_srvs e) then Some e
     else case m_get (electors e) (mg_svid m) of None \<Rightarrow> Some e
     | Some w \<Rightarrow>
         if w = 0 then Some e
         else do {
           d \<leftarrow> mg_data m;
           h \<leftarrow> rd data_offset 32 d;
           case m_get (candidates e) h of None \<Rightarrow> Some e
           | Some c \<Rightarrow> Some (send (Update_all a)
               ((put_msg a (m\<lparr>mg_status := mg_status m OR MSGSTAT_VAL\<rparr>) e)
                 \<lparr>candidates := m_upd h (c\<lparr>cd_score := cd_score c + w\<rparr>) (candidates e),
                  electors := m_upd (mg_svid m) 0 (electors e)\<rparr>))
         }
   }"

definition blk_validate :: "u32 \<Rightarrow> nat \<Rightarrow> escd \<Rightarrow> escd option" where
  "blk_validate tm a e = do {
     m \<leftarrow> msg_at e a;
     if mg_path m \<noteq> mg_msid m then None
     else if mg_msid m \<noteq> s_now (e_last e) then Some e
     else do {
       n \<leftarrow> node_at (e_last e) (mg_svid m);
       if n_status n AND SERVER_VIP = 0 then Some e
       else do {
         let e = put_msg a (m\<lparr>mg_status := mg_status m OR MSGSTAT_VAL\<rparr>) e;
         d \<leftarrow> mg_data m;
         h \<leftarrow> rd (data_offset + 144) 32 d;
         sig \<leftarrow> rd 4 64 d;
         let (l, dk) = save_signature (s_now (e_last e)) (mg_svid m) sig (h = s_nowhash (e_last e)) (e_last e, dsk (e_srv e));
         let e = send (Update_all a) (e\<lparr>e_srv := (e_srv e)\<lparr>last_srvs := l, dsk := dk\<rparr>\<rparr>);
         e \<leftarrow> (if (s_vok l > s_vtot l div 2 \<or> opt_init e) \<and> e_svid e \<noteq> 0 \<and> tm < s_now (e_srvs e) + BLOCKSEC
           then office_set False (e\<lparr>panic := False\<rparr>) else Some e);
         if s_vno l > s_vtot l div 2 \<and> \<not> opt_init e then do {
           e \<leftarrow> office_set True (e\<lparr>panic := False\<rparr>);
           Some (send Restart (e\<lparr>opt_back := True\<rparr>))
         } else Some e
       }
     }
   }"

section \<open>Inserting messages\<close>

text \<open>\<open>osg->update(msg)\<close> on two messages of the node\<close>

definition update_at :: "nat \<Rightarrow> nat \<Rightarrow> escd \<Rightarrow> escd option" where
  "update_at o1 a e = do {
     x \<leftarrow> msg_at e o1;
     m \<leftarrow> msg_at e a;
     let (x, m) = update_msg x m;
     Some (put_msg a m (put_msg o1 x e))
   }"

definition dbl_insert :: "nat \<Rightarrow> escd \<Rightarrow> (int \<times> escd) option" where
  "dbl_insert a e = do {
     m \<leftarrow> msg_at e a;
     if hashtype m \<noteq> MSGTYPE_DBL then None
     else case m_get (dbl_msgs e) (hash_num m) of
       Some o1 \<Rightarrow> do {
         x \<leftarrow> msg_at e o1;
         if mg_len m > header_length \<and> mg_len x = header_length then do {
           n \<leftarrow> node_at (e_last e) (mg_svid m);
           if n_msid n \<ge> mg_msid m then Some (0, missing_msgs_erase m e)
           else do {
             e \<leftarrow> update_at o1 a e;
             e \<leftarrow> on_msg (\<lambda>x. x\<lparr>mg_path := s_now (e_srvs e)\<rparr>) o1 e;
             (r, e) \<leftarrow> msg_save o1 e;
             if r = 0 then None
             else do {
               let e = missing_msgs_erase m e;
               e \<leftarrow> (if \<not> known_dbl (mg_svid x) e then double_spend o1 e else Some e);
               e \<leftarrow> on_msg (unload (e_svid e)) o1 e;
               Some (1, e)
             }
           }
         } else do { e \<leftarrow> on_msg (know_insert (mg_peer m)) o1 e; Some (0, e) }
       }
     | None \<Rightarrow>
         if mg_len m = header_length then do {
           e \<leftarrow> missing_msgs_insert a (e\<lparr>dbl_msgs := m_upd (hash_num m) a (dbl_msgs e)\<rparr>);
           Some (1, e)
         } else Some (-1, e)
   }"

text \<open>What the inserts return after a double spend.\<close>

definition dbl_result :: "u16 \<Rightarrow> escd \<Rightarrow> int \<times> escd" where
  "dbl_result svid e = (if known_dbl svid e then 1 else -1, e)"

definition cnd_insert :: "u32 \<Rightarrow> nat \<Rightarrow> escd \<Rightarrow> (int \<times> escd) option" where
  "cnd_insert tm a e = do {
     m \<leftarrow> msg_at e a;
     let k = hash_num m;
     if hashtype m \<noteq> MSGTYPE_CND then None
     else case m_get (cnd_msgs e) k of
       Some o1 \<Rightarrow> do {
         x \<leftarrow> msg_at e o1;
         if mg_len m > header_length \<and> mg_len x = header_length then do {
           e \<leftarrow> update_at o1 a e;
           e \<leftarrow> on_msg (\<lambda>x. x\<lparr>mg_path := mg_msid x\<rparr>) o1 e;
           if mg_msid x > last_block e then Some (0, e)
           else do {
             (r, e) \<leftarrow> check_dbl tm (cnd_msgs e) k (missing_msgs_erase m e);
             if r < 0 then Some (dbl_result (mg_svid m) e)
             else do { e \<leftarrow> cnd_validate o1 e; Some (1, e) }
           }
         } else do { e \<leftarrow> on_msg (know_insert (mg_peer m)) o1 e; Some (0, e) }
       }
     | None \<Rightarrow>
         if mg_len m = header_length then do {
           e \<leftarrow> missing_msgs_insert a (e\<lparr>cnd_msgs := m_upd k a (cnd_msgs e)\<rparr>);
           (r, e) \<leftarrow> check_dbl tm (cnd_msgs e) k e;
           Some (if r \<noteq> 0 then dbl_result (mg_svid m) e else (1, e))
         }
         else if mg_svid m = e_svid e then
           if mg_peer m \<noteq> mg_svid m then None
           else do {
             e \<leftarrow> on_msg (\<lambda>m. m\<lparr>mg_path := mg_msid m\<rparr>) a (e\<lparr>cnd_msgs := m_upd k a (cnd_msgs e)\<rparr>);
             e \<leftarrow> cnd_validate a e;
             Some (1, e)
           }
         else Some (-1, e)
   }"

definition blk_insert :: "u32 \<Rightarrow> nat \<Rightarrow> escd \<Rightarrow> (int \<times> escd) option" where
  "blk_insert tm a e = do {
     m \<leftarrow> msg_at e a;
     let k = hash_num m;
     if hashtype m \<noteq> MSGTYPE_BLK then None
     else case m_get (blk_msgs e) k of
       Some o1 \<Rightarrow> do {
         x \<leftarrow> msg_at e o1;
         if mg_len m > header_length \<and> mg_len x = header_length then do {
           e \<leftarrow> update_at o1 a e;
           e \<leftarrow> on_msg (\<lambda>x. x\<lparr>mg_path := mg_msid x\<rparr>) o1 e;
           (r, e) \<leftarrow> check_dbl tm (blk_msgs e) k (missing_msgs_erase m e);
           if r < 0 then Some (dbl_result (mg_svid m) e)
           else do { e \<leftarrow> blk_validate tm o1 e; Some (1, e) }
         } else do { e \<leftarrow> on_msg (know_insert (mg_peer m)) o1 e; Some (0, e) }
       }
     | None \<Rightarrow>
         if mg_len m = header_length then do {
           e \<leftarrow> missing_msgs_insert a (e\<lparr>blk_msgs := m_upd k a (blk_msgs e)\<rparr>);
           (r, e) \<leftarrow> check_dbl tm (blk_msgs e) k e;
           Some (if r \<noteq> 0 then dbl_result (mg_svid m) e else (1, e))
         }
         else if mg_svid m = e_svid e \<and> mg_peer m \<noteq> mg_svid m then None
         else if mg_svid m = e_svid e \<or> mg_svid m = mg_peer m then do {
           e \<leftarrow> on_msg (\<lambda>m. m\<lparr>mg_path := mg_msid m\<rparr>) a (e\<lparr>blk_msgs := m_upd k a (blk_msgs e)\<rparr>);
           e \<leftarrow> blk_validate tm a e;
           Some (1, e)
         }
         else Some (-1, e)
   }"

text \<open>A full message is queued for validation, or waits for the next block.\<close>

definition txs_queue :: "nat \<Rightarrow> escd \<Rightarrow> escd option" where
  "txs_queue a e = do {
     m \<leftarrow> msg_at e a;
     Some (if mg_now m \<ge> s_now (e_srvs e) + BLOCKSEC then e\<lparr>wait_msgs := wait_msgs e @ [a]\<rparr>
       else e\<lparr>check_msgs := check_msgs e @ [a]\<rparr>)
   }"

definition txs_full :: "u32 \<Rightarrow> nat \<Rightarrow> nat \<Rightarrow> escd \<Rightarrow> (int \<times> escd) option" where
  "txs_full tm o1 a e = do {
     m \<leftarrow> msg_at e a;
     x \<leftarrow> msg_at e o1;
     if mg_status x AND MSGSTAT_VAL \<noteq> 0 \<and> mg_sigh x \<noteq> mg_sigh m then do { e \<leftarrow> srv_bad_insert a e; Some (0, e) }
     else do {
       e \<leftarrow> update_at o1 a e;
       e \<leftarrow> on_msg (\<lambda>x. x\<lparr>mg_path := s_now (e_srvs e)\<rparr>) o1 e;
       let e = missing_msgs_erase m e;
       (r, e) \<leftarrow> (if do_sync (e_srv e) then Some (0, e) else check_dbl tm (txs_msgs e) (hash_num m) e);
       if r < 0 then Some (dbl_result (mg_svid m) e)
       else do {
         (r, e) \<leftarrow> msg_save o1 e;
         if r = 0 then None
         else do {
           e \<leftarrow> on_msg (unload (e_svid e)) o1 e;
           e \<leftarrow> txs_queue o1 e;
           Some (1, e)
         }
       }
     }
   }"

definition txs_own :: "nat \<Rightarrow> escd \<Rightarrow> (int \<times> escd) option" where
  "txs_own a e = do {
     m \<leftarrow> msg_at e a;
     e \<leftarrow> on_msg (\<lambda>m. m\<lparr>mg_path := s_now (e_srvs e)\<rparr>) a (e\<lparr>txs_msgs := m_upd (hash_num m) a (txs_msgs e)\<rparr>);
     (r, e) \<leftarrow> msg_save a e;
     if r = 0 \<or> mg_peer m \<noteq> mg_svid m then None
     else do {
       e \<leftarrow> on_msg (unload (e_svid e)) a e;
       e \<leftarrow> (if mg_status m AND MSGSTAT_BAD = 0 then txs_queue a e else Some e);
       Some (1, e)
     }
   }"

definition txs_insert :: "u32 \<Rightarrow> nat \<Rightarrow> escd \<Rightarrow> (int \<times> escd) option" where
  "txs_insert tm a e = do {
     m \<leftarrow> msg_at e a;
     if hashtype m \<noteq> MSGTYPE_MSG then None
     else do {
       n \<leftarrow> node_at (e_last e) (mg_svid m);
       if n_status n AND SERVER_DBL \<noteq> 0 then Some (0, e)
       else case m_get (txs_msgs e) (hash_num m) of
         Some o1 \<Rightarrow> do {
           x \<leftarrow> msg_at e o1;
           if mg_len m > header_length \<and> mg_len x = header_length then txs_full tm o1 a e
           else do { e \<leftarrow> on_msg (know_insert (mg_peer m)) o1 e; Some (0, e) }
         }
       | None \<Rightarrow>
           if mg_len m = header_length then do {
             e \<leftarrow> missing_msgs_insert a (e\<lparr>txs_msgs := m_upd (hash_num m) a (txs_msgs e)\<rparr>);
             (r, e) \<leftarrow> (if do_sync (e_srv e) then Some (0, e) else check_dbl tm (txs_msgs e) (hash_num m) e);
             Some (if r \<noteq> 0 then dbl_result (mg_svid m) e else (1, e))
           }
           else if mg_svid m = e_svid e then txs_own a e
           else Some (-1, e)
     }
   }"

definition message_insert :: "u32 \<Rightarrow> nat \<Rightarrow> escd \<Rightarrow> (int \<times> escd) option" where
  "message_insert tm a e = do {
     m \<leftarrow> msg_at e a;
     if hashtype m = MSGTYPE_MSG then txs_insert tm a e
     else if hashtype m = MSGTYPE_CND then cnd_insert tm a e
     else if hashtype m = MSGTYPE_BLK then blk_insert tm a e
     else if hashtype m = MSGTYPE_DBL then dbl_insert a e
     else Some (-1, e)
   }"

end
