(* ===== verification/Election.thy ===== *)
theory Election
  imports Message_Store
begin

text \<open>
  The election of the list of messages of a block: the poll of the electors, the candidates, the
  count of their votes, and the two ends of it, the list of the messages a node proposes
  (\<open>LAST_block_msgs\<close>) and the list it settles on (\<open>LAST_block_final\<close>); \<open>escd/server.cpp\<close>.
\<close>

abbreviation (input) VOTE_DELAY :: u32 where "VOTE_DELAY \<equiv> 4"
abbreviation (input) MESSAGE_MAXAGE :: u32 where "MESSAGE_MAXAGE \<equiv> 100"

section \<open>The poll\<close>

definition is_elector :: "escd \<Rightarrow> message \<Rightarrow> bool" where
  "is_elector e m \<longleftrightarrow> (case node_at (e_last e) (mg_svid m) of None \<Rightarrow> False
     | Some n \<Rightarrow> n_status n AND SERVER_DBL = 0 \<and> \<not> known_dbl (mg_svid m) e \<and>
         mg_msid m = s_now (e_srvs e) - BLOCKSEC \<and> mg_status m AND MSGSTAT_VAL \<noteq> 0)"

definition elector_set :: "escd \<Rightarrow> (u16, unit) amap option" where
  "elector_set e = do {
     rset \<leftarrow> ofold (\<lambda>(_, a) rset. do {
         m \<leftarrow> msg_at e a;
         Some (if is_elector e m then set_add (mg_svid m) rset else rset)
       }) (blk_msgs e) [];
     if rset \<noteq> [] then Some rset
     else do {
       n0 \<leftarrow> node_at (e_last e) 0;
       Some (if s_now (e_last e) = n_mtim n0 then [(get_vipuno (e_last e), ())] else [])
     }
   }"

definition elector_weight :: "escd \<Rightarrow> u16 \<Rightarrow> int" where
  "elector_weight e sv = sint (n_weight (s_nodes (e_last e) ! unat sv))"

definition elector_score :: "escd \<Rightarrow> u16 \<Rightarrow> u64" where
  "elector_score e sv = ucast (sdiv64 (word_of_int (elector_weight e sv + TOTALMASS)) (2 * (int VIP_MAX + 1)))"

definition elector_step :: "nat \<times> u16 \<Rightarrow> escd \<Rightarrow> escd" where
  "elector_step jsv e = (case jsv of (j, sv) \<Rightarrow>
     e\<lparr>do_vote := (if sv = e_svid e then 1 + j else do_vote e),
       electors := m_upd sv (elector_score e sv) (electors e),
       votes_max := votes_max e + elector_score e sv\<rparr>)"

definition elector_rank :: "escd \<Rightarrow> u16 list \<Rightarrow> u16 list" where
  "elector_rank e svs = sort_key (\<lambda>sv. - elector_weight e sv) svs"

definition prepare_poll :: "escd \<Rightarrow> escd option" where
  "prepare_poll e = do {
     let e = e\<lparr>electors := [], candidates := filter (\<lambda>(_, c). \<not> cd_now c < s_now (e_srvs e)) (candidates e),
       votes_max := 0, do_vote := 0\<rparr>;
     rset \<leftarrow> elector_set e;
     let svs = take VIP_MAX (elector_rank e (map fst rset));
     if (\<exists>sv \<in> set svs. node_at (e_last e) sv = None) then None
     else Some ((fold elector_step (List.enumerate 0 svs) e)\<lparr>winner := None\<rparr>)
   }"

section \<open>Candidates\<close>

text \<open>Whether a candidate leaves out a message that it should not.\<close>

fun del_failed :: "escd \<Rightarrow> u64 list \<Rightarrow> bool option" where
  "del_failed e [] = Some False"
| "del_failed e (k # ks) =
    (let msid = ucast (drop_bit 16 k) :: u32; svid = ucast (drop_bit 48 k) :: u16 in
     if msid = 0xFFFFFFFF then Some True
     else do {
       pm \<leftarrow> message_svidmsid svid msid e;
       case pm of None \<Rightarrow> del_failed e ks
       | Some a \<Rightarrow> do {
           m \<leftarrow> msg_at e a;
           if mg_status m AND (MSGSTAT_DAT OR MSGSTAT_VAL) \<noteq> 0 \<and> mg_got m < s_now (e_srvs e) + BLOCKSEC - MESSAGE_MAXAGE
           then Some True else del_failed e ks
         }
     })"

record cand_lists =
  cl_add :: "(u64, bytes) amap"
  cl_del :: "(u64, unit) amap"
  cl_mis :: "(u64, unit) amap"
  cl_failed :: bool

definition cand_step :: "escd \<Rightarrow> u64 \<times> bytes \<Rightarrow> cand_lists \<Rightarrow> cand_lists option" where
  "cand_step e kh l = (case kh of (k, h) \<Rightarrow>
     if m_get (cl_del l) k \<noteq> None then None
     else case m_get (last_all_msgs e) k of
       Some a \<Rightarrow> do {
         m \<leftarrow> msg_at e a;
         Some (if mg_sigh m = h then l\<lparr>cl_add := m_del k (cl_add l)\<rparr>
           else l\<lparr>cl_mis := set_add k (cl_mis l), cl_del := set_add k (cl_del l)\<rparr>)
       }
     | None \<Rightarrow>
         let msid = ucast (drop_bit 16 k) :: u32; svid = ucast (drop_bit 48 k) :: u16 in
         if msid = 0xFFFFFFFF then Some l
         else case node_at (e_last e) svid of
           None \<Rightarrow> Some (l\<lparr>cl_failed := True, cl_mis := set_add k (cl_mis l)\<rparr>)
         | Some n \<Rightarrow>
             if msid \<le> n_msid n then Some (l\<lparr>cl_failed := True, cl_mis := set_add k (cl_mis l)\<rparr>)
             else do {
               pm \<leftarrow> message_svidmsid svid msid e;
               have \<leftarrow> (case pm of None \<Rightarrow> Some False
                 | Some a \<Rightarrow> do { m \<leftarrow> msg_at e a; Some (mg_status m AND MSGSTAT_COM \<noteq> 0 \<and> mg_sigh m = h) });
               Some (if have then l else l\<lparr>cl_mis := set_add k (cl_mis l)\<rparr>)
             })"

definition save_candidate :: "u32 \<Rightarrow> bytes \<Rightarrow> (u64, bytes) amap \<Rightarrow> (u64, unit) amap \<Rightarrow> u16 \<Rightarrow> escd \<Rightarrow> escd option" where
  "save_candidate blk h add del peer e = (case m_get (candidates e) h of
     None \<Rightarrow> do {
       failed \<leftarrow> del_failed e (map fst del);
       l \<leftarrow> ofold (cand_step e) add \<lparr>cl_add = add, cl_del = del, cl_mis = [], cl_failed = failed\<rparr>;
       let c = make_candidate blk (cl_add l) (cl_del l) (cl_mis l) peer (cl_failed l);
       Some (e\<lparr>candidates := m_upd h c (candidates e)\<rparr>)
     }
   | Some c \<Rightarrow> Some (if peer = 0 then e
       else e\<lparr>candidates := m_upd h (c\<lparr>cd_peers := set_add peer (cd_peers c)\<rparr>) (candidates e)\<rparr>))"

definition known_candidate :: "bytes \<Rightarrow> u16 \<Rightarrow> escd \<Rightarrow> bool \<times> escd" where
  "known_candidate h peer e = (case m_get (candidates e) h of None \<Rightarrow> (False, e)
     | Some c \<Rightarrow> (True, if peer = 0 then e
         else e\<lparr>candidates := m_upd h (c\<lparr>cd_peers := set_add peer (cd_peers c)\<rparr>) (candidates e)\<rparr>))"

definition update_candidates :: "nat \<Rightarrow> escd \<Rightarrow> escd option" where
  "update_candidates a e = (if do_block e = 0 then Some e
     else do {
       m \<leftarrow> msg_at e a;
       cs \<leftarrow> those (map (\<lambda>(h, c). map_option (Pair h) (cand_update m c)) (candidates e));
       Some (e\<lparr>candidates := cs\<rparr>)
     })"

text \<open>The message with the vote for a candidate, followed by its changes to the proposed list.\<close>

definition cnd_data :: "candidate \<Rightarrow> message \<Rightarrow> message option" where
  "cnd_data ca m = (if cd_add ca = [] \<and> cd_del ca = [] then Some m
     else do {
       d \<leftarrow> mg_data m;
       let na = length (cd_add ca); let nd = length (cd_del ca);
       let len = (of_nat (data_offset + 32 + 4 + 4 + na * 38 + nd * 6) :: u32);
       let d = take 1 d @ take 3 (le_bytes 4 len) @ drop 4 d @ le_bytes 4 (of_nat nd :: u32) @ le_bytes 4 (of_nat na :: u32) @
         concat (map (\<lambda>(k, _). drop 2 (le_bytes 8 k)) (cd_del ca)) @
         concat (map (\<lambda>(k, h). drop 2 (le_bytes 8 k) @ h) (cd_add ca));
       Some (m\<lparr>mg_len := len, mg_data := Some d\<rparr>)
     })"

definition write_candidate :: "crypto \<Rightarrow> u32 \<Rightarrow> bytes \<Rightarrow> escd \<Rightarrow> escd option" where
  "write_candidate c tm h e = (if e_svid e = 0 then Some e
     else do {
       let e = e\<lparr>do_vote := 0\<rparr>;
       ca \<leftarrow> m_get (candidates e) h;
       m \<leftarrow> make_message c (\<lambda>_. 0) [] (dsk (e_srv e)) tm MSGTYPE_CND h (e_svid e) (s_now (e_srvs e))
         (Some (my_skey (e_srv e))) (my_pkey (e_srv e)) [];
       m \<leftarrow> cnd_data ca m;
       let (a, e) = new_msg m e;
       (r, e) \<leftarrow> cnd_insert tm a e;
       if r = 0 then None else Some (send (Update_all a) e)
     })"

end
