(* ===== verification/Block_List.thy ===== *)
theory Block_List
  imports Election
begin

text \<open>
  The list of messages of a block: \<open>LAST_block_msgs\<close>, which collects the messages a node has
  committed, and \<open>LAST_block_final\<close>, which turns them into the list that was elected and sorts out
  every message that is not on it (\<open>escd/server.cpp\<close>).  The text file \<open>delta.txt\<close> is left out.
\<close>

section \<open>The proposed list\<close>

definition message_shash :: "(bytes \<Rightarrow> bytes) \<Rightarrow> (u64, nat) amap \<Rightarrow> escd \<Rightarrow> bytes option" where
  "message_shash sha mp e = do {
     ms \<leftarrow> those (map (\<lambda>(_, a). msg_at e a) mp);
     Some (sha (concat (map mg_sigh ms)))
   }"

record lb =
  lb_svid :: u16
  lb_min :: u32
  lb_now :: u32
  lb_last :: "(u16, nat) amap"
  lb_all :: "(u64, nat) amap"

definition lb_step :: "escd \<Rightarrow> u64 \<times> nat \<Rightarrow> lb \<Rightarrow> lb option" where
  "lb_step e ka l = (case ka of (k, a) \<Rightarrow> do {
     m \<leftarrow> msg_at e a;
     if mg_status m AND MSGSTAT_COM = 0 \<or> mg_status m AND MSGSTAT_VAL \<noteq> 0 then Some l
     else do {
       l \<leftarrow> (if lb_svid l = mg_svid m then Some l
         else do {
           n \<leftarrow> node_at (e_last e) (mg_svid m);
           Some (l\<lparr>lb_svid := mg_svid m, lb_min := n_msid n + 1, lb_now := n_msid n + 1\<rparr>)
         });
       if mg_msid m < lb_min l then Some l
       else if mg_msid m \<noteq> lb_now l then None
       else Some (l\<lparr>lb_now := lb_now l + 1, lb_all := m_upd (svid_msid k) a (lb_all l),
         lb_last := m_upd (lb_svid l) a (lb_last l)\<rparr>)
     }
   })"

definition lb_dbl :: "u64 \<times> nat \<Rightarrow> escd \<Rightarrow> escd option" where
  "lb_dbl ka e = (case ka of (_, a) \<Rightarrow> do {
     m \<leftarrow> msg_at e a;
     n \<leftarrow> node_at (e_last e) (mg_svid m);
     if n_status n AND SERVER_DBL = 0 \<and> known_dbl (mg_svid m) e then do {
       let d = dblhash (mg_svid m) (message0 (\<lambda>_. 0) []);
       let (b, e) = new_msg d e;
       Some (e\<lparr>last_all_msgs := m_upd (hash_num d) b (last_all_msgs e)\<rparr>)
     } else Some e
   })"

definition LAST_block_msgs :: "escd \<Rightarrow> escd option" where
  "LAST_block_msgs e = do {
     l \<leftarrow> ofold (lb_step e) (txs_msgs e) \<lparr>lb_svid = 0, lb_min = 0, lb_now = 0, lb_last = [], lb_all = []\<rparr>;
     e \<leftarrow> ofold lb_dbl (dbl_msgs e) (e\<lparr>last_svid_msgs := lb_last l, last_all_msgs := lb_all l\<rparr>);
     Some (e\<lparr>last_block := s_now (e_srvs e)\<rparr>)
   }"

section \<open>The elected list\<close>

definition mark_dbl :: "u16 \<Rightarrow> escd \<Rightarrow> escd option" where
  "mark_dbl svid e = do {
     n \<leftarrow> node_at (e_srvs e) svid;
     Some (e\<lparr>e_srv := (e_srv e)\<lparr>dbl_srvs := set_add svid (dbl_srvs (e_srv e)),
       srvs := set_node svid (n\<lparr>n_status := n_status n OR SERVER_DBL\<rparr>) (e_srvs e)\<rparr>\<rparr>)
   }"

definition set_status :: "u8 \<Rightarrow> nat \<Rightarrow> escd \<Rightarrow> escd option" where
  "set_status b a e = on_msg (\<lambda>m. m\<lparr>mg_status := mg_status m OR b\<rparr>) a e"

definition keep_step :: "candidate \<Rightarrow> u64 \<times> nat \<Rightarrow> escd \<Rightarrow> escd option" where
  "keep_step w ka e = (case ka of (k, a) \<Rightarrow> do {
     e \<leftarrow> set_status MSGSTAT_VAL a e;
     m \<leftarrow> msg_at e a;
     e \<leftarrow> (if mg_msid m = 0xFFFFFFFF then mark_dbl (mg_svid m) e else Some e);
     if m_get (cd_add w) k \<noteq> None then None
     else Some (e\<lparr>last_final_msgs := m_ins (hash_num m) a (last_final_msgs e)\<rparr>)
   })"

definition add_step :: "u64 \<times> bytes \<Rightarrow> escd \<Rightarrow> escd option" where
  "add_step kh e = (case kh of (k, h) \<Rightarrow> do {
     let msid = ucast (drop_bit 16 k); let svid = ucast (drop_bit 48 k);
     e \<leftarrow> (if msid = 0xFFFFFFFF then mark_dbl svid e else Some e);
     m \<leftarrow> message_get svid msid h (e_svid e) (last_block e);
     let m = m\<lparr>mg_status := mg_status m OR MSGSTAT_VAL\<rparr>;
     let (a, e) = new_msg m e;
     Some (e\<lparr>last_final_msgs := m_upd (hash_num m) a (last_final_msgs e)\<rparr>)
   })"

definition elected_list :: "candidate \<Rightarrow> escd \<Rightarrow> escd option" where
  "elected_list w e = do {
     let tmp = fold (\<lambda>(k, _). m_del k) (cd_del w) (last_all_msgs e);
     e \<leftarrow> ofold (keep_step w) tmp (e\<lparr>last_final_msgs := []\<rparr>);
     ofold add_step (cd_add w) e
   }"

section \<open>Merging the list into the known messages\<close>

definition mark_bad :: "nat \<Rightarrow> escd \<Rightarrow> escd option" where
  "mark_bad a e = do { m \<leftarrow> msg_at e a; if mg_status m AND MSGSTAT_BAD \<noteq> 0 then Some e else srv_bad_insert a e }"

definition to_block :: "nat \<Rightarrow> escd \<Rightarrow> escd option" where
  "to_block a e = do {
     m \<leftarrow> msg_at e a;
     e \<leftarrow> (if mg_path m \<noteq> 0 \<and> mg_path m \<noteq> last_block e then msg_move (last_block e) a e else Some e);
     on_msg (\<lambda>m. m\<lparr>mg_path := last_block e\<rparr>) a e
   }"

text \<open>The messages that compete with the message \<open>lk\<close> of the list, from the front of \<open>tms\<close>.\<close>

fun same_bad :: "u64 \<Rightarrow> (u64, nat) amap \<Rightarrow> escd \<Rightarrow> ((u64, nat) amap \<times> escd) option" where
  "same_bad lk [] e = Some ([], e)"
| "same_bad lk ((tk, ta) # tms) e = (if svid_msid tk \<noteq> svid_msid lk then Some ((tk, ta) # tms, e)
     else do { e \<leftarrow> mark_bad ta e; same_bad lk tms e })"

fun lower_bad :: "u64 \<Rightarrow> (u64, nat) amap \<Rightarrow> escd \<Rightarrow> ((u64, nat) amap \<times> escd) option" where
  "lower_bad lk [] e = Some ([], e)"
| "lower_bad lk ((tk, ta) # tms) e = (if \<not> tk < lk then Some ((tk, ta) # tms, e)
     else do { e \<leftarrow> (if svid_msid tk = svid_msid lk then mark_bad ta e else Some e); lower_bad lk tms e })"

record merge =
  mr_node :: escd
  mr_add :: "(u64, nat) amap"
  mr_recover :: "nat list"

definition merge_new :: "u64 \<Rightarrow> nat \<Rightarrow> (u64, nat) amap \<Rightarrow> merge \<Rightarrow> merge option" where
  "merge_new lk la tms r = do {
     let e = mr_node r;
     e \<leftarrow> (case tms of (tk, ta) # _ \<Rightarrow> if svid_msid tk = svid_msid lk then mark_bad ta e else Some e | [] \<Rightarrow> Some e);
     if m_get (txs_msgs e) lk \<noteq> None then None
     else do { e \<leftarrow> to_block la e; Some (r\<lparr>mr_node := e, mr_add := m_upd lk la (mr_add r)\<rparr>) }
   }"

definition merge_same :: "u64 \<Rightarrow> nat \<Rightarrow> nat \<Rightarrow> merge \<Rightarrow> merge option" where
  "merge_same lk la ta r = do {
     let e = mr_node r;
     l \<leftarrow> msg_at e la;
     t \<leftarrow> msg_at e ta;
     (ta, e) \<leftarrow> (if mg_status t AND MSGSTAT_DAT = 0
         then Some (ta, put_msg ta (t\<lparr>mg_status := mg_status t OR MSGSTAT_VAL, mg_sigh := mg_sigh l\<rparr>) e)
       else if mg_sigh t \<noteq> mg_sigh l then do {
         e \<leftarrow> (if mg_status t AND (MSGSTAT_BAD OR MSGSTAT_DAT) = MSGSTAT_DAT then srv_bad_insert ta e else Some e);
         Some (la, e\<lparr>txs_msgs := m_upd lk la (txs_msgs e)\<rparr>)
       }
       else Some (ta, e));
     t \<leftarrow> msg_at e ta;
     let rec = (if mg_status t AND MSGSTAT_BAD \<noteq> 0 \<and> ta \<notin> set (mr_recover r) then mr_recover r @ [ta] else mr_recover r);
     e \<leftarrow> set_status MSGSTAT_VAL ta e;
     e \<leftarrow> to_block ta e;
     Some (r\<lparr>mr_node := e, mr_recover := rec\<rparr>)
   }"

lemma length_same_bad: "same_bad lk tms e = Some (tms', e') \<Longrightarrow> length tms' \<le> length tms"
  by (induction tms arbitrary: e) (fastforce simp: bind_eq_Some_conv split: if_splits)+

lemma length_lower_bad: "lower_bad lk tms e = Some (tms', e') \<Longrightarrow> length tms' \<le> length tms"
  by (induction tms arbitrary: e) (fastforce simp: bind_eq_Some_conv split: if_splits)+

function merge_loop :: "(u64, nat) amap \<Rightarrow> (u64, nat) amap \<Rightarrow> merge \<Rightarrow> ((u64, nat) amap \<times> merge) option" where
  "merge_loop [] tms r = Some (tms, r)"
| "merge_loop ((lk, la) # lms) [] r = do { r \<leftarrow> merge_new lk la [] r; merge_loop lms [] r }"
| "merge_loop ((lk, la) # lms) ((tk, ta) # tms) r =
    (if lk < tk then do { r \<leftarrow> merge_new lk la ((tk, ta) # tms) r; merge_loop lms ((tk, ta) # tms) r }
     else if lk = tk then do {
       r \<leftarrow> merge_same lk la ta r;
       (tms, e) \<leftarrow> same_bad lk tms (mr_node r);
       merge_loop lms tms (r\<lparr>mr_node := e\<rparr>)
     }
     else do {
       e \<leftarrow> (if svid_msid tk = svid_msid lk then mark_bad ta (mr_node r) else Some (mr_node r));
       (tms, e) \<leftarrow> lower_bad lk tms e;
       merge_loop ((lk, la) # lms) tms (r\<lparr>mr_node := e\<rparr>)
     })"
  by pat_completeness auto
termination
  by (relation "measure (\<lambda>(lms, tms, r). length lms + length tms)") (auto dest!: length_same_bad length_lower_bad)

definition merge_list :: "escd \<Rightarrow> escd option" where
  "merge_list e = do {
     (tms, r) \<leftarrow> merge_loop (last_final_msgs e) (txs_msgs e) \<lparr>mr_node = e, mr_add = [], mr_recover = []\<rparr>;
     e \<leftarrow> (if last_final_msgs e = [] then Some (mr_node r)
       else map_option snd (same_bad (fst (last (last_final_msgs e))) tms (mr_node r)));
     let e = e\<lparr>txs_msgs := m_inserts (mr_add r) (txs_msgs e)\<rparr>;
     ofold (\<lambda>a e. do {
       m \<leftarrow> msg_at e a;
       if mg_status m AND MSGSTAT_VAL = 0 then None else srv_bad_recover a e
     }) (mr_recover r) e
   }"

section \<open>Messages that are not on the list\<close>

record clean =
  cn_node :: escd
  cn_svid :: u16
  cn_min :: u32

text \<open>
  A look through an erased iterator is undefined, as is a second erase: both branches that remove a
  message this way have no result.
\<close>

definition cn_erase :: "u64 \<Rightarrow> escd \<Rightarrow> escd" where
  "cn_erase k e = e\<lparr>txs_msgs := m_del k (txs_msgs e)\<rparr>"

definition cn_undo :: "keydir \<Rightarrow> u64 \<Rightarrow> nat \<Rightarrow> escd \<Rightarrow> escd option" where
  "cn_undo kd k a e = do {
     m \<leftarrow> msg_at e a;
     (m, s) \<leftarrow> undo_message kd m (e_srv e);
     let e = put_msg a m (e\<lparr>e_srv := s\<rparr>);
     if mg_now m < s_now (e_srvs e) then do {
       e \<leftarrow> srv_bad_insert a e;
       Some (if mg_svid m = e_svid e then e\<lparr>sign_msgs := a # sign_msgs e\<rparr> else cn_erase k e)
     } else do {
       e \<leftarrow> msg_move (last_block e + BLOCKSEC) a e;
       Some (e\<lparr>wait_msgs := wait_msgs e @ [a]\<rparr>)
     }
   }"

definition cn_queue :: "nat \<Rightarrow> escd \<Rightarrow> escd" where
  "cn_queue a e = e\<lparr>wait_msgs := remove1 a (wait_msgs e), check_msgs := a # check_msgs e\<rparr>"

definition cn_valid :: "u64 \<Rightarrow> nat \<Rightarrow> escd \<Rightarrow> escd option" where
  "cn_valid k a e = do {
     m \<leftarrow> msg_at e a;
     if mg_msid m = 0xFFFFFFFF then do {
       n \<leftarrow> node_at (e_srvs e) (mg_svid m);
       if n_status n AND SERVER_DBL = 0 then None else set_status MSGSTAT_COM a e
     }
     else if mg_status m AND MSGSTAT_DAT \<noteq> 0 then Some (cn_queue a e)
     else
       let miss = e\<lparr>missing_msgs := m_upd (hash_num m) a (missing_msgs e)\<rparr> in
       case m_get (bad_msgs e) (mg_sigh m) of None \<Rightarrow> Some miss
       | Some b \<Rightarrow> do {
           x \<leftarrow> msg_at e b;
           if hash_num x \<noteq> hash_num m then Some miss
           else if mg_status x AND MSGSTAT_DAT = 0 then None
           else do {
             e \<leftarrow> srv_bad_recover b (e\<lparr>txs_msgs := m_upd k b (txs_msgs e)\<rparr>);
             e \<leftarrow> msg_move (last_block e) b e;
             e \<leftarrow> set_status MSGSTAT_VAL b e;
             Some (cn_queue b e)
           }
         }
   }"

definition cn_step :: "keydir \<Rightarrow> u64 \<times> nat \<Rightarrow> clean \<Rightarrow> clean option" where
  "cn_step kd ka r = (case ka of (k, a) \<Rightarrow> do {
     m \<leftarrow> msg_at (cn_node r) a;
     r \<leftarrow> (if mg_svid m = cn_svid r then Some r
       else if length (s_nodes (e_last (cn_node r))) \<le> unat (mg_svid m) then None
       else Some (r\<lparr>cn_svid := mg_svid m, cn_min := 0\<rparr>));
     let e = cn_node r;
     e \<leftarrow> (if mg_msid m \<le> cn_min r then Some (cn_erase k (set_dsk (remove_undo m (dsk (e_srv e))) e))
       else if mg_status m AND MSGSTAT_BAD \<noteq> 0 then None
       else if mg_status m AND MSGSTAT_VAL = 0 \<and> mg_status m AND MSGSTAT_COM \<noteq> 0 then cn_undo kd k a e
       else if mg_status m AND MSGSTAT_VAL = 0 \<and> mg_path m \<noteq> 0 \<and> mg_path m \<le> last_block e then
         (if mg_now m < s_now (e_last e) then None else msg_move (last_block e + BLOCKSEC) a e)
       else if mg_status m AND (MSGSTAT_VAL OR MSGSTAT_COM) = MSGSTAT_VAL then cn_valid k a e
       else Some e);
     Some (r\<lparr>cn_node := e\<rparr>)
   })"

text \<open>The missing messages of the winner that are already committed.\<close>

fun committed_scan :: "escd \<Rightarrow> u64 \<Rightarrow> (u64, nat) amap \<Rightarrow> bool option" where
  "committed_scan e key [] = Some False"
| "committed_scan e key ((_, a) # tms) = do {
     m \<leftarrow> msg_at e a;
     if svid_msid (hash_num m) \<noteq> svid_msid key then Some False
     else if mg_status m AND MSGSTAT_COM \<noteq> 0 then Some True
     else committed_scan e key tms
   }"

definition found_step :: "escd \<Rightarrow> u64 \<Rightarrow> candidate \<Rightarrow> candidate option" where
  "found_step e key w = do {
     r \<leftarrow> committed_scan e key (m_from key (txs_msgs e));
     Some (if r then del_missing key w else w)
   }"

definition LAST_block_final :: "crypto \<Rightarrow> keydir \<Rightarrow> bytes \<Rightarrow> escd \<Rightarrow> escd option" where
  "LAST_block_final c kd cand e = do {
     wk \<leftarrow> winner e;
     w \<leftarrow> m_get (candidates e) wk;
     if s_now (e_srvs e) \<noteq> last_block e then None
     else do {
       e \<leftarrow> elected_list w e;
       e \<leftarrow> merge_list e;
       ms \<leftarrow> those (map (\<lambda>(_, a). msg_at e a) (last_final_msgs e));
       (_, s, d) \<leftarrow> msgl_put (c_sha c) ms None (e_srvs e, dsk (e_srv e));
       let e = e\<lparr>e_srv := (e_srv e)\<lparr>srvs := s, dsk := d\<rparr>\<rparr>;
       h \<leftarrow> message_shash (c_sha c) (last_final_msgs e) e;
       if h \<noteq> cand then None
       else do {
         let e = e\<lparr>wait_msgs := check_msgs e @ wait_msgs e, check_msgs := []\<rparr>;
         r \<leftarrow> ofold (cn_step kd) (rev (txs_msgs e)) \<lparr>cn_node = e, cn_svid = 0, cn_min = 0\<rparr>;
         let e = (cn_node r)\<lparr>e_srv := (e_srv (cn_node r))\<lparr>block_only := True\<rparr>\<rparr>;
         w \<leftarrow> ofold (found_step e) (get_missing w) w;
         Some (e\<lparr>candidates := m_upd wk w (candidates e)\<rparr>)
       }
     }
   }"

end
