(* ===== verification/Block_Cycle.thy ===== *)
theory Block_Cycle
  imports Block_List
begin

text \<open>
  The cycle of a block: the count of the votes, the validation of queued messages, the messages a
  node writes itself and the turn of the clock from one block to the next (\<open>escd/server.cpp\<close>).  The
  validator threads take turns: a round of one of them is a step.
\<close>

section \<open>Counting the votes\<close>

text \<open>The best candidate, the second best and the sum of the votes.\<close>

record count =
  ct_first :: "(bytes \<times> candidate) option"
  ct_second :: "candidate option"
  ct_sum :: u64

definition count_step :: "bytes \<times> candidate \<Rightarrow> count \<Rightarrow> count" where
  "count_step hc r = (case hc of (h, c) \<Rightarrow>
    (let r = r\<lparr>ct_sum := ct_sum r + cd_score c\<rparr> in
     case ct_first r of None \<Rightarrow> r\<lparr>ct_second := None, ct_first := Some (h, c)\<rparr>
     | Some (_, c1) \<Rightarrow>
         if cd_score c > cd_score c1 then r\<lparr>ct_second := Some c1, ct_first := Some (h, c)\<rparr>
         else case ct_second r of None \<Rightarrow> r\<lparr>ct_second := Some c\<rparr>
         | Some c2 \<Rightarrow> if cd_score c > cd_score c2 then r\<lparr>ct_second := Some c\<rparr> else r))"

definition tally :: "(bytes, candidate) amap \<Rightarrow> count" where
  "tally cs = fold count_step cs \<lparr>ct_first = None, ct_second = None, ct_sum = 0\<rparr>"

definition second_score :: "count \<Rightarrow> u64" where
  "second_score r = (case ct_second r of None \<Rightarrow> 0 | Some c2 \<Rightarrow> cd_score c2)"

text \<open>No vote that is still out can change the result.\<close>

definition elected :: "escd \<Rightarrow> bytes \<Rightarrow> bool" where
  "elected e h \<longleftrightarrow> (case ct_first (tally (candidates e)) of None \<Rightarrow> False
     | Some (h1, c1) \<Rightarrow> h1 = h \<and>
         cd_score c1 > second_score (tally (candidates e)) + (votes_max e - ct_sum (tally (candidates e))))"

definition cand_late :: "u32 \<Rightarrow> escd \<Rightarrow> bool" where
  "cand_late now e \<longleftrightarrow> now > s_now (e_srvs e) + BLOCKSEC + BLOCKSEC div 2"

definition vote_late :: "u32 \<Rightarrow> escd \<Rightarrow> bool" where
  "vote_late now e \<longleftrightarrow> do_vote e \<noteq> 0 \<and> now > s_now (e_srvs e) + BLOCKSEC + (of_nat (do_vote e) - 1) * VOTE_DELAY"

definition count_votes :: "crypto \<Rightarrow> keydir \<Rightarrow> u32 \<Rightarrow> u32 \<Rightarrow> bytes \<Rightarrow> escd \<Rightarrow> escd option" where
  "count_votes c kd tm now cand e = (case ct_first (tally (candidates e)) of
     None \<Rightarrow> if vote_late now e then write_candidate c tm cand e else Some e
   | Some (best, c1) \<Rightarrow> do {
       e \<leftarrow> (if do_block e = 1 \<and> (elected e best \<or> cand_late now e) then do {
           e \<leftarrow> (if cand_late now e then office_set True (e\<lparr>panic := True\<rparr>) else Some e);
           LAST_block_final c kd best (e\<lparr>do_block := 2, winner := Some best\<rparr>)
         } else Some e);
       w \<leftarrow> (if do_block e = 2 then do { wk \<leftarrow> winner e; w \<leftarrow> m_get (candidates e) wk; Some (elected_accept w) } else Some False);
       if w then (let e = e\<lparr>do_block := 3\<rparr> in if do_vote e \<noteq> 0 then write_candidate c tm best e else Some e)
       else do {
         c1 \<leftarrow> m_get (candidates e) best;
         if do_vote e \<noteq> 0 \<and> cand_accept c1 \<and> length (cd_peers c1) > 1 then write_candidate c tm best e
         else if vote_late now e then write_candidate c tm cand e
         else Some e
       }
     })"

section \<open>Validation\<close>

definition idle_missing :: "u32 \<Rightarrow> u64 \<times> nat \<Rightarrow> escd \<times> nat list \<Rightarrow> (escd \<times> nat list) option" where
  "idle_missing now ka r = (case ka of (k, a) \<Rightarrow> case r of (e, tmp) \<Rightarrow> do {
     m \<leftarrow> msg_at e a;
     let del = e\<lparr>missing_msgs := m_del k (missing_msgs e)\<rparr>;
     let ty = hashtype m;
     if ty = MSGTYPE_BLK \<or> ty = MSGTYPE_CND then
       Some (if mg_msid m < s_now (e_last e) - BLOCKSEC then (del, tmp)
         else if now > mg_got m + MAX_MSGWAIT \<and>
             (ty = MSGTYPE_BLK \<and> mg_msid m < s_now (e_srvs e) \<or> ty = MSGTYPE_CND \<and> mg_msid m \<le> s_now (e_srvs e))
           then (e, tmp @ [a])
         else (e, tmp))
     else if block_only (e_srv e) then
       (if mg_status m AND MSGSTAT_VAL = 0 then Some (e, tmp)
        else do { n \<leftarrow> node_at (e_srvs e) (mg_svid m); Some (e, if n_msid n = mg_msid m - 1 then tmp @ [a] else tmp) })
     else do {
       n \<leftarrow> node_at (e_srvs e) (mg_svid m);
       Some (if mg_msid m < n_msid n then (del, tmp)
         else (e, if mg_got m \<le> now - MAX_MSGWAIT \<and> n_msid n = mg_msid m - 1 then tmp @ [a] else tmp))
     }
   })"

definition idle_request :: "u32 \<Rightarrow> (nat \<Rightarrow> u64) \<Rightarrow> nat \<Rightarrow> escd \<Rightarrow> escd option" where
  "idle_request now rnd a e = do {
     m \<leftarrow> msg_at e a;
     let (sv, m) = request now (rnd a) m;
     let e = put_msg a m e;
     Some (if sv = 0 then e else send (Deliver a sv) e)
   }"

definition idle_wait :: "nat \<Rightarrow> escd \<times> nat list \<times> nat list \<Rightarrow> (escd \<times> nat list \<times> nat list) option" where
  "idle_wait a r = (case r of (e, keep, tmp) \<Rightarrow> do {
     m \<leftarrow> msg_at e a;
     let want = (if block_only (e_srv e) then mg_status m AND MSGSTAT_VAL \<noteq> 0 else mg_now m < s_now (e_srvs e) + BLOCKSEC);
     next1 \<leftarrow> (if want then do { n \<leftarrow> node_at (e_srvs e) (mg_svid m); Some (n_msid n = mg_msid m - 1) } else Some False);
     Some (if next1 then (e, keep, tmp @ [a]) else (e, keep @ [a], tmp))
   })"

definition validator_idle :: "u32 \<Rightarrow> (nat \<Rightarrow> u64) \<Rightarrow> escd \<Rightarrow> escd option" where
  "validator_idle now rnd e = do {
     (e, tmp) \<leftarrow> ofold (idle_missing now) (missing_msgs e) (e, []);
     e \<leftarrow> ofold (idle_request now rnd) tmp e;
     (e, keep, tmp) \<leftarrow> ofold idle_wait (wait_msgs e) (e, [], []);
     Some (e\<lparr>wait_msgs := keep, check_msgs := check_msgs e @ tmp\<rparr>)
   }"

text \<open>A message that was accepted; the next missing message may be requested at once.\<close>

definition validated :: "u32 \<Rightarrow> nat \<Rightarrow> escd \<Rightarrow> escd option" where
  "validated now a e = do {
     e \<leftarrow> set_status MSGSTAT_COM a e;
     m \<leftarrow> msg_at e a;
     s \<leftarrow> commit_mark m (e_srv e);
     let e = e\<lparr>e_srv := s,
       my_msid := (if mg_svid m = e_svid e \<and> my_msid e < mg_msid m then mg_msid m else my_msid e)\<rparr>;
     e \<leftarrow> (case m_from (hash_num m + 1) (missing_msgs e) of [] \<Rightarrow> Some e
       | (_, b) # _ \<Rightarrow> on_msg (\<lambda>x. if mg_got x > now - MAX_MSGWAIT then x\<lparr>mg_got := now - MAX_MSGWAIT\<rparr> else x) b e);
     m \<leftarrow> msg_at e a;
     e \<leftarrow> (if mg_path m < s_now (e_srvs e) then msg_move (s_now (e_srvs e)) a e else Some e);
     e \<leftarrow> on_msg (unload (e_svid e)) a e;
     if do_sync (e_srv e) then Some (e\<lparr>ldc_msgs := m_del (hash_num m) (ldc_msgs e)\<rparr>)
     else do { e \<leftarrow> update_candidates a e; Some (send (Update_all a) e) }
   }"

definition validate :: "crypto \<Rightarrow> keydir \<Rightarrow> u32 \<Rightarrow> u32 \<Rightarrow> nat \<Rightarrow> escd \<Rightarrow> escd option" where
  "validate c kd tm now a e = do {
     m \<leftarrow> msg_at e a;
     if mg_status m AND MSGSTAT_BAD \<noteq> 0 \<or> mg_status m AND MSGSTAT_COM \<noteq> 0 \<or>
        mg_status m AND MSGSTAT_VAL = 0 \<and> known_dbl (mg_svid m) e then Some e
     else do {
       n \<leftarrow> node_at (e_srvs e) (mg_svid m);
       if n_msid n \<ge> mg_msid m then Some e
       else if n_msid n \<noteq> mg_msid m - 1 \<or> mg_status m AND MSGSTAT_VAL = 0 \<and> block_only (e_srv e)
         then Some (e\<lparr>wait_msgs := wait_msgs e @ [a]\<rparr>)
       else do {
         (r, e) \<leftarrow> msg_load (e_svid e) a e;
         if r = 0 then None
         else do {
           m \<leftarrow> msg_at e a;
           (valid, s) \<leftarrow> process_message c kd tm m (e_srv e);
           let e = e\<lparr>e_srv := s\<rparr>;
           if valid then validated now a e
           else if mg_status m AND MSGSTAT_VAL \<noteq> 0 then None
           else srv_bad_insert a e
         }
       }
     }
   }"

definition validator :: "crypto \<Rightarrow> keydir \<Rightarrow> u32 \<Rightarrow> u32 \<Rightarrow> (nat \<Rightarrow> u64) \<Rightarrow> escd \<Rightarrow> escd option" where
  "validator c kd tm now rnd e = (case check_msgs e of [] \<Rightarrow> validator_idle now rnd e
     | a # as \<Rightarrow> validate c kd tm now a (e\<lparr>check_msgs := as\<rparr>))"

section \<open>Messages of this node\<close>

record options =
  o_ipv4 :: u32
  o_port :: u16
  o_version :: bytes
  o_mins :: int

definition accept_message :: "escd \<Rightarrow> bool option" where
  "accept_message e = (if known_dbl (e_svid e) e then Some False
     else do { n \<leftarrow> node_at (e_srvs e) (e_svid e); Some (my_msid e = n_msid n \<and> n_status n AND SERVER_DBL = 0) })"

text \<open>The inventory sent to a peer: the keys of the messages of the block, by kind.\<close>

definition list_step :: "u8 \<Rightarrow> (message \<Rightarrow> bool) \<Rightarrow> u16 \<Rightarrow> u64 \<times> nat \<Rightarrow> escd \<times> u64 list \<Rightarrow> (escd \<times> u64 list) option" where
  "list_step ty P peer ka r = (case ka of (k, a) \<Rightarrow> case r of (e, out) \<Rightarrow> do {
     m \<leftarrow> msg_at e a;
     if \<not> P m then Some (e, out)
     else do {
       v \<leftarrow> (if ty = MSGTYPE_DBP then Some 0 else hashval peer m);
       Some (put_msg a (sent_erase peer m) e, out @ [le_word ([ty, v] @ drop 2 (le_bytes 8 k))])
     }
   })"

definition update_list :: "u16 \<Rightarrow> escd \<Rightarrow> (escd \<times> u64 list \<times> u64 list \<times> u64 list) option" where
  "update_list peer e = do {
     (e, txs) \<leftarrow> ofold (list_step MSGTYPE_PUT (\<lambda>m. mg_status m AND MSGSTAT_COM \<noteq> 0 \<and> mg_path m = s_now (e_srvs e)) peer)
       (txs_msgs e) (e, []);
     (e, dbl) \<leftarrow> ofold (list_step MSGTYPE_DBP (\<lambda>m. mg_status m AND MSGSTAT_COM \<noteq> 0 \<and> mg_path m = s_now (e_srvs e)) peer)
       (dbl_msgs e) (e, []);
     (e, blk) \<leftarrow> ofold (list_step MSGTYPE_BLP (\<lambda>m. mg_status m AND MSGSTAT_VAL \<noteq> 0 \<and> mg_path m = s_now (e_last e)) peer)
       (blk_msgs e) (e, []);
     Some (e, txs, dbl, blk)
   }"

definition con_data :: "options \<Rightarrow> bytes option" where
  "con_data opt = do {
     v \<leftarrow> rd 0 16 (o_version opt);
     Some ([TXSTYPE_CON] @ le_bytes 2 (o_port opt) @ le_bytes 4 (o_ipv4 opt) @ v)
   }"

definition write_message :: "crypto \<Rightarrow> options \<Rightarrow> u32 \<Rightarrow> bytes \<Rightarrow> escd \<Rightarrow> (u32 \<times> escd) option" where
  "write_message c opt tm line e = (if e_svid e = 0 then None
     else do {
       n \<leftarrow> node_at (e_srvs e) (e_svid e);
       if n_msid n \<noteq> my_msid e \<or> tm - s_now (e_srvs e) > BLOCKSEC - 5 then Some (0, e)
       else do {
         txs \<leftarrow> con_data opt;
         u0 \<leftarrow> fget (d_usr (dsk (e_srv e)) (e_svid e)) 0;
         if slt64 (u_weight u0) (MESSAGE_FEE (of_nat (length txs + length line))) then Some (0, e)
         else do {
           let text = (if take 1 line = [TXSTYPE_CON] then line else line @ txs);
           m \<leftarrow> make_message c (\<lambda>_. 0) [] (dsk (e_srv e)) tm MSGTYPE_MSG text (e_svid e) (my_msid e + 1)
             (Some (my_skey (e_srv e))) (my_pkey (e_srv e)) (n_msha n);
           let (a, e) = new_msg m (e\<lparr>my_msid := my_msid e + 1, my_msha := mg_sigh m\<rparr>);
           (r, e) \<leftarrow> txs_insert tm a e;
           if r = 0 then None else Some (my_msid e, e)
         }
       }
     })"

definition header_bytes :: "header_t \<Rightarrow> bytes" where
  "header_bytes h = le_bytes 4 (h_now h) @ le_bytes 4 (h_msg h) @ le_bytes 4 (h_nod h) @ le_bytes 4 (h_div h) @
     h_oldhash h @ h_msghash h @ h_nodhash h @ h_viphash h @ h_nowhash h @ le_bytes 2 (h_vok h) @ le_bytes 2 (h_vno h)"

definition add_electors :: "crypto \<Rightarrow> u32 \<Rightarrow> header_t \<Rightarrow> (u16 \<times> bytes) list \<Rightarrow> escd \<Rightarrow> escd option" where
  "add_electors c tm head svsi e = (if length svsi < unat (h_vok head) then None
     else ofold (\<lambda>(sv, sig) e. do {
       m \<leftarrow> make_message c (\<lambda>_. 0) [] (dsk (e_srv e)) tm MSGTYPE_BLK (header_bytes head) sv (h_now head) None sig [];
       h \<leftarrow> dohash (e_svid e) m;
       let m = m\<lparr>mg_hash := h, mg_status := mg_status m OR MSGSTAT_VAL, mg_svid := sv, mg_peer := sv, mg_msid := h_now head\<rparr>;
       let (a, e) = new_msg m e;
       (_, e) \<leftarrow> blk_insert tm a e;
       Some e
     }) (take (unat (h_vok head)) svsi) e)"

definition sign_header :: "crypto \<Rightarrow> u32 \<Rightarrow> header_t \<Rightarrow> u16 \<Rightarrow> bytes \<Rightarrow> bytes \<Rightarrow> escd \<Rightarrow> (int \<times> escd) option" where
  "sign_header c tm head sv sk pk e = do {
     m \<leftarrow> make_message c (\<lambda>_. 0) [] (dsk (e_srv e)) tm MSGTYPE_BLK (header_bytes head) sv (h_now head) (Some sk) pk [];
     let (a, e) = new_msg m e;
     (r, e) \<leftarrow> blk_insert tm a e;
     Some (r, if r = 0 then e else send (Update_all a) e)
   }"

definition write_header :: "crypto \<Rightarrow> u32 \<Rightarrow> escd \<Rightarrow> escd option" where
  "write_header c tm e = (if e_svid e = 0 then Some e
     else do {
       let head = header (e_last e);
       (r, e) \<leftarrow> sign_header c tm head (e_svid e) (my_skey (e_srv e)) (my_pkey (e_srv e)) e;
       if r = 0 then None
       else ofold (\<lambda>(sv, pk, sk) e. do {
         n \<leftarrow> node_at (e_last e) sv;
         if n_pk n \<noteq> pk then Some e
         else map_option snd (sign_header c tm head sv sk pk e)
       }) (nkeys (e_srv e)) e
     })"

section \<open>The clock\<close>

text \<open>
  Own messages that the network did not take in time are signed again.  They stay under their old
  keys in \<open>txs_msgs\<close>, although \<open>signnewtime\<close> changes the hash the key was made from.
\<close>

record resign =
  rs_node :: escd
  rs_msid :: u32
  rs_msha :: bytes
  rs_time :: u32

fun resign_loop :: "crypto \<Rightarrow> (u64, nat) amap \<Rightarrow> resign \<Rightarrow> resign option" where
  "resign_loop c [] r = Some r"
| "resign_loop c ((_, a) # xs) r = do {
     let e = rs_node r;
     m \<leftarrow> msg_at e a;
     if mg_svid m \<noteq> e_svid e then Some r
     else if rs_msid r + 1 \<noteq> mg_msid m then None
     else do {
       (_, e) \<leftarrow> msg_load (e_svid e) a e;
       m \<leftarrow> msg_at e a;
       m \<leftarrow> signnewtime c (dsk (e_srv e)) (rs_time r) (my_skey (e_srv e)) (my_pkey (e_srv e)) (rs_msha r) m;
       let m = m\<lparr>mg_status := mg_status m AND NOT MSGSTAT_BAD\<rparr>;
       (_, e) \<leftarrow> msg_save a (put_msg a m e);
       e \<leftarrow> on_msg (unload (e_svid e)) a e;
       resign_loop c xs (r\<lparr>rs_node := e\<lparr>check_msgs := check_msgs e @ [a]\<rparr>, rs_msid := rs_msid r + 1,
         rs_msha := mg_sigh m, rs_time := rs_time r + 1\<rparr>)
     }
   }"

definition signlater :: "crypto \<Rightarrow> u32 \<Rightarrow> escd \<Rightarrow> escd option" where
  "signlater c tm e = (case sign_msgs e of [] \<Rightarrow> Some e
     | a # _ \<Rightarrow> do {
         n \<leftarrow> node_at (e_srvs e) (e_svid e);
         m \<leftarrow> msg_at e a;
         let xs = (if m_get (txs_msgs e) (hash_num m) = None then [] else m_from (hash_num m) (txs_msgs e));
         r \<leftarrow> resign_loop c xs \<lparr>rs_node = e, rs_msid = n_msid n, rs_msha = n_msha n, rs_time = tm\<rparr>;
         Some ((rs_node r)\<lparr>sign_msgs := []\<rparr>)
       })"

definition drop_old :: "escd \<Rightarrow> (u64, nat) amap \<Rightarrow> (u64, nat) amap option" where
  "drop_old e mp = do {
     ms \<leftarrow> those (map (\<lambda>(k, a). map_option (\<lambda>m. ((k, a), m)) (msg_at e a)) mp);
     Some (map fst (filter (\<lambda>(_, m). \<not> mg_msid m < s_now (e_last e)) ms))
   }"

definition close_block :: "crypto \<Rightarrow> u32 \<Rightarrow> escd \<Rightarrow> escd option" where
  "close_block c tm e = do {
     s \<leftarrow> finish_block (c_sha c) tm (e_srv e);
     let e = e\<lparr>e_srv := s\<rparr>;
     e \<leftarrow> (if do_sync s then Some e
       else do {
         cnd \<leftarrow> drop_old e (cnd_msgs e);
         blk \<leftarrow> drop_old e (blk_msgs e);
         Some (e\<lparr>cnd_msgs := cnd, blk_msgs := blk\<rparr>)
       });
     signlater c tm e
   }"

definition del_signatures :: "servers \<Rightarrow> disk \<Rightarrow> disk" where
  "del_signatures s d = d\<lparr>d_sok := (d_sok d)(s_now s := Some [])\<rparr>"

text \<open>Too few signatures under the last block: the stored ones are counted again; \<open>False\<close> ends the node.\<close>

definition few_signatures :: "options \<Rightarrow> u16 \<Rightarrow> escd \<Rightarrow> bool" where
  "few_signatures opt vok e \<longleftrightarrow> vok < s_vtot (e_last e) div 2 \<and> int (unat vok) < o_mins opt \<and> \<not> opt_init e"

definition recount_signatures :: "crypto \<Rightarrow> options \<Rightarrow> escd \<Rightarrow> (bool \<times> escd) option" where
  "recount_signatures c opt e =
    (let l = e_last e; d = dsk (e_srv e);
         sigs = (case d_sok d (s_now l) of None \<Rightarrow> [] | Some f \<Rightarrow> f);
         head = (header l)\<lparr>h_vok := of_nat (length sigs), h_vno := 0\<rparr> in
     if h_vok head \<le> s_vok l then Some (False, e)
     else do {
       (head, _, l, d) \<leftarrow> check_signatures (c_open c) head sigs True (l, del_signatures l d);
       let e = e\<lparr>e_srv := (e_srv e)\<lparr>last_srvs := l, dsk := d\<rparr>\<rparr>;
       Some (\<not> few_signatures opt (h_vok head) e, e)
     })"

definition start_block :: "crypto \<Rightarrow> options \<Rightarrow> bytes \<Rightarrow> escd \<Rightarrow> (bool \<times> bytes \<times> escd) option" where
  "start_block c opt cand e = do {
     (go, e) \<leftarrow> (if \<not> do_sync (e_srv e) \<and> few_signatures opt (s_vok (e_last e)) e then recount_signatures c opt e
       else Some (True, e));
     if \<not> go then Some (False, cand, send Shutdown e)
     else do {
       e \<leftarrow> prepare_poll e;
       e \<leftarrow> LAST_block_msgs e;
       cand \<leftarrow> message_shash (c_sha c) (last_all_msgs e) e;
       e \<leftarrow> save_candidate (s_now (e_srvs e)) cand [] [] (e_svid e) ((send (Stop_all cand) e)\<lparr>do_block := 1\<rparr>);
       Some (True, cand, e)
     }
   }"

text \<open>One turn of the loop of \<open>clock\<close>; \<open>cand\<close> is the hash of the list the node proposed.\<close>

definition clock_turn :: "crypto \<Rightarrow> keydir \<Rightarrow> options \<Rightarrow> u32 \<Rightarrow> u32 \<Rightarrow> bytes \<Rightarrow> escd \<Rightarrow> (bytes \<times> escd) option" where
  "clock_turn c kd opt tm now cand e = do {
     e \<leftarrow> (if now > s_now (e_srvs e) + (BLOCKSEC * 3) div 4 \<and> s_vok (e_last e) < s_vtot (e_last e) div 2 \<and> \<not> opt_init e
       then office_set True (e\<lparr>panic := True\<rparr>) else Some e);
     (go, cand, e) \<leftarrow> (if now \<ge> s_now (e_srvs e) + BLOCKSEC \<and> do_block e = 0 then start_block c opt cand e
       else Some (True, cand, e));
     if \<not> go then Some (cand, e)
     else do {
       e \<leftarrow> (if 0 < do_block e \<and> do_block e < 3 then count_votes c kd tm now cand e else Some e);
       e \<leftarrow> (if do_block e = 3 then do {
           e \<leftarrow> close_block c tm e;
           e \<leftarrow> write_header c tm e;
           Some (e\<lparr>do_block := 0, e_srv := (e_srv e)\<lparr>block_only := False\<rparr>\<rparr>)
         } else Some e);
       Some (cand, e)
     }
   }"

end
