(* ===== verification/Votes.thy ===== *)
theory Votes
  imports Block_Cycle
begin

text \<open>
  The election is safe: the test by which \<open>count_votes\<close> elects a candidate before the deadline is
  exactly that no vote still outstanding can change the winner, so nodes that count the same votes
  in any order, and any part of them, never elect different candidates.
\<close>

section \<open>Weighted votes\<close>

text \<open>\<open>S\<close> are the electors whose votes are counted, \<open>D\<close> all electors.\<close>

definition votes_for :: "('v \<Rightarrow> nat) \<Rightarrow> ('v \<Rightarrow> 'c) \<Rightarrow> 'v set \<Rightarrow> 'c \<Rightarrow> nat" where
  "votes_for wt vote S h = sum wt {sv \<in> S. vote sv = h}"

definition decided :: "('v \<Rightarrow> nat) \<Rightarrow> ('v \<Rightarrow> 'c) \<Rightarrow> 'v set \<Rightarrow> 'v set \<Rightarrow> 'c \<Rightarrow> bool" where
  "decided wt vote D S h \<longleftrightarrow> (\<forall>h'. h' \<noteq> h \<longrightarrow> votes_for wt vote S h' + sum wt (D - S) < votes_for wt vote S h)"

lemma votes_for_mono: "finite T \<Longrightarrow> S \<subseteq> T \<Longrightarrow> votes_for wt vote S h \<le> votes_for wt vote T h"
  unfolding votes_for_def by (rule sum_mono2) auto

lemma votes_for_rest:
  assumes "finite D" and "S \<subseteq> D"
  shows "votes_for wt vote D h \<le> votes_for wt vote S h + sum wt (D - S)"
proof -
  have "{sv \<in> D. vote sv = h} = {sv \<in> S. vote sv = h} \<union> {sv \<in> D - S. vote sv = h}" using assms by auto
  moreover have "sum wt {sv \<in> D - S. vote sv = h} \<le> sum wt (D - S)" using assms by (intro sum_mono2) auto
  ultimately show ?thesis using assms
    by (simp add: votes_for_def sum.union_disjoint finite_subset [OF assms(2)] disjoint_iff)
qed

lemma votes_for_insert:
  "finite S \<Longrightarrow> sv \<notin> S \<Longrightarrow> votes_for wt vote (insert sv S) h = votes_for wt vote S h + (if vote sv = h then wt sv else 0)"
proof -
  assume "finite S" "sv \<notin> S"
  moreover have "{x \<in> insert sv S. vote x = h} = (if vote sv = h then insert sv {x \<in> S. vote x = h} else {x \<in> S. vote x = h})"
    by auto
  ultimately show ?thesis by (simp add: votes_for_def)
qed

text \<open>A decision is final: it agrees with the count of all votes, and so with every other decision.\<close>

lemma decided_all:
  assumes "finite D" and "S \<subseteq> D" and "decided wt vote D S h" and "h' \<noteq> h"
  shows "votes_for wt vote D h' < votes_for wt vote D h"
  using votes_for_rest [OF assms(1,2), of wt vote h'] votes_for_mono [OF assms(1,2), of wt vote h] assms(3,4)
  by (auto simp: decided_def dest!: spec [of _ h'])

lemma decided_unique:
  assumes "finite D" and "S \<subseteq> D" and "decided wt vote D S h" and "T \<subseteq> D" and "decided wt vote D T h'"
  shows "h = h'"
  using decided_all [OF assms(1,2,3), of h'] decided_all [OF assms(1,4,5), of h] by fastforce

section \<open>The tally\<close>

definition scores :: "(bytes, candidate) amap \<Rightarrow> bytes \<Rightarrow> nat" where
  "scores cs h = (case m_get cs h of None \<Rightarrow> 0 | Some c \<Rightarrow> unat (cd_score c))"

definition score_sum :: "(bytes, candidate) amap \<Rightarrow> nat" where
  "score_sum cs = sum_list (map (\<lambda>(_, c). unat (cd_score c)) cs)"

text \<open>What the tally knows of the candidates it has seen: the first is one of them, no other has more than the
  second, and the second is the score of another one.\<close>

definition rivals :: "(bytes, candidate) amap \<Rightarrow> bytes \<Rightarrow> u64 set" where
  "rivals cs h = (\<lambda>x. cd_score (snd x)) ` {x \<in> set cs. fst x \<noteq> h}"

definition tally_ok :: "(bytes, candidate) amap \<Rightarrow> count \<Rightarrow> bool" where
  "tally_ok cs r \<longleftrightarrow> ct_sum r = of_nat (score_sum cs) \<and>
     (case ct_first r of None \<Rightarrow> cs = [] \<and> ct_second r = None
      | Some (h, c) \<Rightarrow> (h, c) \<in> set cs \<and> second_score r \<le> cd_score c \<and>
          (\<forall>x \<in> rivals cs h. x \<le> second_score r) \<and>
          (case ct_second r of None \<Rightarrow> rivals cs h = {} | Some c2 \<Rightarrow> cd_score c2 \<in> rivals cs h))"

lemma tally_okI:
  assumes "ct_first r = Some (h, c)" and "ct_sum r = of_nat (score_sum cs)" and "(h, c) \<in> set cs"
    and "second_score r \<le> cd_score c" and "\<And>x. x \<in> rivals cs h \<Longrightarrow> x \<le> second_score r"
    and "ct_second r = None \<Longrightarrow> rivals cs h = {}" and "\<And>c2. ct_second r = Some c2 \<Longrightarrow> cd_score c2 \<in> rivals cs h"
  shows "tally_ok cs r"
  using assms by (simp add: tally_ok_def split: option.split)

lemma rivals_snoc: "rivals (cs @ [(h, c)]) x = rivals cs x \<union> (if h = x then {} else {cd_score c})"
proof -
  have "{y \<in> set (cs @ [(h, c)]). fst y \<noteq> x} = {y \<in> set cs. fst y \<noteq> x} \<union> (if h = x then {} else {(h, c)})" by auto
  then show ?thesis by (simp add: rivals_def image_Un)
qed

lemma rivals_new:
  assumes "h \<notin> fst ` set cs" and "(h1, c1) \<in> set cs" and "distinct (map fst cs)"
  shows "rivals cs h = insert (cd_score c1) (rivals cs h1)"
proof -
  have one: "x = (h1, c1)" if "x \<in> set cs" and "fst x = h1" for x
    using eq_key_imp_eq_value [OF assms(3,2), of "snd x"] that by (cases x) simp
  have "fst x \<noteq> h" if "x \<in> set cs" for x using assms(1) that by blast
  with one have "{x \<in> set cs. fst x \<noteq> h} = insert (h1, c1) {x \<in> set cs. fst x \<noteq> h1}" using assms(2) by blast
  then show ?thesis by (simp add: rivals_def)
qed

lemma count_step_ok:
  assumes ok: "tally_ok cs r" and new: "h \<notin> fst ` set cs" and d: "distinct (map fst cs)"
  shows "tally_ok (cs @ [(h, c)]) (count_step (h, c) r)"
proof (cases "ct_first r")
  case None
  then show ?thesis using ok
    by (simp add: tally_ok_def count_step_def score_sum_def second_score_def rivals_def Let_def)
next
  case (Some hc)
  obtain h1 c1 where f: "ct_first r = Some (h1, c1)" using Some by (cases hc) auto
  then have in1: "(h1, c1) \<in> set cs" using ok by (simp add: tally_ok_def)
  then have h1: "h1 \<noteq> h" using new by force
  have riv: "rivals cs h = insert (cd_score c1) (rivals cs h1)"
    by (rule rivals_new [OF new in1 d])
  have sum: "of_nat (score_sum (cs @ [(h, c)])) = (of_nat (score_sum cs) + cd_score c :: u64)"
    by (simp add: score_sum_def)
  have st: "ct_sum r = of_nat (score_sum cs)" "second_score r \<le> cd_score c1" "\<And>x. x \<in> rivals cs h1 \<Longrightarrow> x \<le> second_score r"
    "ct_second r = None \<Longrightarrow> rivals cs h1 = {}" "\<And>c2. ct_second r = Some c2 \<Longrightarrow> cd_score c2 \<in> rivals cs h1"
    using ok f by (auto simp: tally_ok_def split: option.splits)
  consider (first) "cd_score c > cd_score c1"
    | (second) "\<not> cd_score c > cd_score c1" "ct_second r = None \<or> cd_score c > second_score r"
    | (none) "\<not> cd_score c > cd_score c1" "ct_second r \<noteq> None" "\<not> cd_score c > second_score r" by blast
  then show ?thesis
  proof cases
    case first
    have "count_step (h, c) r = r\<lparr>ct_sum := ct_sum r + cd_score c, ct_second := Some c1, ct_first := Some (h, c)\<rparr>"
      using f first by (simp add: count_step_def Let_def)
    moreover have "x \<le> cd_score c1" if "x \<in> rivals cs h" for x
      using that st(2,3) riv by (auto intro: order_trans)
    ultimately show ?thesis using first st(1) riv
      by (intro tally_okI [of _ h c]) (auto simp: second_score_def rivals_snoc sum)
  next
    case second
    have "count_step (h, c) r = r\<lparr>ct_sum := ct_sum r + cd_score c, ct_second := Some c\<rparr>"
      using f second by (auto simp: count_step_def Let_def second_score_def split: option.splits)
    moreover have "x \<le> cd_score c" if "x \<in> rivals cs h1" for x
      using that st(3,4) second(2) by (auto intro: order_trans less_imp_le)
    ultimately show ?thesis using second st(1) f in1 h1
      by (intro tally_okI [of _ h1 c1]) (auto simp: second_score_def rivals_snoc sum not_less)
  next
    case none
    have "count_step (h, c) r = r\<lparr>ct_sum := ct_sum r + cd_score c\<rparr>"
      using f none by (auto simp: count_step_def Let_def second_score_def split: option.splits)
    moreover have "second_score (r\<lparr>ct_sum := y\<rparr>) = second_score r" for y by (simp add: second_score_def)
    ultimately show ?thesis using none st f in1 h1
      by (intro tally_okI [of _ h1 c1]) (auto simp: rivals_snoc sum not_less)
  qed
qed

lemma tally_ok_tally: "distinct (map fst cs) \<Longrightarrow> tally_ok cs (tally cs)"
proof (induction cs rule: rev_induct)
  case (snoc hc cs)
  then show ?case using count_step_ok [of cs "tally cs" "fst hc" "snd hc"] by (simp add: tally_def)
qed (simp add: tally_ok_def tally_def score_sum_def)

section \<open>The tally and the votes\<close>

definition weight_in :: "(u16, u64) amap \<Rightarrow> u16 \<Rightarrow> nat" where
  "weight_in W sv = (case m_get W sv of None \<Rightarrow> 0 | Some w \<Rightarrow> unat w)"

text \<open>
  The state of a node in which the votes of the electors \<open>S\<close> of the poll \<open>W\<close> are counted: they
  have no weight left, and every candidate has the sum of the weights of those who voted for it.
\<close>

definition tallied :: "(u16 \<Rightarrow> bytes) \<Rightarrow> (u16, u64) amap \<Rightarrow> u16 set \<Rightarrow> escd \<Rightarrow> bool" where
  "tallied vote W S e \<longleftrightarrow> keys_ok (candidates e) \<and> S \<subseteq> fst ` set W \<and>
     (\<forall>sv. m_get (electors e) sv = (if sv \<in> S then map_option (\<lambda>_. 0) (m_get W sv) else m_get W sv)) \<and>
     (\<forall>h. scores (candidates e) h = votes_for (weight_in W) vote S h) \<and>
     votes_max e = of_nat (sum (weight_in W) (fst ` set W)) \<and> sum (weight_in W) (fst ` set W) < 2 ^ 64"

lemma score_sum_scores: "distinct (map fst cs) \<Longrightarrow> score_sum cs = (\<Sum>h \<in> fst ` set cs. scores cs h)"
proof (induction cs)
  case (Cons x cs)
  obtain h c where x: "x = (h, c)" by force
  have "scores (x # cs) h' = scores cs h'" if "h' \<in> fst ` set cs" for h'
    using Cons.prems that x by (auto simp: scores_def m_get_def)
  then have "(\<Sum>h' \<in> fst ` set cs. scores (x # cs) h') = score_sum cs" using Cons by (simp cong: sum.cong)
  moreover have "h \<notin> fst ` set cs" using Cons.prems x by simp
  ultimately show ?case by (simp add: x score_sum_def) (simp add: scores_def m_get_def)
qed (simp add: score_sum_def)

lemma sum_votes_for:
  assumes "finite S" and "finite K" and "\<And>h. h \<notin> K \<Longrightarrow> votes_for wt vote S h = 0"
  shows "(\<Sum>h \<in> K. votes_for wt vote S h) = sum wt S"
proof -
  have "(\<Sum>h \<in> K \<union> vote ` S. votes_for wt vote S h) = sum wt S"
    unfolding votes_for_def using assms(1,2) by (intro sum.group) auto
  moreover have "(\<Sum>h \<in> K. votes_for wt vote S h) = (\<Sum>h \<in> K \<union> vote ` S. votes_for wt vote S h)"
    using assms by (intro sum.mono_neutral_left) auto
  ultimately show ?thesis by simp
qed

lemma votes_for_le: "finite S \<Longrightarrow> votes_for wt vote S h \<le> sum wt S"
  unfolding votes_for_def by (rule sum_mono2) auto

lemma tallied_sum:
  assumes "tallied vote W S e"
  shows "score_sum (candidates e) = sum (weight_in W) S"
proof -
  have S: "finite S" using assms finite_subset by (fastforce simp: tallied_def)
  have "score_sum (candidates e) = (\<Sum>h \<in> fst ` set (candidates e). votes_for (weight_in W) vote S h)"
    using assms score_sum_scores [OF keys_ok_distinct] by (simp add: tallied_def)
  also have "\<dots> = sum (weight_in W) S"
  proof (rule sum_votes_for [OF S])
    fix h assume "h \<notin> fst ` set (candidates e)"
    then have "m_get (candidates e) h = None" by (simp add: m_get_def map_of_eq_None_iff)
    then have "scores (candidates e) h = 0" by (simp add: scores_def)
    then show "votes_for (weight_in W) vote S h = 0" using assms by (simp add: tallied_def)
  qed simp
  finally show ?thesis .
qed

lemma scores_in: "distinct (map fst cs) \<Longrightarrow> (h, c) \<in> set cs \<Longrightarrow> scores cs h = unat (cd_score c)"
  by (simp add: scores_def m_get_def)

lemma rivals_scores: "distinct (map fst cs) \<Longrightarrow> x \<in> rivals cs h \<Longrightarrow> \<exists>h'. h' \<noteq> h \<and> scores cs h' = unat x"
  by (auto simp: rivals_def intro: exI [of _ "fst _"] dest!: scores_in) 

lemma scores_rival:
  assumes "h' \<noteq> h" and "\<And>x. x \<in> rivals cs h \<Longrightarrow> x \<le> b"
  shows "scores cs h' \<le> unat b"
proof (cases "m_get cs h'")
  case (Some c)
  then have "cd_score c \<in> rivals cs h" using assms(1)
    by (force simp: m_get_def rivals_def dest: map_of_SomeD)
  with assms(2) Some show ?thesis by (simp add: scores_def word_le_nat_alt)
qed (simp add: scores_def)

text \<open>The numbers \<open>count_votes\<close> compares, without wrap-around.\<close>

lemma tallied_left:
  assumes t: "tallied vote W S e"
  shows "unat (votes_max e - ct_sum (tally (candidates e))) = sum (weight_in W) (fst ` set W - S)"
proof -
  let ?wt = "weight_in W" and ?D = "fst ` set W"
  have D: "S \<subseteq> ?D" "sum ?wt ?D < 2 ^ 64" using t by (auto simp: tallied_def)
  have "ct_sum (tally (candidates e)) = of_nat (sum ?wt S)"
    using tally_ok_tally [OF keys_ok_distinct, of "candidates e"] t tallied_sum [OF t] by (simp add: tally_ok_def tallied_def)
  moreover have split: "sum ?wt ?D = sum ?wt (?D - S) + sum ?wt S" using D by (intro sum.subset_diff) auto
  ultimately have "votes_max e - ct_sum (tally (candidates e)) = of_nat (sum ?wt (?D - S))"
    using t by (simp add: tallied_def)
  then show ?thesis using split D(2) by (simp add: unat_of_nat take_bit_eq_mod del: of_nat_sum)
qed

lemma tallied_first:
  assumes t: "tallied vote W S e" and f: "ct_first (tally (candidates e)) = Some (h, c)"
  shows "unat (cd_score c) = votes_for (weight_in W) vote S h" and "h \<in> fst ` set (candidates e)"
    and "\<And>h'. h' \<noteq> h \<Longrightarrow> votes_for (weight_in W) vote S h' \<le> unat (second_score (tally (candidates e)))"
    and "\<exists>h'. h' \<noteq> h \<and> unat (second_score (tally (candidates e))) \<le> votes_for (weight_in W) vote S h'"
    and "second_score (tally (candidates e)) \<le> cd_score c"
proof -
  let ?cs = "candidates e"
  have d: "distinct (map fst ?cs)" and sc: "\<And>h. votes_for (weight_in W) vote S h = scores ?cs h"
    using t keys_ok_distinct by (auto simp: tallied_def)
  note ok = tally_ok_tally [OF d]
  then have r: "(h, c) \<in> set ?cs" "second_score (tally ?cs) \<le> cd_score c" "\<And>x. x \<in> rivals ?cs h \<Longrightarrow> x \<le> second_score (tally ?cs)"
    using f by (auto simp: tally_ok_def)
  show "unat (cd_score c) = votes_for (weight_in W) vote S h" using scores_in [OF d r(1)] sc by simp
  show "h \<in> fst ` set ?cs" using r(1) by (rule rev_image_eqI) simp
  show "second_score (tally ?cs) \<le> cd_score c" by (rule r(2))
  show "votes_for (weight_in W) vote S h' \<le> unat (second_score (tally ?cs))" if "h' \<noteq> h" for h'
    using scores_rival [OF that r(3)] sc by simp
  show "\<exists>h'. h' \<noteq> h \<and> unat (second_score (tally ?cs)) \<le> votes_for (weight_in W) vote S h'"
  proof (cases "ct_second (tally ?cs)")
    case None
    then show ?thesis by (intro exI [of _ "h @ [0]"]) (simp add: second_score_def)
  next
    case (Some c2)
    then have "second_score (tally ?cs) \<in> rivals ?cs h" using ok f by (simp add: tally_ok_def second_score_def)
    from rivals_scores [OF d this] sc show ?thesis by auto
  qed
qed

lemma elected_decided:
  assumes t: "tallied vote W S e"
  shows "elected e h \<longleftrightarrow> h \<in> fst ` set (candidates e) \<and> decided (weight_in W) vote (fst ` set W) S h"
proof (cases "ct_first (tally (candidates e))")
  case None
  then have "candidates e = []"
    using tally_ok_tally [OF keys_ok_distinct, of "candidates e"] t by (simp add: tallied_def tally_ok_def)
  then show ?thesis using None by (simp add: elected_def)
next
  case (Some hc)
  let ?s = "second_score (tally (candidates e))" and ?l = "votes_max e - ct_sum (tally (candidates e))"
  let ?v = "votes_for (weight_in W) vote S" and ?left = "sum (weight_in W) (fst ` set W - S)"
  obtain h1 c1 where f: "ct_first (tally (candidates e)) = Some (h1, c1)" using Some by (cases hc) auto
  note fst = tallied_first [OF t f]
  obtain h2 where h2: "h2 \<noteq> h1" "unat ?s \<le> ?v h2" using fst(4) by blast
  have D: "S \<subseteq> fst ` set W" "sum (weight_in W) (fst ` set W) < 2 ^ 64" using t by (auto simp: tallied_def)
  have "?v h2 + ?left \<le> sum (weight_in W) (fst ` set W)"
    using votes_for_le [of S "weight_in W" vote h2] D sum.subset_diff [of S "fst ` set W" "weight_in W"]
    by (auto dest: finite_subset)
  then have "unat ?s + unat ?l < 2 ^ 64" using h2 D(2) by (simp only: tallied_left [OF t])
  then have "unat (?s + ?l) = unat ?s + ?left" by (simp add: unat_word_ariths(1)) (simp add: tallied_left [OF t])
  then have el: "elected e h \<longleftrightarrow> h1 = h \<and> unat ?s + ?left < ?v h1"
    using f fst(1) by (simp add: elected_def word_less_nat_alt)
  show ?thesis
  proof
    assume "elected e h"
    then have h: "h1 = h" "unat ?s + ?left < ?v h" using el by auto
    have "?v h' + ?left < ?v h" if "h' \<noteq> h" for h' using fst(3) [of h'] that h by simp
    then show "h \<in> fst ` set (candidates e) \<and> decided (weight_in W) vote (fst ` set W) S h"
      using fst(2) h(1) by (simp add: decided_def)
  next
    assume r: "h \<in> fst ` set (candidates e) \<and> decided (weight_in W) vote (fst ` set W) S h"
    then have less: "?v h' + ?left < ?v h" if "h' \<noteq> h" for h' using that by (simp add: decided_def)
    have "h1 = h"
    proof (rule ccontr)
      assume "h1 \<noteq> h"
      then have "?v h1 < ?v h" "?v h \<le> unat ?s" using less [of h1] fst(3) [of h] by auto
      then show False using fst(1,5) by (simp add: word_le_nat_alt)
    qed
    then show "elected e h" using el less [of h2] h2 by simp
  qed
qed

section \<open>Steps of a poll\<close>

text \<open>
  What a node does with its candidates between the poll and the election: it counts the votes that
  arrive, each elector's vote being the same everywhere, and learns of candidates.
\<close>

definition casts :: "(u16 \<Rightarrow> bytes) \<Rightarrow> message \<Rightarrow> bool" where
  "casts vote m \<longleftrightarrow> (\<forall>d. mg_data m = Some d \<longrightarrow> rd data_offset 32 d = Some (vote (mg_svid m)))"

inductive polling :: "(u16 \<Rightarrow> bytes) \<Rightarrow> escd \<Rightarrow> escd \<Rightarrow> bool" for vote where
  start: "polling vote e e"
| count: "polling vote e e1 \<Longrightarrow> msg_at e1 a = Some m \<Longrightarrow> casts vote m \<Longrightarrow> cnd_validate a e1 = Some e2 \<Longrightarrow> polling vote e e2"
| propose: "polling vote e e1 \<Longrightarrow> save_candidate blk h add del peer e1 = Some e2 \<Longrightarrow> polling vote e e2"
| learn: "polling vote e e1 \<Longrightarrow> known_candidate h peer e1 = (r, e2) \<Longrightarrow> polling vote e e2"
| arrive: "polling vote e e1 \<Longrightarrow> update_candidates a e1 = Some e2 \<Longrightarrow> polling vote e e2"

text \<open>The state in which \<open>prepare_poll\<close> leaves a node.\<close>

definition poll_ready :: "escd \<Rightarrow> bool" where
  "poll_ready e \<longleftrightarrow> keys_ok (candidates e) \<and> (\<forall>(h, c) \<in> set (candidates e). cd_score c = 0) \<and> keys_ok (electors e) \<and>
     votes_max e = sum_list (map snd (electors e)) \<and> sum_list (map (\<lambda>(_, w). unat w) (electors e)) < 2 ^ 64"

lemma sum_weight_in: "keys_ok W \<Longrightarrow> sum (weight_in W) (fst ` set W) = sum_list (map (\<lambda>(_, w). unat w) W)"
proof (induction W)
  case (Cons x W)
  obtain sv w where x: "x = (sv, w)" by force
  then have sv: "sv \<notin> fst ` set W" using Cons.prems by (auto simp: keys_ok_Cons)
  then have "sum (weight_in (x # W)) (fst ` set W) = sum (weight_in W) (fst ` set W)"
    by (intro sum.cong) (auto simp: x weight_in_def m_get_def)
  then show ?case using Cons sv by (simp add: x keys_ok_Cons) (simp add: weight_in_def m_get_def)
qed simp

lemma poll_ready_tallied:
  assumes "poll_ready e"
  shows "tallied vote (electors e) {} e"
proof -
  have "scores (candidates e) h = 0" for h
    using assms by (auto simp: scores_def m_get_def poll_ready_def dest!: map_of_SomeD split: option.splits)
  moreover have "of_nat (sum_list (map (\<lambda>(_, w). unat w) W)) = (sum_list (map snd W) :: u64)" for W :: "(u16, u64) amap"
    by (induction W) auto
  ultimately show ?thesis using assms by (simp add: poll_ready_def tallied_def votes_for_def sum_weight_in del: of_nat_sum)
qed

text \<open>Steps that leave the scores alone.\<close>

lemma tallied_frame:
  assumes "tallied vote W S e" and "keys_ok (candidates e')" and "\<And>h. scores (candidates e') h = scores (candidates e) h"
    and "electors e' = electors e" and "votes_max e' = votes_max e"
  shows "tallied vote W S e'"
  using assms by (simp add: tallied_def)

lemma scores_m_upd: "scores (m_upd h c cs) x = (if x = h then unat (cd_score c) else scores cs x)"
  by (simp add: scores_def m_get_def map_of_m_upd_eq)

lemma save_candidate_tallied:
  assumes "tallied vote W S e" and "save_candidate blk h add del peer e = Some e'"
  shows "tallied vote W S e'"
proof -
  have "\<exists>c. (candidates e' = candidates e \<or> candidates e' = m_upd h c (candidates e) \<and> unat (cd_score c) = scores (candidates e) h) \<and>
      electors e' = electors e \<and> votes_max e' = votes_max e"
    using assms(2) by (auto simp: save_candidate_def make_candidate_def scores_def bind_eq_Some_conv Let_def
        split: option.splits if_splits)
  with assms(1) show ?thesis
    by (elim exE conjE disjE) (auto intro!: tallied_frame [OF assms(1)] simp: scores_m_upd keys_ok_m_upd tallied_def)
qed

lemma known_candidate_tallied:
  assumes "tallied vote W S e" and "known_candidate h peer e = (r, e')"
  shows "tallied vote W S e'"
proof -
  have "\<exists>c. (candidates e' = candidates e \<or> candidates e' = m_upd h c (candidates e) \<and> unat (cd_score c) = scores (candidates e) h) \<and>
      electors e' = electors e \<and> votes_max e' = votes_max e"
    using assms(2) by (auto simp: known_candidate_def scores_def split: option.splits if_splits)
  with assms(1) show ?thesis
    by (elim exE conjE disjE) (auto intro!: tallied_frame [OF assms(1)] simp: scores_m_upd keys_ok_m_upd tallied_def)
qed

lemma cand_update_score: "cand_update m c = Some c' \<Longrightarrow> cd_score c' = cd_score c"
  by (auto simp: cand_update_def Let_def bind_eq_Some_conv split: if_splits)

lemma those_update:
  "those (map (\<lambda>(h, c). map_option (Pair h) (cand_update m c)) cs) = Some cs' \<Longrightarrow>
   map fst cs' = map fst cs \<and> scores cs' x = scores cs x"
proof (induction cs arbitrary: cs')
  case (Cons a cs)
  obtain h c where a: "a = (h, c)" by force
  with Cons.prems obtain c' cs1 where c: "cand_update m c = Some c'" "cs' = (h, c') # cs1"
      "those (map (\<lambda>(h, c). map_option (Pair h) (cand_update m c)) cs) = Some cs1"
    by (auto split: option.splits)
  with Cons.IH [of cs1] a show ?case by (auto simp: scores_def m_get_def cand_update_score)
qed simp

lemma update_candidates_tallied:
  assumes "tallied vote W S e" and "update_candidates a e = Some e'"
  shows "tallied vote W S e'"
proof (cases "do_block e = 0")
  case False
  then obtain m cs where cs: "those (map (\<lambda>(h, c). map_option (Pair h) (cand_update m c)) (candidates e)) = Some cs"
      and e: "e' = e\<lparr>candidates := cs\<rparr>"
    using assms(2) by (auto simp: update_candidates_def bind_eq_Some_conv)
  have "map fst cs = map fst (candidates e)" and "scores cs h = scores (candidates e) h" for h
    using those_update [OF cs, of h] by auto
  with assms(1) e show ?thesis by (intro tallied_frame [OF assms(1)]) (auto simp: tallied_def keys_ok_def)
qed (use assms in \<open>simp add: update_candidates_def\<close>)

text \<open>A vote is counted once, for the candidate it names, with the whole weight of its elector.\<close>

lemma count_tallied:
  assumes t: "tallied vote W S e" and w: "m_get (electors e) sv = Some w" "w \<noteq> 0"
    and c: "m_get (candidates e) (vote sv) = Some c"
    and e': "candidates e' = m_upd (vote sv) (c\<lparr>cd_score := cd_score c + w\<rparr>) (candidates e)"
      "electors e' = m_upd sv 0 (electors e)" "votes_max e' = votes_max e"
  shows "tallied vote W (insert sv S) e'"
proof -
  let ?wt = "weight_in W" and ?D = "fst ` set W"
  have S: "S \<subseteq> ?D" "finite S" "sum ?wt ?D < 2 ^ 64" using t finite_subset by (fastforce simp: tallied_def)+
  have sv: "sv \<notin> S" "m_get W sv = Some w" using t w by (auto simp: tallied_def split: if_splits)
  then have D: "insert sv S \<subseteq> ?D" and wt: "?wt sv = unat w"
    using S(1) by (auto simp: m_get_def weight_in_def dest!: map_of_SomeD intro: rev_image_eqI)
  have "scores (candidates e) (vote sv) = votes_for ?wt vote S (vote sv)" using t by (simp add: tallied_def)
  then have v: "unat (cd_score c) = votes_for ?wt vote S (vote sv)" using c by (simp add: scores_def)
  have "votes_for ?wt vote (insert sv S) (vote sv) \<le> sum ?wt ?D"
    using votes_for_le [of ?D ?wt vote "vote sv"] votes_for_mono [of ?D "insert sv S" ?wt vote "vote sv"] D by simp
  then have "unat (cd_score c) + unat w < 2 ^ 64" using S sv(1) wt v by (simp add: votes_for_insert)
  then have "unat (cd_score c + w) = unat (cd_score c) + unat w" by (simp add: unat_word_ariths(1))
  then have "scores (candidates e') h = votes_for ?wt vote (insert sv S) h" for h
    using t S(2) sv(1) v wt by (simp add: e' scores_m_upd votes_for_insert tallied_def)
  moreover have "m_get (electors e') sv' = (if sv' \<in> insert sv S then map_option (\<lambda>_. 0) (m_get W sv') else m_get W sv')" for sv'
    using t sv by (auto simp: e' m_get_def map_of_m_upd_eq tallied_def)
  ultimately show ?thesis using t D by (simp add: tallied_def e' keys_ok_m_upd)
qed

lemma cnd_validate_tallied:
  assumes t: "tallied vote W S e" and m: "msg_at e a = Some m" "casts vote m" and v: "cnd_validate a e = Some e'"
  shows "\<exists>S'. tallied vote W S' e'"
proof (cases "e' = e")
  case False
  with v m(1) obtain w d h c where "m_get (electors e) (mg_svid m) = Some w" "w \<noteq> 0" "mg_data m = Some d" "rd data_offset 32 d = Some h"
      "m_get (candidates e) h = Some c"
      "candidates e' = m_upd h (c\<lparr>cd_score := cd_score c + w\<rparr>) (candidates e)"
      "electors e' = m_upd (mg_svid m) 0 (electors e)" "votes_max e' = votes_max e"
    by (auto simp: cnd_validate_def put_msg_def send_def bind_eq_Some_conv split: if_splits option.splits)
  moreover from this m(2) have "h = vote (mg_svid m)" by (simp add: casts_def)
  ultimately show ?thesis using count_tallied [OF t] by blast
qed (use t in blast)

lemma polling_tallied: "polling vote e e' \<Longrightarrow> poll_ready e \<Longrightarrow> \<exists>S. tallied vote (electors e) S e'"
proof (induction rule: polling.induct)
  case (start e)
  then show ?case using poll_ready_tallied by blast
next
  case (count e e1 a m e2)
  then show ?case using cnd_validate_tallied by blast
next
  case (propose e e1 blk h add del peer e2)
  then show ?case using save_candidate_tallied by blast
next
  case (learn e e1 h peer r e2)
  then show ?case using known_candidate_tallied by blast
next
  case (arrive e e1 a e2)
  then show ?case using update_candidates_tallied by blast
qed

text \<open>C20: two nodes that start from the same poll and count the votes that reach them, in any order and any
  part of them, never elect different candidates before the deadline, provided that no elector
  votes for two candidates.\<close>

theorem election_agreement:
  assumes "poll_ready e" and "poll_ready f" and "electors f = electors e"
    and "polling vote e e'" and "polling vote f f'" and "elected e' h" and "elected f' h'"
  shows "h = h'"
proof -
  let ?W = "electors e"
  obtain S where S: "tallied vote ?W S e'" using polling_tallied assms(1,4) by blast
  obtain T where T: "tallied vote ?W T f'" using polling_tallied [OF assms(5,2)] assms(3) by auto
  show ?thesis
  proof (rule decided_unique)
    show "decided (weight_in ?W) vote (fst ` set ?W) S h" using elected_decided [OF S] assms(6) by simp
    show "decided (weight_in ?W) vote (fst ` set ?W) T h'" using elected_decided [OF T] assms(7) by simp
    show "S \<subseteq> fst ` set ?W" "T \<subseteq> fst ` set ?W" using S T by (auto simp: tallied_def)
  qed simp
qed

definition demo_hash :: "u8 \<Rightarrow> bytes" where
  "demo_hash b = replicate 32 b"

definition demo_vote :: "u16 \<Rightarrow> bytes" where
  "demo_vote sv = (if sv = 1 then demo_hash 1 else demo_hash 2)"

definition demo_ballot :: "u16 \<Rightarrow> message" where
  "demo_ballot sv = (message0 (\<lambda>_. 0) [])\<lparr>mg_svid := sv, mg_msid := 0xFFFFFFF0, mg_data := Some (replicate 78 0 @ demo_vote sv)\<rparr>"

definition demo_poll :: escd where
  "demo_poll = \<lparr>e_srv = demo_server, mem = [demo_ballot 1, demo_ballot 2], txs_msgs = [], ldc_msgs = [], cnd_msgs = [],
     blk_msgs = [], dbl_msgs = [], missing_msgs = [], check_msgs = [], wait_msgs = [], sign_msgs = [], bad_msgs = [],
     candidates = [(demo_hash 1, make_candidate 0 [] [] [] 1 False), (demo_hash 2, make_candidate 0 [] [] [] 2 False)],
     electors = [(1, 5), (2, 3)], votes_max = 8, do_vote = 0, do_block = 1, winner = None, last_block = 0,
     last_svid_msgs = [], last_all_msgs = [], last_final_msgs = [], panic = False, office_readonly = False,
     opt_init = False, opt_back = False, my_msid = 0, my_msha = [], sent = []\<rparr>"

lemma demo_casts: "casts demo_vote (demo_ballot sv)"
  by (simp add: casts_def demo_ballot_def rd_def demo_vote_def demo_hash_def message0_def)

lemma demo_poll_ready: "poll_ready demo_poll"
  by (simp add: poll_ready_def demo_poll_def keys_ok_def make_candidate_def) (simp add: demo_hash_def numeral_eq_Suc)

definition demo_one :: escd where
  "demo_one = the (cnd_validate 0 demo_poll)"

definition demo_two :: escd where
  "demo_two = the (cnd_validate 0 (the (cnd_validate 1 demo_poll)))"

lemma demo_polling: "polling demo_vote demo_poll demo_one" "polling demo_vote demo_poll demo_two"
proof -
  have e: "cnd_validate 0 demo_poll \<noteq> None" "cnd_validate 1 demo_poll \<noteq> None"
      "cnd_validate 0 (the (cnd_validate 1 demo_poll)) \<noteq> None" by code_simp+
  have m: "msg_at demo_poll 0 = Some (demo_ballot 1)" "msg_at demo_poll 1 = Some (demo_ballot 2)"
    by (simp_all add: demo_poll_def msg_at_def)
  have m2: "msg_at (the (cnd_validate 1 demo_poll)) 0 = Some (demo_ballot 1)" by code_simp
  show "polling demo_vote demo_poll demo_one"
    unfolding demo_one_def by (rule polling.count [OF polling.start m(1) demo_casts]) (use e(1) in auto)
  have "polling demo_vote demo_poll (the (cnd_validate 1 demo_poll))"
    by (rule polling.count [OF polling.start m(2) demo_casts]) (use e(2) in auto)
  then show "polling demo_vote demo_poll demo_two"
    unfolding demo_two_def by (rule polling.count [OF _ m2 demo_casts]) (use e(3) in auto)
qed

lemma demo_elected: "elected demo_one (demo_hash 1)" "elected demo_two (demo_hash 1)" by code_simp+

theorem election_agreement_witness:
  "poll_ready demo_poll \<and> polling demo_vote demo_poll demo_one \<and> polling demo_vote demo_poll demo_two \<and>
   elected demo_one (demo_hash 1) \<and> elected demo_two (demo_vote 1) \<and> demo_hash 1 = demo_vote 1"
  using election_agreement [OF demo_poll_ready demo_poll_ready refl demo_polling, of "demo_hash 1" "demo_vote 1"]
    demo_poll_ready demo_polling demo_elected by (simp add: demo_vote_def)

text \<open>C21: counting is decisive and exact: a node elects a candidate as soon as, and only when, the votes counted for
  it exceed those for every other candidate by more than the weight of the electors that have not
  voted; in particular, when all electors have voted, the candidate with the most votes.\<close>

theorem elected_when_decided:
  assumes "poll_ready e" and "polling vote e e'"
  shows "\<exists>S \<subseteq> fst ` set (electors e).
    (\<forall>sv. m_get (electors e') sv = (if sv \<in> S then map_option (\<lambda>_. 0) (m_get (electors e) sv) else m_get (electors e) sv)) \<and>
    (\<forall>h \<in> fst ` set (candidates e'). elected e' h \<longleftrightarrow>
      (\<forall>h'. h' \<noteq> h \<longrightarrow> votes_for (weight_in (electors e)) vote S h' + sum (weight_in (electors e)) (fst ` set (electors e) - S)
        < votes_for (weight_in (electors e)) vote S h))"
proof -
  obtain S where S: "tallied vote (electors e) S e'" using polling_tallied [OF assms(2,1)] by blast
  show ?thesis using S elected_decided [OF S] by (intro exI [of _ S]) (simp add: tallied_def decided_def)
qed

theorem elected_when_decided_witness:
  "elected demo_one (demo_hash 1) \<and> (\<exists>S. S \<subseteq> fst ` set (electors demo_poll) \<and>
    votes_for (weight_in (electors demo_poll)) demo_vote S (demo_hash 2) +
      sum (weight_in (electors demo_poll)) (fst ` set (electors demo_poll) - S)
        < votes_for (weight_in (electors demo_poll)) demo_vote S (demo_hash 1))"
proof -
  have "demo_hash 1 \<in> fst ` set (candidates demo_one)" by code_simp
  moreover have "demo_hash 2 \<noteq> demo_hash 1" by (simp add: demo_hash_def)
  ultimately show ?thesis
    using elected_when_decided [OF demo_poll_ready demo_polling(1)] demo_elected(1) by blast
qed

text \<open>C22: when every elector has voted, the candidate with the most votes is elected, whatever the order in which the
  votes arrived: an election that is not a tie always ends.\<close>

theorem all_voted_elects:
  assumes "poll_ready e" and "polling vote e e'" and all: "\<forall>(sv, w) \<in> set (electors e'). w = 0"
    and h: "h \<in> fst ` set (candidates e')"
    and most: "\<And>h'. h' \<noteq> h \<Longrightarrow>
      votes_for (weight_in (electors e)) vote (fst ` set (electors e)) h' <
      votes_for (weight_in (electors e)) vote (fst ` set (electors e)) h"
  shows "elected e' h"
proof -
  let ?W = "electors e" and ?D = "fst ` set (electors e)"
  obtain S where S: "tallied vote ?W S e'" using polling_tallied [OF assms(2,1)] by blast
  then have sub: "S \<subseteq> ?D" by (simp add: tallied_def)
  have "weight_in ?W sv = 0" if "sv \<in> ?D - S" for sv
  proof -
    have "m_get (electors e') sv = m_get ?W sv" using S that by (simp add: tallied_def)
    then have "weight_in ?W sv = weight_in (electors e') sv" by (simp add: weight_in_def)
    also have "\<dots> = 0" using all by (auto simp: weight_in_def m_get_def dest!: map_of_SomeD split: option.splits)
    finally show ?thesis .
  qed
  then have zero: "sum (weight_in ?W) (?D - S) = 0" by simp
  then have "votes_for (weight_in ?W) vote S x = votes_for (weight_in ?W) vote ?D x" for x
    using votes_for_rest [OF _ sub, of "weight_in ?W" vote x] votes_for_mono [OF _ sub, of "weight_in ?W" vote x] by simp
  then have "decided (weight_in ?W) vote ?D S h" using most zero by (simp add: decided_def)
  then show ?thesis using elected_decided [OF S] h by blast
qed

theorem all_voted_elects_witness:
  "electors demo_two = [(1, 0), (2, 0)] \<and> demo_hash 1 \<in> fst ` set (candidates demo_two) \<and> elected demo_two (demo_hash 1)"
proof -
  have el: "electors demo_two = [(1, 0), (2, 0)]" by code_simp
  have c: "demo_hash 1 \<in> fst ` set (candidates demo_two)" by code_simp
  have W: "electors demo_poll = [(1, 5), (2, 3)]" by (simp add: demo_poll_def)
  have "{sv. (sv = 1 \<or> sv = 2) \<and> demo_vote sv = h} = (if h = demo_hash 1 then {1} else if h = demo_hash 2 then {2} else {})" for h
    by (auto simp: demo_vote_def demo_hash_def)
  then have v: "votes_for (weight_in (electors demo_poll)) demo_vote (fst ` set (electors demo_poll)) h =
      (if h = demo_hash 1 then 5 else if h = demo_hash 2 then 3 else 0)" for h
    by (simp add: W votes_for_def weight_in_def m_get_def)
  show ?thesis using all_voted_elects [OF demo_poll_ready demo_polling(2) _ c] el c v by auto
qed

section \<open>The poll is ready\<close>

definition weights_ok :: "servers \<Rightarrow> bool" where
  "weights_ok s \<longleftrightarrow> (\<forall>n \<in> set (s_nodes s). 0 \<le> sint (n_weight n) \<and> sint (n_weight n) \<le> TOTALMASS)"

lemma elector_score_bound:
  assumes "weights_ok (e_last e)" and "node_at (e_last e) sv \<noteq> None"
  shows "unat (elector_score e sv) \<le> 2 ^ 57"
proof -
  let ?w = "elector_weight e sv"
  have "s_nodes (e_last e) ! unat sv \<in> set (s_nodes (e_last e))" using assms(2) by (auto simp: node_at_def split: if_splits)
  then have w: "0 \<le> ?w" "?w \<le> TOTALMASS" using assms(1) by (auto simp: weights_ok_def elector_weight_def)
  then have "sint (word_of_int (?w + TOTALMASS) :: i64) = ?w + TOTALMASS"
    by (intro sint_of_int_small) (auto simp: TOTALMASS_def)
  then have "elector_score e sv = word_of_int ((?w + TOTALMASS) div 64)"
    using w by (simp add: elector_score_def sdiv64_def tdiv_def VIP_MAX_def TOTALMASS_def)
  moreover have "0 \<le> (?w + TOTALMASS) div 64 \<and> (?w + TOTALMASS) div 64 \<le> 2 ^ 57" using w by (auto simp: TOTALMASS_def)
  ultimately show ?thesis by (simp add: unat_eq_nat_uint uint_word_of_int nat_le_iff take_bit_eq_mod)
qed

text \<open>The loop over the ranked electors.\<close>

definition ranked_ok :: "escd \<Rightarrow> bool" where
  "ranked_ok e \<longleftrightarrow> keys_ok (electors e) \<and> votes_max e = sum_list (map snd (electors e)) \<and>
     (\<forall>(sv, w) \<in> set (electors e). unat w \<le> 2 ^ 57)"

lemma elector_steps:
  assumes "distinct (map snd jsvs)" and "fst ` set (electors e) \<inter> snd ` set jsvs = {}" and "ranked_ok e"
    and "\<forall>(j, sv) \<in> set jsvs. unat (elector_score e sv) \<le> 2 ^ 57"
  shows "ranked_ok (fold elector_step jsvs e) \<and> length (electors (fold elector_step jsvs e)) = length (electors e) + length jsvs \<and>
    candidates (fold elector_step jsvs e) = candidates e"
  using assms
proof (induction jsvs arbitrary: e)
  case (Cons x jsvs)
  obtain j sv where x: "x = (j, sv)" by force
  define f where "f = elector_step (j, sv) e"
  have el: "electors f = m_upd sv (elector_score e sv) (electors e)" "votes_max f = votes_max e + elector_score e sv"
    "candidates f = candidates e" "elector_score f = elector_score e"
    by (simp_all add: f_def elector_step_def fun_eq_iff elector_score_def elector_weight_def)
  have new: "map_of (electors e) sv = None" and k: "keys_ok (electors e)"
    using Cons.prems(2,3) by (auto simp: x map_of_eq_None_iff ranked_ok_def)
  have "ranked_ok f"
    using Cons.prems(3,4) set_m_upd_subset [of sv "elector_score e sv" "electors e"] new
    by (auto simp: ranked_ok_def el keys_ok_m_upd sum_list_m_upd x)
  moreover have "length (electors f) = Suc (length (electors e))" using new k by (simp add: el length_m_upd)
  moreover have "fst ` set (electors f) \<inter> snd ` set jsvs = {}" unfolding el set_m_upd using Cons.prems(1,2) by (auto simp: x)
  ultimately show ?case using Cons.IH [of f] Cons.prems(1,4) el(3,4) by (simp add: x f_def [symmetric])
qed simp

lemma elector_set_keys:
  assumes "elector_set e = Some rset"
  shows "keys_ok rset"
proof -
  let ?f = "\<lambda>(_, a) rset. do { m \<leftarrow> msg_at e a; Some (if is_elector e m then set_add (mg_svid m) rset else rset) }"
  have "ofold ?f xs r = Some r' \<Longrightarrow> keys_ok r \<Longrightarrow> keys_ok r'" for xs :: "(u64, nat) amap" and r r'
    by (induction xs arbitrary: r) (auto simp: bind_eq_Some_conv keys_ok_m_upd split: if_splits)
  from this [of "blk_msgs e" "[]"] assms show ?thesis
    by (auto simp: elector_set_def bind_eq_Some_conv keys_ok_Cons split: if_splits)
qed

text \<open>C23: a poll of nodes with weights up to the total mass leaves the votes in order: at most \<open>VIP_MAX\<close> electors, each
  with one weight, whose sum is \<open>votes_max\<close> and does not overflow, and no candidate with votes.\<close>

theorem prepare_poll_ready:
  assumes p: "prepare_poll e = Some e'" and w: "weights_ok (e_last e)"
    and c: "keys_ok (candidates e)" "\<forall>(h, c) \<in> set (candidates e). cd_now c < s_now (e_srvs e) \<or> cd_score c = 0"
  shows "poll_ready e' \<and> length (electors e') \<le> VIP_MAX \<and> winner e' = None"
proof -
  define e0 where "e0 = e\<lparr>electors := [], candidates := filter (\<lambda>(_, c). \<not> cd_now c < s_now (e_srvs e)) (candidates e),
    votes_max := 0, do_vote := 0\<rparr>"
  obtain rset where r: "elector_set e0 = Some rset" using p by (auto simp: prepare_poll_def Let_def bind_eq_Some_conv e0_def)
  define svs where "svs = take VIP_MAX (elector_rank e0 (map fst rset))"
  have nodes: "\<forall>sv \<in> set svs. node_at (e_last e0) sv \<noteq> None"
    and e': "e' = (fold elector_step (List.enumerate 0 svs) e0)\<lparr>winner := None\<rparr>"
    using p r by (auto simp: prepare_poll_def Let_def bind_eq_Some_conv e0_def svs_def split: if_splits)
  have d: "distinct svs" using keys_ok_distinct [OF elector_set_keys [OF r]] by (simp add: svs_def elector_rank_def distinct_sort)
  have "sv \<in> set svs" if "(j, sv) \<in> set (List.enumerate 0 svs)" for j sv using that by (auto simp: in_set_enumerate_eq)
  moreover have w0: "weights_ok (e_last e0)" using w by (simp add: e0_def)
  ultimately have sc: "\<forall>(j, sv) \<in> set (List.enumerate 0 svs). unat (elector_score e0 sv) \<le> 2 ^ 57"
    using nodes elector_score_bound [of e0] by blast
  have c0: "\<forall>(h, c) \<in> set (candidates e0). cd_score c = 0" "keys_ok (candidates e0)"
    using c by (auto simp: keys_ok_def sorted_wrt_map sorted_wrt_filter e0_def)
  moreover have "electors e0 = []" "votes_max e0 = 0" by (simp_all add: e0_def)
  ultimately have f: "ranked_ok (fold elector_step (List.enumerate 0 svs) e0)"
      "length (electors (fold elector_step (List.enumerate 0 svs) e0)) = length svs"
      "candidates (fold elector_step (List.enumerate 0 svs) e0) = candidates e0"
    using elector_steps [of "List.enumerate 0 svs" e0] d sc by (auto simp: ranked_ok_def)
  have "sum_list (map (\<lambda>(_, w). unat w) xs) \<le> length xs * 2 ^ 57" if "\<forall>(sv, w) \<in> set xs. unat w \<le> 2 ^ 57" for xs :: "(u16, u64) amap"
    using that by (induction xs) auto
  then have "sum_list (map (\<lambda>(_, w). unat w) (electors (fold elector_step (List.enumerate 0 svs) e0))) \<le> length svs * 2 ^ 57"
    using f(1,2) by (fastforce simp: ranked_ok_def)
  moreover have len: "length svs \<le> VIP_MAX" by (simp add: svs_def)
  ultimately have "sum_list (map (\<lambda>(_, w). unat w) (electors (fold elector_step (List.enumerate 0 svs) e0))) < 2 ^ 64"
    by (simp add: VIP_MAX_def)
  then show ?thesis using f len c0 by (simp add: poll_ready_def e' ranked_ok_def)
qed

definition demo_signed :: escd where
  "demo_signed = demo_poll\<lparr>mem := [(message0 (\<lambda>_. 0) [])\<lparr>mg_svid := 1, mg_msid := 1048576, mg_status := MSGSTAT_VAL\<rparr>],
     blk_msgs := [(7, 0)], electors := []\<rparr>"

theorem prepare_poll_ready_witness:
  "weights_ok (e_last demo_signed) \<and> (case prepare_poll demo_signed of None \<Rightarrow> False
     | Some e' \<Rightarrow> poll_ready e' \<and> length (electors e') = 1 \<and> winner e' = None)"
proof -
  have w: "weights_ok (e_last demo_signed)" by code_simp
  have c: "keys_ok (candidates demo_signed)" "\<forall>(h, c) \<in> set (candidates demo_signed). cd_now c < s_now (e_srvs demo_signed) \<or> cd_score c = 0"
    by (code_simp, code_simp)
  have "map_option (length \<circ> electors) (prepare_poll demo_signed) = Some 1" by code_simp
  then obtain e' where e': "prepare_poll demo_signed = Some e'" "length (electors e') = 1" by auto
  show ?thesis using prepare_poll_ready [OF e'(1) w c] w e' by simp
qed

end
