(* ===== verification/Spec2Isabelle.thy ===== *)
theory Spec2Isabelle
  imports Usertxs Message_Undo Votes
begin

text \<open>
  \<^bold>\<open>The program.\<close>  \<open>escd\<close> is a node of the ESC/ADS block chain.  Every 512 seconds the nodes close a
  block: a list of messages, one chain of numbered messages per node, each holding the signed
  transactions of that node's users.  A node takes in messages from its peers, validates them one
  by one against its copy of all accounts, agrees with the other nodes by a weighted vote on the
  list of messages of the block, undoes what is not on the list, books the effects that wait for
  the end of the block and signs the header of the new block.

  \<^bold>\<open>Theories and sources\<close> (paths below \<open>src/src\<close>):
  \<^item> \<open>Ads_Prelude\<close>, \<open>Ads_Types\<close>: bytes, words, buffers, sorted association lists for \<open>std::map\<close>, loops that
    can end the process; the records and constants of \<open>common/default.hpp\<close> and \<open>default_ads.h.in\<close>.
  \<^item> \<open>Usertxs\<close>: the transaction codec of \<open>common/user.hpp\<close>.
  \<^item> \<open>Hashtree\<close>: \<open>common/hash.hpp\<close>.  \<open>Keys\<close>: \<open>common/helper/ascii.cpp\<close> and the key search of \<open>servers.hpp\<close>.
  \<^item> \<open>Accounts\<close>, \<open>Servers\<close>, \<open>Block_Header\<close>, \<open>Msglist\<close>: \<open>class servers\<close> of \<open>common/servers.hpp\<close>: account and
    undo files, nodes, VIP nodes, headers, signatures, and the message list of a block.
  \<^item> \<open>Message\<close>: \<open>class message\<close> of \<open>common/message.hpp\<close>: construction, signatures, hash tree, files.
  \<^item> \<open>Server_State\<close>, \<open>Server_Process\<close>, \<open>Server_Commit\<close>: the ledger part of \<open>escd/server.cpp\<close>: \<open>process_message\<close>,
    \<open>undo_message\<close>, \<open>commit_block\<close>, \<open>commit_dividends\<close>, \<open>commit_deposit\<close>, \<open>commit_bankfee\<close>, \<open>finish_block\<close>, and the
    history log of a block (\<open>common/helper/hlog.cpp\<close>).
  \<^item> \<open>Node\<close>, \<open>Message_Store\<close>, \<open>Election\<close>, \<open>Block_List\<close>, \<open>Block_Cycle\<close>: the rest of \<open>escd/server.cpp\<close> with
    \<open>escd/candidate.hpp\<close>: the containers of messages, double spends, the poll and the votes, the
    message list of the block, validation, and the turn of the clock.
  \<^item> \<open>Ledger\<close>, \<open>Block_Ledger\<close>, \<open>Message_Effects\<close>, \<open>Message_Ledger\<close>, \<open>Message_Undo\<close>, \<open>Votes\<close>: proofs about these.

  \<^bold>\<open>Conventions.\<close>  Integers have their C++ width and wrap; signed ones are words read with \<open>sint\<close>.  \<open>None\<close>
  stands for \<open>exit\<close>, a failed \<open>assert\<close> and undefined behaviour; an error the code reports is a value.  A
  \<open>std::map\<close> is an association list in the order of its keys, a \<open>message_ptr\<close> an address in the memory of
  the node, the files of the node are in the record \<open>disk\<close>.  SHA256 and Ed25519, the clock, random numbers, and
  the content of fresh memory are parameters.  A handler runs as one step; locks are not modelled.
  The constants are those of the build for the ADS network.

  \<^bold>\<open>What is shown.\<close>
  \<^item> \<^bold>\<open>Ledger.\<close>  In every node the stored total and checksum are those of its accounts.  A message that is
    accepted keeps this, closing a block keeps it and is defined whenever it holds, and undoing a
    message gives back the books it found.
  \<^item> \<^bold>\<open>Votes.\<close>  Counting implements a weighted vote in which a candidate is elected exactly when no
    outstanding vote can change the winner; hence nodes agree, and an election that is not a tie ends.
  \<^item> \<^bold>\<open>Formats.\<close>  Transactions, keys, undo files and message lists are read back as they were written; sizes
    and signature positions computed in two places agree.
  \<^item> \<^bold>\<open>Hash trees.\<close>  The incremental tree computes the Merkle root; the path algorithm ends.
  \<^item> \<^bold>\<open>Defects.\<close>  Theorems on concrete inputs show where the code does not do what it means to.

  \<^bold>\<open>Bounds and fuel.\<close>  The one loop with fuel is the one of \<open>hashpath\<close>: its mask doubles, so 32 rounds are enough,
  which \<open>hashpath_terminates\<close> proves.  All other loops are over lists or have a measure.

  \<^bold>\<open>Not modelled.\<close>  Sockets, threads and their interleaving inside a handler; the connection protocol of
  \<open>escd/peer.hpp\<close> and the network managers; the office for local clients (\<open>office.cpp\<close>, \<open>client.hpp\<close>) and the command line
  client with its JSON output, which are I/O around the codec; start and synchronisation of a
  node, which sleep until peers deliver; archives of old blocks; printers, settings and logging.
  The Ed25519 and SHA256 implementations are vendored code and appear as parameters.
\<close>

end
